theory Spec2Isabelle
  imports Complex_Main "HOL-Library.Multiset"
begin

section \<open>Modelling conventions\<close>

text \<open>
  The development embeds the package \<open>colfi\<close> (file \<open>colfi/colfi.go\<close>, the revision with
  \<open>DatasetsFromSlices\<close>, \<open>SVDpp\<close> and \<open>GridSearch\<close>).

  \<^item> Go's \<open>float64\<close> and \<open>float32\<close> are idealised as \<open>real\<close>: arithmetic is exact,
    there is no rounding, no infinity and no NaN. The conversion \<open>float64(x)\<close> of a
    \<open>float32\<close> is the identity. The one exception is the size computation of
    \<open>DatasetsFromSlices\<close>, where rounding decides how many observations go to each
    Dataset: there every operation is rounded to the nearest \<open>float64\<close> (\<open>f64\<close>).
  \<^item> Identifiers, lengths and indices are non-negative and far from the 64-bit limit:
    they are \<open>nat\<close>. Configuration integers that the caller chooses freely
    (\<open>NumFactors\<close>, \<open>numEpochs\<close>) are \<open>int\<close>.
  \<^item> A Go \<open>map[string]int\<close> is an association list with pairwise distinct keys; a new
    key is added at the end, \<open>len\<close> is the length and lookup is \<open>map_of\<close>.
  \<^item> Every way a call can end other than by returning is a value of \<open>error\<close>:
    a returned Go \<open>error\<close> (\<open>ErrorValue\<close>), a run-time panic (\<open>Panic\<close>) and
    \<open>log.Fatal\<close>, which exits the process (\<open>Fatal\<close>).
  \<^item> The process-wide random generator is a stream of samples \<open>nat \<Rightarrow> real\<close> with
    a position that every draw advances; \<open>rand.Perm\<close> is a list given by the caller.
  \<^item> A model is a value: its matrices and bias slices are separate buffers, as
    \<open>NewSVD\<close> and \<open>NewSVDpp\<close> allocate them, and \<open>Fit\<close> returns the model with the
    buffers it has written.
  \<^item> Logging and wall-clock time are not modelled.
\<close>

datatype error = ErrorValue string | Panic string | Fatal string

definition bind :: "error + 'a \<Rightarrow> ('a \<Rightarrow> error + 'b) \<Rightarrow> error + 'b" where
  "bind x f = (case x of Inl e \<Rightarrow> Inl e | Inr v \<Rightarrow> f v)"

text \<open>A \<open>for ... range\<close> loop over a slice that threads a state and stops at the first
  failure.\<close>

fun forEach :: "'a list \<Rightarrow> 's \<Rightarrow> ('a \<Rightarrow> 's \<Rightarrow> error + 's) \<Rightarrow> error + 's" where
  "forEach [] s body = Inr s"
| "forEach (x # xs) s body =
     (case body x s of Inl e \<Rightarrow> Inl e | Inr s' \<Rightarrow> forEach xs s' body)"

text \<open>Slice indexing \<open>xs[i]\<close>: out of range is a run-time panic.\<close>

definition index :: "'a list \<Rightarrow> nat \<Rightarrow> error + 'a" where
  "index xs i = (if i < length xs then Inr (xs ! i) else Inl (Panic ''index out of range''))"

section \<open>Dataset\<close>

type_synonym gomap = "(string \<times> nat) list"

record Dataset =
  Users :: "nat list"
  Items :: "nat list"
  Ratings :: "real list"
  UserMap :: gomap
  ItemMap :: gomap

definition NewDataset :: Dataset where
  "NewDataset = \<lparr>Users = [], Items = [], Ratings = [], UserMap = [], ItemMap = []\<rparr>"

text \<open>One half of \<open>getInternalIDs\<close>: the id of a key, and the map with the key added
  under id \<open>len(m)\<close> when it was absent.\<close>

definition lookupOrAdd :: "gomap \<Rightarrow> string \<Rightarrow> nat \<times> gomap" where
  "lookupOrAdd m k =
     (case map_of m k of
        Some v \<Rightarrow> (v, m)
      | None \<Rightarrow> (length m, m @ [(k, length m)]))"

definition getInternalIDs :: "Dataset \<Rightarrow> string \<Rightarrow> string \<Rightarrow> (nat \<times> nat) \<times> Dataset" where
  "getInternalIDs d u i =
     (let (uid, um) = lookupOrAdd (UserMap d) u;
          (iid, im) = lookupOrAdd (ItemMap d) i
      in ((uid, iid), d\<lparr>UserMap := um, ItemMap := im\<rparr>))"

definition Append :: "Dataset \<Rightarrow> string \<Rightarrow> string \<Rightarrow> real \<Rightarrow> Dataset" where
  "Append d u i r =
     (let ((uid, iid), d') = getInternalIDs d u i
      in d'\<lparr>Users := Users d' @ [uid], Items := Items d' @ [iid], Ratings := Ratings d' @ [r]\<rparr>)"

text \<open>A sequence of \<open>Append\<close> calls, in order, on a Dataset.\<close>

definition appendAll :: "Dataset \<Rightarrow> (string \<times> string \<times> real) list \<Rightarrow> Dataset" where
  "appendAll d ts = foldl (\<lambda>d (u, i, r). Append d u i r) d ts"

text \<open>The ids a map hands out for a sequence of keys, and the map afterwards: what the
  calls of \<open>lookupOrAdd\<close> made by successive \<open>Append\<close>s do to one of the two maps.\<close>

fun encodeSeq :: "gomap \<Rightarrow> string list \<Rightarrow> nat list \<times> gomap" where
  "encodeSeq m [] = ([], m)"
| "encodeSeq m (k # ks) =
     (let (v, m') = lookupOrAdd m k; (vs, m'') = encodeSeq m' ks in (v # vs, m''))"

text \<open>The ids of a map are \<open>0 .. len - 1\<close> in insertion order, and no key occurs twice.\<close>

definition goodMap :: "gomap \<Rightarrow> bool" where
  "goodMap m = (map snd m = [0..<length m] \<and> distinct (map fst m))"

section \<open>RMSE\<close>

text \<open>\<open>math.Pow(x, 2.)\<close> is the square. The loop runs over the indices of \<open>pred\<close> and
  reads \<open>actual\<close> at the same index. A length mismatch ends in \<open>log.Fatalf\<close>: the
  function has a single \<open>float64\<close> result and no \<open>error\<close> result.\<close>

definition RMSE :: "real list \<Rightarrow> real list \<Rightarrow> error + real" where
  "RMSE pred actual =
     (let n = length pred in
      if n \<noteq> length actual
      then Inl (Fatal ''pred and actual slices must be the same length'')
      else
        let s = foldl (\<lambda>s i. s + (pred ! i - actual ! i) ^ 2) 0 [0..<length pred]
        in Inr (sqrt (s / real n)))"

section \<open>Splitting into train and test\<close>

text \<open>\<open>int(math.Round(x))\<close>: the nearest integer, halves away from zero.\<close>

definition math_Round :: "real \<Rightarrow> int" where
  "math_Round x = (if 0 \<le> x then \<lfloor>x + 1 / 2\<rfloor> else \<lceil>x - 1 / 2\<rceil>)"

text \<open>
  The arithmetic of \<open>DatasetsFromSlices\<close> is \<open>float64\<close> arithmetic and is modelled with
  its rounding: the conversion \<open>float64(n)\<close>, the difference \<open>1. - split\<close> and the product
  each give the \<open>float64\<close> nearest to the exact result, ties to the even significand.
  \<open>f64\<close> is that rounding for 53-bit significands with an unbounded exponent (no
  overflow, no subnormal numbers): for \<open>n\<close> below \<open>2^53\<close> and a \<open>float64\<close> \<open>split\<close> in
  \<open>[0, 1]\<close> every intermediate value is zero or in the normal range.
\<close>

definition roundEven :: "real \<Rightarrow> int" where
  "roundEven y =
     (let f = \<lfloor>y\<rfloor>; d = y - of_int f
      in if d < 1 / 2 then f else if 1 / 2 < d then f + 1 else if even f then f else f + 1)"

definition f64 :: "real \<Rightarrow> real" where
  "f64 x =
     (if x = 0 then 0
      else
        let e = \<lfloor>log 2 \<bar>x\<bar>\<rfloor>;
            u = 2 powr (of_int e - 52)
        in u * of_int (roundEven (x / u)))"

text \<open>The body of both loops of \<open>DatasetsFromSlices\<close>: the loop variable \<open>j\<close> is an
  element of \<open>p\<close>, and the observation appended is the one at index \<open>p[j]\<close>.\<close>

definition appendPermuted ::
  "string list \<Rightarrow> string list \<Rightarrow> real list \<Rightarrow> nat list \<Rightarrow> nat \<Rightarrow> Dataset \<Rightarrow> error + Dataset" where
  "appendPermuted u i r p j d =
     bind (index p j) (\<lambda>k.
     bind (index u k) (\<lambda>uk.
     bind (index i k) (\<lambda>ik.
     bind (index r k) (\<lambda>rk.
     Inr (Append d uk ik rk)))))"

text \<open>\<open>p\<close> is the result of \<open>rand.Perm(n)\<close>. The slice expressions \<open>p[:trainNum]\<close> and
  \<open>p[trainNum:]\<close> panic when \<open>trainNum\<close> is outside \<open>0 .. len(p)\<close>.\<close>

definition DatasetsFromSlices ::
  "string list \<Rightarrow> string list \<Rightarrow> real list \<Rightarrow> real \<Rightarrow> nat list \<Rightarrow> error + (Dataset \<times> Dataset)" where
  "DatasetsFromSlices u i r split p =
     (let n = length u in
      if n \<noteq> length i \<or> length u \<noteq> length r
      then Inl (ErrorValue ''u, i and r slices must be the same length'')
      else if split < 0 \<or> split > 1
      then Inl (ErrorValue ''split must be between 0 and 1'')
      else
        let trainNum = math_Round (f64 (f64 (real n) * f64 (1 - split))) in
        if trainNum < 0 \<or> int (length p) < trainNum
        then Inl (Panic ''slice bounds out of range'')
        else
          bind (forEach (take (nat trainNum) p) NewDataset (appendPermuted u i r p)) (\<lambda>trainset.
          bind (forEach (drop (nat trainNum) p) NewDataset (appendPermuted u i r p)) (\<lambda>testset.
          Inr (trainset, testset))))"

text \<open>The observation at an index of the input slices.\<close>

definition observation ::
  "string list \<Rightarrow> string list \<Rightarrow> real list \<Rightarrow> nat \<Rightarrow> string \<times> string \<times> real" where
  "observation u i r k = (u ! k, i ! k, r ! k)"

section \<open>Dense matrices and vectors\<close>

text \<open>
  Modelled from the spec: the dense matrix and vector primitives (\<open>mat.Dense\<close>,
  \<open>mat.VecDense\<close>, \<open>mat.Dot\<close> of the numeric library the package imports) are not part
  of the repository's files. The spec describes them as owned row-major numeric buffers
  with element get and set, row view and dot product. Reads and writes outside the
  dimensions, and operations on vectors of different lengths, panic. The matrix
  constructor panics on a dimension that is zero or negative, as the library documents
  for \<open>mat.NewDense\<close>; what \<open>NewSVD\<close> does with a Dataset that has no user or no
  item rests on this.
\<close>

record Dense =
  rows :: nat
  cols :: nat
  mdata :: "real list"

definition NewDense :: "int \<Rightarrow> int \<Rightarrow> real list \<Rightarrow> error + Dense" where
  "NewDense r c data =
     (if r \<le> 0 \<or> c \<le> 0 then Inl (Panic ''mat: zero or negative dimension'')
      else if int (length data) \<noteq> r * c then Inl (Panic ''mat: dimension mismatch'')
      else Inr \<lparr>rows = nat r, cols = nat c, mdata = data\<rparr>)"

definition At :: "Dense \<Rightarrow> nat \<Rightarrow> nat \<Rightarrow> error + real" where
  "At m i j =
     (if i < rows m \<and> j < cols m then Inr (mdata m ! (i * cols m + j))
      else Inl (Panic ''mat: index out of range''))"

definition Set :: "Dense \<Rightarrow> nat \<Rightarrow> nat \<Rightarrow> real \<Rightarrow> error + Dense" where
  "Set m i j v =
     (if i < rows m \<and> j < cols m then Inr (m\<lparr>mdata := (mdata m)[i * cols m + j := v]\<rparr>)
      else Inl (Panic ''mat: index out of range''))"

definition RowView :: "Dense \<Rightarrow> nat \<Rightarrow> error + real list" where
  "RowView m i =
     (if i < rows m then Inr (take (cols m) (drop (i * cols m) (mdata m)))
      else Inl (Panic ''mat: row index out of range''))"

definition Dot :: "real list \<Rightarrow> real list \<Rightarrow> error + real" where
  "Dot a b =
     (if length a \<noteq> length b then Inl (Panic ''mat: dimension mismatch'')
      else Inr (sum_list (map2 (*) a b)))"

definition NewVecDense :: "int \<Rightarrow> error + real list" where
  "NewVecDense n =
     (if n \<le> 0 then Inl (Panic ''mat: zero or negative dimension'')
      else Inr (replicate (nat n) 0))"

definition AddVec :: "real list \<Rightarrow> real list \<Rightarrow> error + real list" where
  "AddVec a b =
     (if length a \<noteq> length b then Inl (Panic ''mat: dimension mismatch'')
      else Inr (map2 (+) a b))"

definition ScaleVec :: "real \<Rightarrow> real list \<Rightarrow> real list" where
  "ScaleVec alpha a = map (\<lambda>x. alpha * x) a"

section \<open>The SVD model\<close>

record SVDConfig =
  NumFactors :: int
  InitMean :: real
  InitStdDev :: real
  LR :: real
  Reg :: real
  Verbose :: bool

record SVD =
  Dataset :: Dataset
  PU :: Dense
  QI :: Dense
  BU :: "real list"
  BI :: "real list"
  GlobalMean :: real
  Config :: SVDConfig

text \<open>The first statements of \<open>NewSVD\<close> and of \<open>NewSVDpp\<close>: a nil config is the zero
  config, and a zero field takes its default. \<open>InitMean\<close> and \<open>Verbose\<close> are kept.\<close>

definition withDefaults :: "SVDConfig option \<Rightarrow> SVDConfig" where
  "withDefaults config =
     (let c0 = (case config of
                  None \<Rightarrow> \<lparr>NumFactors = 0, InitMean = 0, InitStdDev = 0, LR = 0, Reg = 0,
                           Verbose = False\<rparr>
                | Some c \<Rightarrow> c);
          c1 = (if NumFactors c0 = 0 then c0\<lparr>NumFactors := 50\<rparr> else c0);
          c2 = (if InitStdDev c1 = 0 then c1\<lparr>InitStdDev := 1 / 10\<rparr> else c1);
          c3 = (if LR c2 = 0 then c2\<lparr>LR := 5 / 1000\<rparr> else c2);
          c4 = (if Reg c3 = 0 then c3\<lparr>Reg := 2 / 100\<rparr> else c3)
      in c4)"

text \<open>\<open>randMat\<close> draws \<open>r * c\<close> samples from the generator \<open>g\<close>, starting at position
  \<open>pos\<close>, and returns the matrix and the next position. \<open>make\<close> panics on a negative
  length.\<close>

definition randMat ::
  "(nat \<Rightarrow> real) \<Rightarrow> real \<Rightarrow> real \<Rightarrow> int \<Rightarrow> int \<Rightarrow> nat \<Rightarrow> error + (Dense \<times> nat)" where
  "randMat g mean stdDev r c pos =
     (if r * c < 0 then Inl (Panic ''makeslice: len out of range'')
      else
        let data = map (\<lambda>k. g (pos + k) * stdDev + mean) [0..<nat (r * c)] in
        bind (NewDense r c data) (\<lambda>m. Inr (m, pos + nat (r * c))))"

definition mean32 :: "real list \<Rightarrow> real" where
  "mean32 s = foldl (\<lambda>sum x. sum + x) 0 s / real (length s)"

definition NewSVD ::
  "Dataset \<Rightarrow> SVDConfig option \<Rightarrow> (nat \<Rightarrow> real) \<Rightarrow> nat \<Rightarrow> error + (SVD \<times> nat)" where
  "NewSVD dataset config0 g pos =
     (let config = withDefaults config0;
          bu = replicate (length (UserMap dataset)) 0;
          bi = replicate (length (ItemMap dataset)) 0
      in
      bind (randMat g (InitMean config) (InitStdDev config)
              (int (length (UserMap dataset))) (NumFactors config) pos) (\<lambda>(pu, pos1).
      bind (randMat g (InitMean config) (InitStdDev config)
              (int (length (ItemMap dataset))) (NumFactors config) pos1) (\<lambda>(qi, pos2).
      Inr (\<lparr>Dataset = dataset, PU = pu, QI = qi, BU = bu, BI = bi,
             GlobalMean = mean32 (Ratings dataset), Config = config\<rparr>, pos2))))"

text \<open>The first inner loop of \<open>Fit\<close>: \<open>dot += pu.At(u, f) * qi.At(i, f)\<close>.\<close>

definition dotLoop :: "Dense \<Rightarrow> Dense \<Rightarrow> nat \<Rightarrow> nat \<Rightarrow> int \<Rightarrow> error + real" where
  "dotLoop pu qi u i numFactors =
     forEach [0..<nat numFactors] 0 (\<lambda>f dot.
       bind (At pu u f) (\<lambda>a.
       bind (At qi i f) (\<lambda>b.
       Inr (dot + a * b))))"

text \<open>The second inner loop of \<open>Fit\<close>: both entries are read, then both are written.\<close>

definition factorLoop ::
  "real \<Rightarrow> real \<Rightarrow> real \<Rightarrow> nat \<Rightarrow> nat \<Rightarrow> int \<Rightarrow> Dense \<times> Dense \<Rightarrow> error + (Dense \<times> Dense)" where
  "factorLoop lr reg err u i numFactors pq =
     forEach [0..<nat numFactors] pq (\<lambda>f (pu, qi).
       bind (At pu u f) (\<lambda>puf.
       bind (At qi i f) (\<lambda>qif.
       bind (Set pu u f (puf + lr * (err * qif - reg * puf))) (\<lambda>pu'.
       bind (Set qi i f (qif + lr * (err * puf - reg * qif))) (\<lambda>qi'.
       Inr (pu', qi'))))))"

text \<open>The body of the loop over \<open>idx\<close>. The state is what \<open>Fit\<close> mutates: the two
  matrices behind \<open>m.PU\<close> and \<open>m.QI\<close> and the two slices behind \<open>m.BU\<close> and \<open>m.BI\<close>.\<close>

definition sgdUpdate ::
  "Dataset \<Rightarrow> real \<Rightarrow> real \<Rightarrow> real \<Rightarrow> int \<Rightarrow> nat \<Rightarrow>
   Dense \<times> Dense \<times> real list \<times> real list \<Rightarrow> error + (Dense \<times> Dense \<times> real list \<times> real list)" where
  "sgdUpdate d globalMean lr reg numFactors idx st =
     (case st of (pu, qi, bu, bi) \<Rightarrow>
       bind (index (Users d) idx) (\<lambda>u.
       bind (index (Items d) idx) (\<lambda>i.
       bind (index (Ratings d) idx) (\<lambda>r.
       bind (dotLoop pu qi u i numFactors) (\<lambda>dot.
       bind (index bu u) (\<lambda>bu_u.
       bind (index bi i) (\<lambda>bi_i.
       let err = r - (globalMean + bu_u + bi_i + dot);
           bu' = bu[u := bu_u + lr * (err - reg * bu_u)];
           bi' = bi[i := bi_i + lr * (err - reg * bi_i)]
       in
       bind (factorLoop lr reg err u i numFactors (pu, qi)) (\<lambda>(pu', qi').
       Inr (pu', qi', bu', bi')))))))))"

definition SVD_Fit :: "SVD \<Rightarrow> int \<Rightarrow> error + SVD" where
  "SVD_Fit m numEpochs =
     (let numRatings = length (Ratings (Dataset m));
          numFactors = NumFactors (Config m);
          reg = Reg (Config m);
          lr = LR (Config m);
          globalMean = GlobalMean m
      in
      bind (forEach [0..<nat numEpochs] (PU m, QI m, BU m, BI m) (\<lambda>epoch st.
              forEach [0..<numRatings] st (\<lambda>idx st.
                sgdUpdate (Dataset m) globalMean lr reg numFactors idx st)))
        (\<lambda>(pu, qi, bu, bi). Inr (m\<lparr>PU := pu, QI := qi, BU := bu, BI := bi\<rparr>)))"

text \<open>\<open>Predict\<close>: each bias is read only when its identifier is in the map, the two rows
  only when both are.\<close>

definition SVD_Predict :: "SVD \<Rightarrow> string \<Rightarrow> string \<Rightarrow> error + real" where
  "SVD_Predict m u i =
     (let p = GlobalMean m;
          uo = map_of (UserMap (Dataset m)) u;
          io = map_of (ItemMap (Dataset m)) i
      in
      bind (case uo of Some uid \<Rightarrow> bind (index (BU m) uid) (\<lambda>b. Inr (p + b)) | None \<Rightarrow> Inr p)
        (\<lambda>p.
      bind (case io of Some iid \<Rightarrow> bind (index (BI m) iid) (\<lambda>b. Inr (p + b)) | None \<Rightarrow> Inr p)
        (\<lambda>p.
      case (uo, io) of
        (Some uid, Some iid) \<Rightarrow>
          bind (RowView (PU m) uid) (\<lambda>a.
          bind (RowView (QI m) iid) (\<lambda>b.
          bind (Dot a b) (\<lambda>x.
          Inr (p + x))))
      | _ \<Rightarrow> Inr p)))"

subsection \<open>The update equations as the specification words them\<close>

text \<open>The entry \<open>M[u, f]\<close> of a matrix, and a matrix with row \<open>u\<close> replaced by \<open>g f\<close> at
  each column \<open>f\<close>.\<close>

definition entry :: "Dense \<Rightarrow> nat \<Rightarrow> nat \<Rightarrow> real" where
  "entry M u f = mdata M ! (u * cols M + f)"

definition updRow :: "Dense \<Rightarrow> nat \<Rightarrow> (nat \<Rightarrow> real) \<Rightarrow> Dense" where
  "updRow M u g =
     M\<lparr>mdata := map (\<lambda>k. if u * cols M \<le> k \<and> k < u * cols M + cols M
                           then g (k - u * cols M) else mdata M ! k)
                  [0..<length (mdata M)]\<rparr>"

text \<open>Steps 1 and 2 of the specification: the error of an observation in the state
  before the update.\<close>

definition spec_err :: "SVD \<Rightarrow> nat \<Rightarrow> nat \<Rightarrow> real \<Rightarrow> real" where
  "spec_err m u i r =
     r - (GlobalMean m + BU m ! u + BI m ! i
          + (\<Sum>f<nat (NumFactors (Config m)). entry (PU m) u f * entry (QI m) i f))"

text \<open>Steps 3 and 4: both biases move by \<open>lr \<cdot> (err - reg \<cdot> bias)\<close>; row \<open>u\<close> of \<open>PU\<close> and
  row \<open>i\<close> of \<open>QI\<close> are replaced together, every right-hand side reading the state
  before the update.\<close>

definition spec_step :: "SVD \<Rightarrow> nat \<times> nat \<times> real \<Rightarrow> SVD" where
  "spec_step m obs =
     (case obs of (u, i, r) \<Rightarrow>
       let err = spec_err m u i r;
           lr = LR (Config m);
           reg = Reg (Config m)
       in m\<lparr>BU := (BU m)[u := BU m ! u + lr * (err - reg * (BU m ! u))],
            BI := (BI m)[i := BI m ! i + lr * (err - reg * (BI m ! i))],
            PU := updRow (PU m) u
                    (\<lambda>f. entry (PU m) u f + lr * (err * entry (QI m) i f - reg * entry (PU m) u f)),
            QI := updRow (QI m) i
                    (\<lambda>f. entry (QI m) i f + lr * (err * entry (PU m) u f - reg * entry (QI m) i f))\<rparr>)"

text \<open>One epoch visits the observations in stored order; \<open>fit\<close> runs the epochs one after
  the other.\<close>

definition observations :: "Dataset \<Rightarrow> (nat \<times> nat \<times> real) list" where
  "observations d = zip (Users d) (zip (Items d) (Ratings d))"

definition spec_epoch :: "SVD \<Rightarrow> SVD" where
  "spec_epoch m = foldl spec_step m (observations (Dataset m))"

definition spec_fit :: "SVD \<Rightarrow> nat \<Rightarrow> SVD" where
  "spec_fit m n = (spec_epoch ^^ n) m"

text \<open>A model whose buffers fit its Dataset: the parallel arrays have one length, every
  user id is a row of \<open>PU\<close> and an index of \<open>BU\<close>, every item id is a row of \<open>QI\<close> and an
  index of \<open>BI\<close>, and both matrices have \<open>NumFactors\<close> columns.\<close>

definition wfSVD :: "SVD \<Rightarrow> bool" where
  "wfSVD m =
     (length (Users (Dataset m)) = length (Ratings (Dataset m)) \<and>
      length (Items (Dataset m)) = length (Ratings (Dataset m)) \<and>
      list_all (\<lambda>u. u < rows (PU m) \<and> u < length (BU m)) (Users (Dataset m)) \<and>
      list_all (\<lambda>i. i < rows (QI m) \<and> i < length (BI m)) (Items (Dataset m)) \<and>
      cols (PU m) = nat (NumFactors (Config m)) \<and>
      cols (QI m) = nat (NumFactors (Config m)) \<and>
      length (mdata (PU m)) = rows (PU m) * cols (PU m) \<and>
      length (mdata (QI m)) = rows (QI m) * cols (QI m))"

text \<open>The model of the specification's worked example: one rating \<open>(0, 0, 5)\<close>, global
  mean 3, all biases and latent entries zero, \<open>lr = 0.005\<close>, \<open>reg = 0.02\<close>, and any number
  \<open>nf\<close> of factors.\<close>

definition exampleSVD :: "nat \<Rightarrow> SVD" where
  "exampleSVD nf =
     \<lparr>Dataset = \<lparr>Users = [0], Items = [0], Ratings = [5],
                 UserMap = [(''u'', 0)], ItemMap = [(''i'', 0)]\<rparr>,
      PU = \<lparr>rows = 1, cols = nf, mdata = replicate nf 0\<rparr>,
      QI = \<lparr>rows = 1, cols = nf, mdata = replicate nf 0\<rparr>,
      BU = [0], BI = [0], GlobalMean = 3,
      Config = \<lparr>NumFactors = int nf, InitMean = 0, InitStdDev = 1 / 10, LR = 5 / 1000,
                Reg = 2 / 100, Verbose = False\<rparr>\<rparr>"

subsection \<open>Auxiliary notions for the proofs about \<open>Fit\<close>\<close>

text \<open>A matrix with the first \<open>n\<close> columns of row \<open>u\<close> replaced: the state of the factor
  loop after \<open>n\<close> rounds.\<close>

definition updRowN :: "Dense \<Rightarrow> nat \<Rightarrow> nat \<Rightarrow> (nat \<Rightarrow> real) \<Rightarrow> Dense" where
  "updRowN M u n g =
     M\<lparr>mdata := map (\<lambda>k. if u * cols M \<le> k \<and> k < u * cols M + n
                           then g (k - u * cols M) else mdata M ! k)
                  [0..<length (mdata M)]\<rparr>"

text \<open>The part of a model that \<open>Fit\<close> mutates.\<close>

definition stateOf :: "SVD \<Rightarrow> Dense \<times> Dense \<times> real list \<times> real list" where
  "stateOf m = (PU m, QI m, BU m, BI m)"

section \<open>The SVD++ model\<close>

text \<open>\<open>SVDpp\<close> has the fields of \<open>SVD\<close> and two more. \<open>IU\<close> is a Go \<open>map[int][]int\<close>;
  reading a key that is absent gives the nil slice.\<close>

record SVDpp = SVD +
  YJ :: Dense
  IU :: "nat \<Rightarrow> nat list option"

definition history :: "(nat \<Rightarrow> nat list option) \<Rightarrow> nat \<Rightarrow> nat list" where
  "history iu u = (case iu u of None \<Rightarrow> [] | Some items \<Rightarrow> items)"

text \<open>The loop of \<open>NewSVDpp\<close> that caches the items of every user. \<open>avgNum\<close> is an
  integer division by \<open>len(dataset.Users)\<close>, which panics on zero; its value is only a
  capacity.\<close>

definition buildIU :: "Dataset \<Rightarrow> error + (nat \<Rightarrow> nat list option)" where
  "buildIU dataset =
     (if length (Users dataset) = 0 then Inl (Panic ''integer divide by zero'')
      else
        forEach [0..<length (Ratings dataset)] Map.empty (\<lambda>idx iu.
          bind (index (Users dataset) idx) (\<lambda>uid.
          bind (index (Items dataset) idx) (\<lambda>item.
          Inr (iu(uid \<mapsto> history iu uid @ [item]))))))"

definition NewSVDpp ::
  "Dataset \<Rightarrow> SVDConfig option \<Rightarrow> (nat \<Rightarrow> real) \<Rightarrow> nat \<Rightarrow> error + (SVDpp \<times> nat)" where
  "NewSVDpp dataset config0 g pos =
     (let config = withDefaults config0;
          bu = replicate (length (UserMap dataset)) 0;
          bi = replicate (length (ItemMap dataset)) 0
      in
      bind (buildIU dataset) (\<lambda>iu.
      bind (randMat g (InitMean config) (InitStdDev config)
              (int (length (UserMap dataset))) (NumFactors config) pos) (\<lambda>(pu, pos1).
      bind (randMat g (InitMean config) (InitStdDev config)
              (int (length (ItemMap dataset))) (NumFactors config) pos1) (\<lambda>(qi, pos2).
      bind (randMat g (InitMean config) (InitStdDev config)
              (int (length (ItemMap dataset))) (NumFactors config) pos2) (\<lambda>(yj, pos3).
      Inr (\<lparr>Dataset = dataset, PU = pu, QI = qi, BU = bu, BI = bi,
             GlobalMean = mean32 (Ratings dataset), Config = config,
             YJ = yj, IU = iu\<rparr>, pos3))))))"

text \<open>The items of the observations of user \<open>u\<close>, in stored order, one entry per
  observation.\<close>

definition userItems :: "Dataset \<Rightarrow> nat \<Rightarrow> nat list" where
  "userItems d u = map snd (filter (\<lambda>p. fst p = u) (zip (Users d) (Items d)))"

text \<open>The implicit-feedback vector \<open>uImpFdb\<close>: \<open>make\<close> panics on a negative length; every
  item of the history adds its row of \<open>YJ\<close>, each entry divided by \<open>sqrtU\<close>.\<close>

definition implicitLoop :: "Dense \<Rightarrow> nat list \<Rightarrow> int \<Rightarrow> real \<Rightarrow> error + real list" where
  "implicitLoop yj items numFactors sqrtU =
     (if numFactors < 0 then Inl (Panic ''makeslice: len out of range'')
      else
        forEach items (replicate (nat numFactors) 0) (\<lambda>item uImpFdb.
          forEach [0..<nat numFactors] uImpFdb (\<lambda>f uImpFdb.
            bind (At yj item f) (\<lambda>y.
            bind (index uImpFdb f) (\<lambda>x.
            Inr (uImpFdb[f := x + y / sqrtU]))))))"

definition dotLoopPP :: "Dense \<Rightarrow> Dense \<Rightarrow> real list \<Rightarrow> nat \<Rightarrow> nat \<Rightarrow> int \<Rightarrow> error + real" where
  "dotLoopPP pu qi uImpFdb u i numFactors =
     forEach [0..<nat numFactors] 0 (\<lambda>f dot.
       bind (At pu u f) (\<lambda>a.
       bind (index uImpFdb f) (\<lambda>x.
       bind (At qi i f) (\<lambda>b.
       Inr (dot + (a + x) * b)))))"

text \<open>The innermost loop: every item of the history has its entry of \<open>YJ\<close> in column \<open>f\<close>
  moved. The source reads the entry twice in one expression.\<close>

definition yjLoop :: "real \<Rightarrow> real \<Rightarrow> real \<Rightarrow> nat list \<Rightarrow> nat \<Rightarrow> Dense \<Rightarrow> error + Dense" where
  "yjLoop lr reg errQIF items f yj =
     forEach items yj (\<lambda>item yj.
       bind (At yj item f) (\<lambda>y1.
       bind (At yj item f) (\<lambda>y2.
       Set yj item f (y1 + lr * (errQIF - reg * y2)))))"

definition factorLoopPP ::
  "real \<Rightarrow> real \<Rightarrow> real \<Rightarrow> real list \<Rightarrow> real \<Rightarrow> nat list \<Rightarrow> nat \<Rightarrow> nat \<Rightarrow> int \<Rightarrow>
   Dense \<times> Dense \<times> Dense \<Rightarrow> error + (Dense \<times> Dense \<times> Dense)" where
  "factorLoopPP lr reg err uImpFdb sqrtU items u i numFactors pqy =
     forEach [0..<nat numFactors] pqy (\<lambda>f (pu, qi, yj).
       bind (At pu u f) (\<lambda>puf.
       bind (At qi i f) (\<lambda>qif.
       bind (Set pu u f (puf + lr * (err * qif - reg * puf))) (\<lambda>pu'.
       bind (index uImpFdb f) (\<lambda>x.
       bind (Set qi i f (qif + lr * (err * (puf + x) - reg * qif))) (\<lambda>qi'.
       let errQIF = err * qif / sqrtU in
       bind (yjLoop lr reg errQIF items f yj) (\<lambda>yj'.
       Inr (pu', qi', yj'))))))))"

definition sgdUpdatePP ::
  "Dataset \<Rightarrow> (nat \<Rightarrow> nat list option) \<Rightarrow> real \<Rightarrow> real \<Rightarrow> real \<Rightarrow> int \<Rightarrow> nat \<Rightarrow>
   Dense \<times> Dense \<times> Dense \<times> real list \<times> real list \<Rightarrow>
   error + (Dense \<times> Dense \<times> Dense \<times> real list \<times> real list)" where
  "sgdUpdatePP d iu globalMean lr reg numFactors idx st =
     (case st of (pu, qi, yj, bu, bi) \<Rightarrow>
       bind (index (Users d) idx) (\<lambda>u.
       bind (index (Items d) idx) (\<lambda>i.
       bind (index (Ratings d) idx) (\<lambda>r.
       let sqrtU = sqrt (real (length (history iu u))) in
       bind (implicitLoop yj (history iu u) numFactors sqrtU) (\<lambda>uImpFdb.
       bind (dotLoopPP pu qi uImpFdb u i numFactors) (\<lambda>dot.
       bind (index bu u) (\<lambda>bu_u.
       bind (index bi i) (\<lambda>bi_i.
       let err = r - (globalMean + bu_u + bi_i + dot);
           bu' = bu[u := bu_u + lr * (err - reg * bu_u)];
           bi' = bi[i := bi_i + lr * (err - reg * bi_i)]
       in
       bind (factorLoopPP lr reg err uImpFdb sqrtU (history iu u) u i numFactors (pu, qi, yj))
         (\<lambda>(pu', qi', yj').
       Inr (pu', qi', yj', bu', bi'))))))))))"

definition SVDpp_Fit :: "SVDpp \<Rightarrow> int \<Rightarrow> error + SVDpp" where
  "SVDpp_Fit m numEpochs =
     (let numRatings = length (Ratings (Dataset m));
          numFactors = NumFactors (Config m);
          reg = Reg (Config m);
          lr = LR (Config m);
          iu = IU m;
          globalMean = GlobalMean m
      in
      bind (forEach [0..<nat numEpochs] (PU m, QI m, YJ m, BU m, BI m) (\<lambda>epoch st.
              forEach [0..<numRatings] st (\<lambda>idx st.
                sgdUpdatePP (Dataset m) iu globalMean lr reg numFactors idx st)))
        (\<lambda>(pu, qi, yj, bu, bi). Inr (m\<lparr>PU := pu, QI := qi, BU := bu, BI := bi, YJ := yj\<rparr>)))"

text \<open>\<open>Predict\<close> of SVD++: the vector \<open>uImp\<close> is the sum of the rows of \<open>YJ\<close> of the user's
  history, scaled by \<open>1 / sqrt(len)\<close>, plus the item's row of \<open>QI\<close>.\<close>

definition SVDpp_Predict :: "SVDpp \<Rightarrow> string \<Rightarrow> string \<Rightarrow> error + real" where
  "SVDpp_Predict m u i =
     (let p = GlobalMean m;
          uo = map_of (UserMap (Dataset m)) u;
          io = map_of (ItemMap (Dataset m)) i
      in
      bind (case uo of Some uid \<Rightarrow> bind (index (BU m) uid) (\<lambda>b. Inr (p + b)) | None \<Rightarrow> Inr p)
        (\<lambda>p.
      bind (case io of Some iid \<Rightarrow> bind (index (BI m) iid) (\<lambda>b. Inr (p + b)) | None \<Rightarrow> Inr p)
        (\<lambda>p.
      case (uo, io) of
        (Some uid, Some iid) \<Rightarrow>
          bind (NewVecDense (NumFactors (Config m))) (\<lambda>uImp0.
          bind (forEach (history (IU m) uid) uImp0 (\<lambda>item uImp.
                  bind (RowView (YJ m) item) (\<lambda>row. AddVec uImp row))) (\<lambda>uImp1.
          let uImp2 = ScaleVec (1 / sqrt (real (length (history (IU m) uid)))) uImp1 in
          bind (RowView (QI m) iid) (\<lambda>qrow.
          bind (AddVec uImp2 qrow) (\<lambda>uImp3.
          bind (RowView (PU m) uid) (\<lambda>prow.
          bind (Dot prow uImp3) (\<lambda>x.
          Inr (p + x)))))))
      | _ \<Rightarrow> Inr p)))"

subsection \<open>The SVD++ update as the specification words it\<close>

text \<open>\<open>user_implicit[f]\<close>: the sum of \<open>YJ[j, f]\<close> over the history, divided by
  \<open>sqrt_count\<close>.\<close>

definition sqrt_count :: "SVDpp \<Rightarrow> nat \<Rightarrow> real" where
  "sqrt_count m u = sqrt (real (length (history (IU m) u)))"

definition user_implicit :: "SVDpp \<Rightarrow> nat \<Rightarrow> nat \<Rightarrow> real" where
  "user_implicit m u f = (\<Sum>j\<leftarrow>history (IU m) u. entry (YJ m) j f) / sqrt_count m u"

definition specpp_err :: "SVDpp \<Rightarrow> nat \<Rightarrow> nat \<Rightarrow> real \<Rightarrow> real" where
  "specpp_err m u i r =
     r - (GlobalMean m + BU m ! u + BI m ! i
          + (\<Sum>f<nat (NumFactors (Config m)).
               (entry (PU m) u f + user_implicit m u f) * entry (QI m) i f))"

text \<open>One entry of a matrix replaced.\<close>

definition setEntry :: "Dense \<Rightarrow> nat \<Rightarrow> nat \<Rightarrow> real \<Rightarrow> Dense" where
  "setEntry M j f v = M\<lparr>mdata := (mdata M)[j * cols M + f := v]\<rparr>"

text \<open>The update of \<open>YJ\<close>: for each factor \<open>f\<close>, every item \<open>j\<close> of the user's history, in
  order and once per occurrence, has \<open>YJ[j, f]\<close> moved by
  \<open>lr \<cdot> (err \<cdot> QI[i, f] / sqrt_count - reg \<cdot> YJ[j, f])\<close>, with \<open>QI[i, f]\<close> the value before the
  update.\<close>

definition specpp_yj :: "SVDpp \<Rightarrow> nat \<Rightarrow> nat \<Rightarrow> real \<Rightarrow> Dense" where
  "specpp_yj m u i err =
     foldl (\<lambda>Y f.
        foldl (\<lambda>Y j. setEntry Y j f
                 (entry Y j f + LR (Config m)
                    * (err * entry (QI m) i f / sqrt_count m u - Reg (Config m) * entry Y j f)))
          Y (history (IU m) u))
       (YJ m) [0..<nat (NumFactors (Config m))]"

definition specpp_step :: "SVDpp \<Rightarrow> nat \<times> nat \<times> real \<Rightarrow> SVDpp" where
  "specpp_step m obs =
     (case obs of (u, i, r) \<Rightarrow>
       let err = specpp_err m u i r;
           lr = LR (Config m);
           reg = Reg (Config m)
       in m\<lparr>BU := (BU m)[u := BU m ! u + lr * (err - reg * (BU m ! u))],
            BI := (BI m)[i := BI m ! i + lr * (err - reg * (BI m ! i))],
            PU := updRow (PU m) u
                    (\<lambda>f. entry (PU m) u f + lr * (err * entry (QI m) i f - reg * entry (PU m) u f)),
            QI := updRow (QI m) i
                    (\<lambda>f. entry (QI m) i f
                       + lr * (err * (entry (PU m) u f + user_implicit m u f)
                               - reg * entry (QI m) i f)),
            YJ := specpp_yj m u i err\<rparr>)"

definition specpp_epoch :: "SVDpp \<Rightarrow> SVDpp" where
  "specpp_epoch m = foldl specpp_step m (observations (Dataset m))"

definition specpp_fit :: "SVDpp \<Rightarrow> nat \<Rightarrow> SVDpp" where
  "specpp_fit m n = (specpp_epoch ^^ n) m"

text \<open>An SVD++ model whose buffers fit its Dataset: as for SVD, and \<open>YJ\<close> has
  \<open>NumFactors\<close> columns, the factor count is not negative, and every user of the Dataset
  has a non-empty history of items that are rows of \<open>YJ\<close>.\<close>

definition wfSVDpp :: "SVDpp \<Rightarrow> bool" where
  "wfSVDpp m =
     (length (Users (Dataset m)) = length (Ratings (Dataset m)) \<and>
      length (Items (Dataset m)) = length (Ratings (Dataset m)) \<and>
      list_all (\<lambda>u. u < rows (PU m) \<and> u < length (BU m) \<and> history (IU m) u \<noteq> [] \<and>
                    list_all (\<lambda>j. j < rows (YJ m)) (history (IU m) u)) (Users (Dataset m)) \<and>
      list_all (\<lambda>i. i < rows (QI m) \<and> i < length (BI m)) (Items (Dataset m)) \<and>
      0 \<le> NumFactors (Config m) \<and>
      cols (PU m) = nat (NumFactors (Config m)) \<and>
      cols (QI m) = nat (NumFactors (Config m)) \<and>
      cols (YJ m) = nat (NumFactors (Config m)) \<and>
      length (mdata (PU m)) = rows (PU m) * cols (PU m) \<and>
      length (mdata (QI m)) = rows (QI m) * cols (QI m) \<and>
      length (mdata (YJ m)) = rows (YJ m) * cols (YJ m))"

text \<open>The part of an SVD++ model that \<open>Fit\<close> mutates.\<close>

definition stateOfPP :: "SVDpp \<Rightarrow> Dense \<times> Dense \<times> Dense \<times> real list \<times> real list" where
  "stateOfPP m = (PU m, QI m, YJ m, BU m, BI m)"

text \<open>A small SVD++ model: one user with four observations on two items, one factor.\<close>

definition exampleSVDpp :: SVDpp where
  "exampleSVDpp =
     \<lparr>Dataset = \<lparr>Users = [0, 0, 0, 0], Items = [0, 1, 0, 1], Ratings = [4, 3, 3, 4],
                 UserMap = [(''a'', 0)], ItemMap = [(''x'', 0), (''y'', 1)]\<rparr>,
      PU = \<lparr>rows = 1, cols = 1, mdata = [- 1]\<rparr>,
      QI = \<lparr>rows = 2, cols = 1, mdata = [2, - 1]\<rparr>,
      BU = [0], BI = [0, 0], GlobalMean = 3,
      Config = \<lparr>NumFactors = 1, InitMean = 0, InitStdDev = 1 / 10, LR = 1 / 2,
                Reg = 1, Verbose = False\<rparr>,
      YJ = \<lparr>rows = 2, cols = 1, mdata = [- 1, 3]\<rparr>,
      IU = Map.empty(0 \<mapsto> [0, 1, 0, 1])\<rparr>"

section \<open>Grid search\<close>

text \<open>The field \<open>Runtime\<close> of a result is wall-clock time and is left out. The field
  names carry a prefix because the three structs share them.\<close>

record GridSearchParams =
  p_NumEpochs :: "int list"
  p_NumFactors :: "int list"
  p_Reg :: "real list"
  p_LR :: "real list"
  p_InitStdDev :: "real list"

record GridSearchTestResult =
  t_NumEpochs :: int
  t_NumFactors :: int
  t_Reg :: real
  t_LR :: real
  t_InitStdDev :: real
  t_Loss :: real

text \<open>\<open>reverseMap\<close> swaps keys and values. The ids of a Dataset's map are pairwise
  distinct, so the order in which Go visits the map does not matter.\<close>

definition reverseMap :: "gomap \<Rightarrow> (nat \<times> string) list" where
  "reverseMap m = map (\<lambda>(k, v). (v, k)) m"

text \<open>\<open>testModel\<close>: a fresh model from the generator's current position, \<open>Fit\<close>, then one
  prediction per test observation, by the strings the reverse maps give its ids; an
  id without a string ends in \<open>log.Fatalf\<close>.\<close>

definition testModel ::
  "Dataset \<Rightarrow> Dataset \<Rightarrow> int \<Rightarrow> SVDConfig \<Rightarrow> (nat \<times> string) list \<Rightarrow> (nat \<times> string) list \<Rightarrow>
   (nat \<Rightarrow> real) \<Rightarrow> nat \<Rightarrow> error + (real \<times> nat)" where
  "testModel trainset testset numEpochs config userReverseMap itemReverseMap g pos =
     bind (NewSVD trainset (Some config) g pos) (\<lambda>(m0, pos').
     bind (SVD_Fit m0 numEpochs) (\<lambda>m.
     bind (forEach [0..<length (Ratings testset)] ([], []) (\<lambda>idx (actual, pred).
             let r = Ratings testset ! idx in
             bind (index (Users testset) idx) (\<lambda>uid.
             case map_of userReverseMap uid of
               None \<Rightarrow> Inl (Fatal ''user id not found in reverse map'')
             | Some u \<Rightarrow>
                 bind (index (Items testset) idx) (\<lambda>iid.
                 case map_of itemReverseMap iid of
                   None \<Rightarrow> Inl (Fatal ''item id not found in reverse map'')
                 | Some i \<Rightarrow>
                     bind (SVD_Predict m u i) (\<lambda>p.
                     Inr (actual @ [r], pred @ [p]))))))
       (\<lambda>(actual, pred).
     bind (RMSE pred actual) (\<lambda>loss.
     Inr (loss, pos')))))"

text \<open>The body of the innermost loop of \<open>GridSearch\<close>. The result echoes the loop
  variables, not the config that \<open>NewSVD\<close> completed.\<close>

definition gridStep ::
  "Dataset \<Rightarrow> Dataset \<Rightarrow> (nat \<times> string) list \<Rightarrow> (nat \<times> string) list \<Rightarrow> (nat \<Rightarrow> real) \<Rightarrow>
   int \<Rightarrow> int \<Rightarrow> real \<Rightarrow> real \<Rightarrow> real \<Rightarrow>
   GridSearchTestResult list \<times> nat \<Rightarrow> error + (GridSearchTestResult list \<times> nat)" where
  "gridStep trainset testset userReverseMap itemReverseMap g numEpochs numFactors reg lr initStdDev st =
     (case st of (tests, pos) \<Rightarrow>
       let config = \<lparr>NumFactors = numFactors, InitMean = 0, InitStdDev = initStdDev,
                     LR = lr, Reg = reg, Verbose = False\<rparr>
       in
       bind (testModel trainset testset numEpochs config userReverseMap itemReverseMap g pos)
         (\<lambda>(loss, pos').
       let test = \<lparr>t_NumEpochs = numEpochs, t_NumFactors = numFactors, t_Reg = reg,
                   t_LR = lr, t_InitStdDev = initStdDev, t_Loss = loss\<rparr>
       in Inr (tests @ [test], pos')))"

definition GridSearch ::
  "Dataset \<Rightarrow> Dataset \<Rightarrow> GridSearchParams \<Rightarrow> (nat \<Rightarrow> real) \<Rightarrow> nat \<Rightarrow>
   error + (GridSearchTestResult list \<times> nat)" where
  "GridSearch trainset testset p g pos =
     (let numTests = length (p_NumEpochs p) * length (p_NumFactors p) * length (p_Reg p)
                     * length (p_LR p) * length (p_InitStdDev p)
      in
      if numTests < 1
      then Inl (Fatal ''GridSearch: all parameters must have at least one test value'')
      else
        let userReverseMap = reverseMap (UserMap testset);
            itemReverseMap = reverseMap (ItemMap testset)
        in
        forEach (p_NumEpochs p) ([], pos) (\<lambda>numEpochs st.
          forEach (p_NumFactors p) st (\<lambda>numFactors st.
            forEach (p_Reg p) st (\<lambda>reg st.
              forEach (p_LR p) st (\<lambda>lr st.
                forEach (p_InitStdDev p) st (\<lambda>initStdDev st.
                  gridStep trainset testset userReverseMap itemReverseMap g
                    numEpochs numFactors reg lr initStdDev st))))))"

subsection \<open>What a grid search is to return\<close>

text \<open>The combinations of the five lists, epochs outermost and init-stddev innermost.\<close>

definition combinations :: "GridSearchParams \<Rightarrow> (int \<times> int \<times> real \<times> real \<times> real) list" where
  "combinations p =
     [(ne, nf, rg, lr, sd).
        ne \<leftarrow> p_NumEpochs p, nf \<leftarrow> p_NumFactors p, rg \<leftarrow> p_Reg p, lr \<leftarrow> p_LR p,
        sd \<leftarrow> p_InitStdDev p]"

definition gridConfig :: "int \<times> int \<times> real \<times> real \<times> real \<Rightarrow> SVDConfig" where
  "gridConfig c =
     (case c of (ne, nf, rg, lr, sd) \<Rightarrow>
        \<lparr>NumFactors = nf, InitMean = 0, InitStdDev = sd, LR = lr, Reg = rg, Verbose = False\<rparr>)"

text \<open>The defaults as the specification lists them: a zero factor count becomes 50, a
  zero init stddev 0.1, a zero learning rate 0.005 and a zero regularisation 0.02; the
  init mean and the verbosity flag are kept.\<close>

definition spec_config :: "SVDConfig \<Rightarrow> SVDConfig" where
  "spec_config c =
     \<lparr>NumFactors = (if NumFactors c = 0 then 50 else NumFactors c),
      InitMean = InitMean c,
      InitStdDev = (if InitStdDev c = 0 then 1 / 10 else InitStdDev c),
      LR = (if LR c = 0 then 5 / 1000 else LR c),
      Reg = (if Reg c = 0 then 2 / 100 else Reg c),
      Verbose = Verbose c\<rparr>"

text \<open>A fresh model over a Dataset with a (completed) config: \<open>PU\<close> has one row per user
  and \<open>QI\<close> one row per item, each with factor-count columns, filled row by row with the
  generator's next samples scaled by the init stddev and shifted by the init mean, \<open>PU\<close>
  first; the biases are zero; the global mean is the average of the ratings.\<close>

definition spec_fresh :: "Dataset \<Rightarrow> SVDConfig \<Rightarrow> (nat \<Rightarrow> real) \<Rightarrow> nat \<Rightarrow> SVD" where
  "spec_fresh d c g pos =
     (let nu = length (UserMap d); ni = length (ItemMap d); nf = nat (NumFactors c)
      in \<lparr>Dataset = d,
          PU = \<lparr>rows = nu, cols = nf,
                mdata = map (\<lambda>k. g (pos + k) * InitStdDev c + InitMean c) [0..<nu * nf]\<rparr>,
          QI = \<lparr>rows = ni, cols = nf,
                mdata = map (\<lambda>k. g (pos + nu * nf + k) * InitStdDev c + InitMean c)
                          [0..<ni * nf]\<rparr>,
          BU = replicate nu 0, BI = replicate ni 0,
          GlobalMean = sum_list (Ratings d) / real (length (Ratings d)),
          Config = c\<rparr>)"

text \<open>The number of samples a fresh model takes from the generator.\<close>

definition draws :: "Dataset \<Rightarrow> SVDConfig \<Rightarrow> nat" where
  "draws d c = (length (UserMap d) + length (ItemMap d)) * nat (NumFactors c)"

text \<open>\<open>predict\<close> as the specification words it: the global mean, plus the bias of each
  identifier the model's Dataset knows, plus the dot product of the two rows when it
  knows both.\<close>

definition spec_predict :: "SVD \<Rightarrow> string \<Rightarrow> string \<Rightarrow> real" where
  "spec_predict m u i =
     (case (map_of (UserMap (Dataset m)) u, map_of (ItemMap (Dataset m)) i) of
        (Some uid, Some iid) \<Rightarrow>
          GlobalMean m + BU m ! uid + BI m ! iid
          + (\<Sum>f<cols (PU m). entry (PU m) uid f * entry (QI m) iid f)
      | (Some uid, None) \<Rightarrow> GlobalMean m + BU m ! uid
      | (None, Some iid) \<Rightarrow> GlobalMean m + BI m ! iid
      | (None, None) \<Rightarrow> GlobalMean m)"

text \<open>The original string of an id: the key that a Dataset's map sends to it.\<close>

definition nameOf :: "gomap \<Rightarrow> nat \<Rightarrow> string" where
  "nameOf m v = (case find (\<lambda>kv. snd kv = v) m of Some kv \<Rightarrow> fst kv | None \<Rightarrow> [])"

text \<open>The loss of a model on a test Dataset: \<open>sqrt ((1/n) \<cdot> \<Sum> (pred\<^sub>k - actual\<^sub>k)\<^sup>2)\<close> over
  the \<open>n\<close> test observations, where \<open>pred\<^sub>k\<close> is the model's prediction for the original
  strings of the \<open>k\<close>-th observation's user and item and \<open>actual\<^sub>k\<close> is its rating.\<close>

definition spec_loss :: "SVD \<Rightarrow> Dataset \<Rightarrow> real" where
  "spec_loss m t =
     sqrt ((1 / real (length (Ratings t))) *
           (\<Sum>k<length (Ratings t).
              (spec_predict m (nameOf (UserMap t) (Users t ! k)) (nameOf (ItemMap t) (Items t ! k))
               - Ratings t ! k) ^ 2))"

text \<open>What a grid search is to return for a list of combinations, the generator being at
  position \<open>pos\<close>: for each combination in turn, the combination itself together with the
  loss on the test Dataset of a fresh model over the train Dataset, built with the
  combination's config completed by the defaults and trained by \<open>fit\<close> for the
  combination's epochs. Every model takes its samples where the one before stopped.\<close>

definition spec_result :: "int \<times> int \<times> real \<times> real \<times> real \<Rightarrow> real \<Rightarrow> GridSearchTestResult" where
  "spec_result c loss =
     (case c of (ne, nf, rg, lr, sd) \<Rightarrow>
        \<lparr>t_NumEpochs = ne, t_NumFactors = nf, t_Reg = rg, t_LR = lr, t_InitStdDev = sd,
         t_Loss = loss\<rparr>)"

definition spec_model ::
  "Dataset \<Rightarrow> (nat \<Rightarrow> real) \<Rightarrow> nat \<Rightarrow> int \<times> int \<times> real \<times> real \<times> real \<Rightarrow> SVD" where
  "spec_model trainset g pos c =
     spec_fit (spec_fresh trainset (spec_config (gridConfig c)) g pos) (nat (fst c))"

fun spec_grid ::
  "Dataset \<Rightarrow> Dataset \<Rightarrow> (nat \<Rightarrow> real) \<Rightarrow> nat \<Rightarrow> (int \<times> int \<times> real \<times> real \<times> real) list \<Rightarrow>
   GridSearchTestResult list" where
  "spec_grid trainset testset g pos [] = []"
| "spec_grid trainset testset g pos (c # cs) =
     spec_result c (spec_loss (spec_model trainset g pos c) testset)
     # spec_grid trainset testset g (pos + draws trainset (spec_config (gridConfig c))) cs"

text \<open>The generator's position when the \<open>k\<close>-th combination's model is built.\<close>

definition positionOf ::
  "Dataset \<Rightarrow> nat \<Rightarrow> (int \<times> int \<times> real \<times> real \<times> real) list \<Rightarrow> nat \<Rightarrow> nat" where
  "positionOf trainset pos cs k =
     pos + sum_list (map (\<lambda>c. draws trainset (spec_config (gridConfig c))) (take k cs))"

definition echoes :: "int \<times> int \<times> real \<times> real \<times> real \<Rightarrow> GridSearchTestResult \<Rightarrow> bool" where
  "echoes c t =
     (case c of (ne, nf, rg, lr, sd) \<Rightarrow>
        t_NumEpochs t = ne \<and> t_NumFactors t = nf \<and> t_Reg t = rg \<and> t_LR t = lr \<and>
        t_InitStdDev t = sd)"

text \<open>A Dataset as \<open>Append\<close> builds it: parallel arrays of one length, maps with ids
  \<open>0 .. len - 1\<close> and distinct keys, and every stored id in its map.\<close>

definition wfDataset :: "Dataset \<Rightarrow> bool" where
  "wfDataset d =
     (length (Users d) = length (Ratings d) \<and> length (Items d) = length (Ratings d) \<and>
      goodMap (UserMap d) \<and> goodMap (ItemMap d) \<and>
      list_all (\<lambda>u. u < length (UserMap d)) (Users d) \<and>
      list_all (\<lambda>i. i < length (ItemMap d)) (Items d))"

text \<open>A model that \<open>Predict\<close> can read for every known identifier.\<close>

definition wfPredict :: "SVD \<Rightarrow> bool" where
  "wfPredict m =
     (list_all (\<lambda>kv. snd kv < length (BU m) \<and> snd kv < rows (PU m)) (UserMap (Dataset m)) \<and>
      list_all (\<lambda>kv. snd kv < length (BI m) \<and> snd kv < rows (QI m)) (ItemMap (Dataset m)) \<and>
      cols (PU m) = cols (QI m) \<and>
      length (mdata (PU m)) = rows (PU m) * cols (PU m) \<and>
      length (mdata (QI m)) = rows (QI m) * cols (QI m))"

text \<open>A small train and test Dataset with independent id spaces (user \<open>b\<close> is 1 in one and
  0 in the other), and parameter lists of sizes 1, 3, 1, 1, 1 whose regularisation
  candidate is zero.\<close>

definition exampleTrain :: Dataset where
  "exampleTrain = \<lparr>Users = [0, 1], Items = [0, 0], Ratings = [5, 1],
                    UserMap = [(''a'', 0), (''b'', 1)], ItemMap = [(''x'', 0)]\<rparr>"

definition exampleTest :: Dataset where
  "exampleTest = \<lparr>Users = [0], Items = [0], Ratings = [3],
                   UserMap = [(''b'', 0)], ItemMap = [(''x'', 0)]\<rparr>"


text \<open>A grid of one combination that is cheap to evaluate: one epoch, one factor, a zero
  regularisation candidate, learning rate 0.5 and init stddev 1.\<close>

definition smallParams :: GridSearchParams where
  "smallParams = \<lparr>p_NumEpochs = [1], p_NumFactors = [1], p_Reg = [0],
                   p_LR = [1 / 2], p_InitStdDev = [1]\<rparr>"

text \<open>A generator all of whose samples are 0.\<close>

definition zeros :: "nat \<Rightarrow> real" where
  "zeros k = 0"

section \<open>Basic facts about the failure monad and slices\<close>

lemma bind_Inr [simp]: "bind (Inr v) f = f v"
  by (simp add: bind_def)

lemma bind_Inl [simp]: "bind (Inl e) f = Inl e"
  by (simp add: bind_def)

lemma index_ok [simp]: "i < length xs \<Longrightarrow> index xs i = Inr (xs ! i)"
  by (simp add: index_def)

section \<open>Identifier encoding: invariants of Append\<close>

lemma goodMap_empty: "goodMap []"
  by (simp add: goodMap_def)

lemma map_of_goodMap_lt: "goodMap m \<Longrightarrow> map_of m k = Some v \<Longrightarrow> v < length m"
proof -
  assume g: "goodMap m" and l: "map_of m k = Some v"
  from l have "(k, v) \<in> set m" by (rule map_of_SomeD)
  then have "v \<in> set (map snd m)" by force
  with g show ?thesis by (simp add: goodMap_def)
qed

lemma map_of_snoc:
  "map_of (m @ [(k, v)]) k' =
     (case map_of m k' of Some x \<Rightarrow> Some x | None \<Rightarrow> if k' = k then Some v else None)"
  by (simp add: map_add_def split: option.splits)

lemma lookupOrAdd_old:
  "map_of m k = Some v \<Longrightarrow> lookupOrAdd m k = (v, m)"
  by (simp add: lookupOrAdd_def)

lemma lookupOrAdd_new:
  "map_of m k = None \<Longrightarrow> lookupOrAdd m k = (length m, m @ [(k, length m)])"
  by (simp add: lookupOrAdd_def)

lemma lookupOrAdd_good:
  assumes "goodMap m" "lookupOrAdd m k = (v, m')"
  shows "goodMap m'" "map_of m' k = Some v" "v < length m'"
    "fst ` set m' = insert k (fst ` set m)"
    "\<And>k' x. map_of m k' = Some x \<Longrightarrow> map_of m' k' = Some x"
    "k \<notin> fst ` set m \<Longrightarrow> v = length m"
    "length m \<le> length m'"
proof -
  show "goodMap m'" using assms
    by (auto simp: lookupOrAdd_def goodMap_def map_of_eq_None_iff split: option.splits)
  show "map_of m' k = Some v" using assms
    by (auto simp: lookupOrAdd_def map_add_def split: option.splits)
  show "v < length m'" using assms
    by (auto simp: lookupOrAdd_def dest: map_of_goodMap_lt split: option.splits)
  show "fst ` set m' = insert k (fst ` set m)" using assms
    by (auto simp: lookupOrAdd_def  split: option.splits dest: map_of_SomeD intro: rev_image_eqI)
  show "\<And>k' x. map_of m k' = Some x \<Longrightarrow> map_of m' k' = Some x" using assms
    by (auto simp: lookupOrAdd_def map_add_def split: option.splits)
  show "k \<notin> fst ` set m \<Longrightarrow> v = length m" using assms
    by (auto simp: lookupOrAdd_def map_of_eq_None_iff split: option.splits dest: map_of_SomeD intro: rev_image_eqI)
  show "length m \<le> length m'" using assms
    by (auto simp: lookupOrAdd_def split: option.splits)
qed

lemma goodMap_length: "goodMap m \<Longrightarrow> length m = card (fst ` set m)"
  by (metis goodMap_def distinct_card length_map set_map)

lemma encodeSeq_Cons:
  "lookupOrAdd m k = (v, m') \<Longrightarrow>
   encodeSeq m (k # ks) = (v # fst (encodeSeq m' ks), snd (encodeSeq m' ks))"
  by (simp split: prod.splits)

declare encodeSeq.simps(2) [simp del]

lemma encodeSeq_length: "length (fst (encodeSeq m ks)) = length ks"
proof (induction ks arbitrary: m)
  case Nil
  then show ?case by simp
next
  case (Cons k ks)
  obtain v m' where l: "lookupOrAdd m k = (v, m')" by (cases "lookupOrAdd m k")
  from Cons.IH show ?case by (simp add: encodeSeq_Cons[OF l])
qed

lemma encodeSeq_good: "goodMap m \<Longrightarrow> goodMap (snd (encodeSeq m ks))"
proof (induction ks arbitrary: m)
  case Nil
  then show ?case by simp
next
  case (Cons k ks)
  obtain v m' where l: "lookupOrAdd m k = (v, m')" by (cases "lookupOrAdd m k")
  from lookupOrAdd_good(1)[OF Cons.prems l] Cons.IH show ?case
    by (simp add: encodeSeq_Cons[OF l])
qed

lemma encodeSeq_keys:
  "goodMap m \<Longrightarrow> fst ` set (snd (encodeSeq m ks)) = fst ` set m \<union> set ks"
proof (induction ks arbitrary: m)
  case Nil
  then show ?case by simp
next
  case (Cons k ks)
  obtain v m' where l: "lookupOrAdd m k = (v, m')" by (cases "lookupOrAdd m k")
  have "fst ` set (snd (encodeSeq m' ks)) = fst ` set m' \<union> set ks"
    by (rule Cons.IH) (rule lookupOrAdd_good(1)[OF Cons.prems l])
  with lookupOrAdd_good(4)[OF Cons.prems l] show ?case
    by (simp add: encodeSeq_Cons[OF l])
qed

lemma encodeSeq_mono:
  "goodMap m \<Longrightarrow> map_of m k = Some x \<Longrightarrow> map_of (snd (encodeSeq m ks)) k = Some x"
proof (induction ks arbitrary: m)
  case Nil
  then show ?case by simp
next
  case (Cons a ks)
  obtain v m' where l: "lookupOrAdd m a = (v, m')" by (cases "lookupOrAdd m a")
  have "map_of (snd (encodeSeq m' ks)) k = Some x"
    by (rule Cons.IH) (rule lookupOrAdd_good[OF Cons.prems(1) l], rule lookupOrAdd_good(5)[OF Cons.prems(1) l Cons.prems(2)])
  then show ?case by (simp add: encodeSeq_Cons[OF l])
qed

lemma encodeSeq_lookup:
  "goodMap m \<Longrightarrow> j < length ks \<Longrightarrow>
   map_of (snd (encodeSeq m ks)) (ks ! j) = Some (fst (encodeSeq m ks) ! j)"
proof (induction ks arbitrary: m j)
  case Nil
  then show ?case by simp
next
  case (Cons a ks)
  obtain v m' where l: "lookupOrAdd m a = (v, m')" by (cases "lookupOrAdd m a")
  note g' = lookupOrAdd_good(1)[OF Cons.prems(1) l]
  show ?case
  proof (cases j)
    case 0
    have "map_of (snd (encodeSeq m' ks)) a = Some v"
      by (rule encodeSeq_mono[OF g']) (rule lookupOrAdd_good(2)[OF Cons.prems(1) l])
    with 0 show ?thesis by (simp add: encodeSeq_Cons[OF l])
  next
    case (Suc j')
    with Cons.prems have "j' < length ks" by simp
    from Cons.IH[OF g' this] Suc show ?thesis by (simp add: encodeSeq_Cons[OF l])
  qed
qed

lemma encodeSeq_fresh:
  "goodMap m \<Longrightarrow> j < length ks \<Longrightarrow> ks ! j \<notin> fst ` set m \<union> set (take j ks) \<Longrightarrow>
   fst (encodeSeq m ks) ! j = card (fst ` set m \<union> set (take j ks))"
proof (induction ks arbitrary: m j)
  case Nil
  then show ?case by simp
next
  case (Cons a ks)
  obtain v m' where l: "lookupOrAdd m a = (v, m')" by (cases "lookupOrAdd m a")
  note g' = lookupOrAdd_good(1)[OF Cons.prems(1) l]
  note k' = lookupOrAdd_good(4)[OF Cons.prems(1) l]
  show ?case
  proof (cases j)
    case 0
    with Cons.prems have "a \<notin> fst ` set m" by simp
    from lookupOrAdd_good(6)[OF Cons.prems(1) l this] 0 goodMap_length[OF Cons.prems(1)]
    show ?thesis by (simp add: encodeSeq_Cons[OF l])
  next
    case (Suc j')
    with Cons.prems have j': "j' < length ks" by simp
    from Cons.prems(3) Suc k' have "ks ! j' \<notin> fst ` set m' \<union> set (take j' ks)" by simp
    from Cons.IH[OF g' j' this] Suc k' show ?thesis by (simp add: encodeSeq_Cons[OF l])
  qed
qed

lemma encodeSeq_grows: "length m \<le> length (snd (encodeSeq m ks))"
proof (induction ks arbitrary: m)
  case Nil
  then show ?case by simp
next
  case (Cons a ks)
  obtain v m' where l: "lookupOrAdd m a = (v, m')" by (cases "lookupOrAdd m a")
  then have "length m \<le> length m'" by (auto simp: lookupOrAdd_def split: option.splits)
  with Cons.IH[of m'] show ?case by (simp add: encodeSeq_Cons[OF l])
qed

lemma encodeSeq_bound:
  "goodMap m \<Longrightarrow> x \<in> set (fst (encodeSeq m ks)) \<Longrightarrow> x < length (snd (encodeSeq m ks))"
proof (induction ks arbitrary: m)
  case Nil
  then show ?case by simp
next
  case (Cons a ks)
  obtain v m' where l: "lookupOrAdd m a = (v, m')" by (cases "lookupOrAdd m a")
  note g' = lookupOrAdd_good(1)[OF Cons.prems(1) l]
  from Cons.prems(2) have "x = v \<or> x \<in> set (fst (encodeSeq m' ks))"
    by (simp add: encodeSeq_Cons[OF l])
  then show ?case
  proof
    assume "x = v"
    with lookupOrAdd_good(3)[OF Cons.prems(1) l] encodeSeq_grows[of m' ks]
    show ?thesis by (simp add: encodeSeq_Cons[OF l])
  next
    assume "x \<in> set (fst (encodeSeq m' ks))"
    from Cons.IH[OF g' this] show ?thesis by (simp add: encodeSeq_Cons[OF l])
  qed
qed

lemma Append_fields:
  "lookupOrAdd (UserMap d) u = (uid, um) \<Longrightarrow> lookupOrAdd (ItemMap d) i = (iid, im) \<Longrightarrow>
   Append d u i r = d\<lparr>Users := Users d @ [uid], Items := Items d @ [iid],
     Ratings := Ratings d @ [r], UserMap := um, ItemMap := im\<rparr>"
  by (simp add: Append_def getInternalIDs_def)

lemma appendAll_Cons: "appendAll d ((u, i, r) # ts) = appendAll (Append d u i r) ts"
  by (simp add: appendAll_def)

lemma appendAll_encode:
  "appendAll d ts = d\<lparr>
     Users := Users d @ fst (encodeSeq (UserMap d) (map fst ts)),
     Items := Items d @ fst (encodeSeq (ItemMap d) (map (\<lambda>t. fst (snd t)) ts)),
     Ratings := Ratings d @ map (\<lambda>t. snd (snd t)) ts,
     UserMap := snd (encodeSeq (UserMap d) (map fst ts)),
     ItemMap := snd (encodeSeq (ItemMap d) (map (\<lambda>t. fst (snd t)) ts))\<rparr>"
proof (induction ts arbitrary: d)
  case Nil
  then show ?case by (simp add: appendAll_def)
next
  case (Cons t ts)
  obtain u i r where t: "t = (u, i, r)" by (cases t)
  obtain uid um where lu: "lookupOrAdd (UserMap d) u = (uid, um)"
    by (cases "lookupOrAdd (UserMap d) u")
  obtain iid im where li: "lookupOrAdd (ItemMap d) i = (iid, im)"
    by (cases "lookupOrAdd (ItemMap d) i")
  show ?case
    unfolding t appendAll_Cons Cons.IH Append_fields[OF lu li]
    by (simp add: encodeSeq_Cons[OF lu] encodeSeq_Cons[OF li])
qed

lemma Append_example:
  "appendAll NewDataset [(''ann'', ''x'', 4), (''bob'', ''x'', 2), (''ann'', ''y'', 5)] =
     \<lparr>Users = [0, 1, 0], Items = [0, 0, 1], Ratings = [4, 2, 5],
      UserMap = [(''ann'', 0), (''bob'', 1)], ItemMap = [(''x'', 0), (''y'', 1)]\<rparr>"
  by (simp add: appendAll_def Append_def getInternalIDs_def lookupOrAdd_def NewDataset_def)

text \<open>
  C8. \<open>Append\<close> is a total function (it has no failure value). After appending the
  triples \<open>ts\<close> to the empty Dataset, in order: the three parallel arrays have length
  \<open>length ts\<close>; the \<open>j\<close>-th entry of \<open>Users\<close> is the id that \<open>UserMap\<close> gives the
  \<open>j\<close>-th user string; a user string that occurs at position \<open>j\<close> for the first time,
  after \<open>k\<close> distinct user strings were seen, has id \<open>k\<close> (so the \<open>k\<close>-th distinct string
  has id \<open>k - 1\<close>); every id in \<open>Users\<close> is below the size of \<open>UserMap\<close>; and the same for
  items.
\<close>

theorem Append_sequence:
  "length (Users (appendAll NewDataset ts)) = length ts \<and>
   length (Items (appendAll NewDataset ts)) = length ts \<and>
   length (Ratings (appendAll NewDataset ts)) = length ts \<and>
   (\<forall>j<length ts. map_of (UserMap (appendAll NewDataset ts)) (map fst ts ! j)
        = Some (Users (appendAll NewDataset ts) ! j)) \<and>
   (\<forall>j<length ts. map_of (ItemMap (appendAll NewDataset ts)) (map (\<lambda>t. fst (snd t)) ts ! j)
        = Some (Items (appendAll NewDataset ts) ! j)) \<and>
   (\<forall>j<length ts. map fst ts ! j \<notin> set (take j (map fst ts)) \<longrightarrow>
        Users (appendAll NewDataset ts) ! j = card (set (take j (map fst ts)))) \<and>
   (\<forall>j<length ts. map (\<lambda>t. fst (snd t)) ts ! j \<notin> set (take j (map (\<lambda>t. fst (snd t)) ts)) \<longrightarrow>
        Items (appendAll NewDataset ts) ! j = card (set (take j (map (\<lambda>t. fst (snd t)) ts)))) \<and>
   (\<forall>x\<in>set (Users (appendAll NewDataset ts)). x < length (UserMap (appendAll NewDataset ts))) \<and>
   (\<forall>x\<in>set (Items (appendAll NewDataset ts)). x < length (ItemMap (appendAll NewDataset ts)))"
proof -
  let ?us = "map fst ts" and ?is = "map (\<lambda>t. fst (snd t)) ts"
  have e: "goodMap []" by (rule goodMap_empty)
  have U: "Users (appendAll NewDataset ts) = fst (encodeSeq [] ?us)"
    and I: "Items (appendAll NewDataset ts) = fst (encodeSeq [] ?is)"
    and R: "Ratings (appendAll NewDataset ts) = map (\<lambda>t. snd (snd t)) ts"
    and UM: "UserMap (appendAll NewDataset ts) = snd (encodeSeq [] ?us)"
    and IM: "ItemMap (appendAll NewDataset ts) = snd (encodeSeq [] ?is)"
    unfolding appendAll_encode by (simp_all add: NewDataset_def)
  show ?thesis
    unfolding U I R UM IM
    using encodeSeq_lookup[OF e, of _ ?us] encodeSeq_lookup[OF e, of _ ?is]
      encodeSeq_fresh[OF e, of _ ?us] encodeSeq_fresh[OF e, of _ ?is]
      encodeSeq_bound[OF e, of _ ?us] encodeSeq_bound[OF e, of _ ?is]
    by (simp add: encodeSeq_length)
qed

theorem Append_sequence_witness:
  "(1::nat) < length [(''ann'', ''x'', 4::real), (''bob'', ''x'', 2), (''ann'', ''y'', 5)] \<and>
   ''bob'' \<notin> set (take 1 [''ann'', ''bob'', ''ann'']) \<and>
   Users (appendAll NewDataset [(''ann'', ''x'', 4), (''bob'', ''x'', 2), (''ann'', ''y'', 5)]) ! 1
     = card (set (take 1 [''ann'', ''bob'', ''ann''])) \<and>
   map_of (UserMap (appendAll NewDataset [(''ann'', ''x'', 4), (''bob'', ''x'', 2), (''ann'', ''y'', 5)]))
     ''ann'' = Some 0 \<and>
   length (Items (appendAll NewDataset [(''ann'', ''x'', 4), (''bob'', ''x'', 2), (''ann'', ''y'', 5)])) = 3"
  using Append_sequence [of "[(''ann'', ''x'', 4), (''bob'', ''x'', 2), (''ann'', ''y'', 5)]"]
  unfolding Append_example
  by simp

section \<open>RMSE: result and failure\<close>

lemma foldl_sum_index:
  "foldl (\<lambda>s i. s + f i) a [0..<n] = a + (\<Sum>k<n. f k)" for a :: real
  by (induction n arbitrary: a) (simp_all add: algebra_simps)

lemma RMSE_equal:
  "length pred = length actual \<Longrightarrow>
   RMSE pred actual =
     Inr (sqrt ((1 / real (length pred)) * (\<Sum>k<length pred. (pred ! k - actual ! k) ^ 2)))"
  by (simp add: RMSE_def Let_def foldl_sum_index)

text \<open>
  C4, as stated, fails: on slices of lengths 2 and 3 the call does not return an error
  value; it ends in \<open>log.Fatalf\<close>, which exits the process.
\<close>

theorem RMSE_mismatch_counterexample:
  "RMSE [1, 2] [1, 2, 3] = Inl (Fatal ''pred and actual slices must be the same length'') \<and>
   (\<forall>msg. RMSE [1, 2] [1, 2, 3] \<noteq> Inl (ErrorValue msg))"
  by (simp add: RMSE_def)

text \<open>
  C4, amended. When the lengths are equal, \<open>RMSE\<close> returns
  \<open>sqrt ((1/n) \<cdot> \<Sum>k<n. (pred k - actual k)\<^sup>2)\<close>; when they differ, it returns nothing:
  it logs the message and exits the process (\<open>log.Fatalf\<close>). For two empty slices both sides
  are the same quotient by zero, which Go evaluates to NaN and this model to 0.
\<close>

theorem RMSE_result:
  "(length pred = length actual \<longrightarrow>
      RMSE pred actual =
        Inr (sqrt ((1 / real (length pred)) * (\<Sum>k<length pred. (pred ! k - actual ! k) ^ 2)))) \<and>
   (length pred \<noteq> length actual \<longrightarrow>
      RMSE pred actual = Inl (Fatal ''pred and actual slices must be the same length''))"
  by (simp add: RMSE_def Let_def foldl_sum_index)

theorem RMSE_result_witness:
  "length [0::real] = length [3::real] \<and> RMSE [0] [3] = Inr 3 \<and>
   length [1::real, 2] \<noteq> length [1::real, 2, 3] \<and>
   RMSE [1, 2] [1, 2, 3] = Inl (Fatal ''pred and actual slices must be the same length'')"
  using RMSE_result [of "[0]" "[3]"] RMSE_result [of "[1, 2]" "[1, 2, 3]"]
  by simp

section \<open>Rounding to the nearest \<open>float64\<close>\<close>

lemma roundEven_of_int [simp]: "roundEven (of_int m) = m"
  by (simp add: roundEven_def)

lemma roundEven_le: "y \<le> of_int k \<Longrightarrow> roundEven y \<le> k"
proof -
  assume y: "y \<le> of_int k"
  then have f: "\<lfloor>y\<rfloor> \<le> k" by (simp add: floor_le_iff)
  show ?thesis
  proof (cases "\<lfloor>y\<rfloor> = k")
    case True
    then have "of_int k \<le> y" by (metis of_int_floor_le)
    with y have "y = of_int k" by simp
    then show ?thesis by simp
  next
    case False
    with f have "\<lfloor>y\<rfloor> + 1 \<le> k" by simp
    then show ?thesis by (auto simp: roundEven_def Let_def)
  qed
qed

lemma roundEven_ge: "of_int k \<le> y \<Longrightarrow> k \<le> roundEven y"
proof -
  assume "of_int k \<le> y"
  then have "k \<le> \<lfloor>y\<rfloor>" by (simp add: le_floor_iff)
  then show ?thesis by (auto simp: roundEven_def Let_def)
qed

lemma f64_0 [simp]: "f64 0 = 0"
  by (simp add: f64_def)

lemma f64_nonneg: "0 \<le> x \<Longrightarrow> 0 \<le> f64 x"
proof -
  assume x: "0 \<le> x"
  have "0 \<le> roundEven (x / 2 powr (of_int \<lfloor>log 2 \<bar>x\<bar>\<rfloor> - 52))"
    by (rule roundEven_ge) (use x in simp)
  then show ?thesis by (simp add: f64_def Let_def)
qed

lemma f64_le_nat:
  assumes "x \<le> real n" "n < 2 ^ 53"
  shows "f64 x \<le> real n"
proof (cases "0 < x")
  case False
  then have "x \<le> 0" by simp
  show ?thesis
  proof (cases "x = 0")
    case True
    then show ?thesis by simp
  next
    case False
    with \<open>x \<le> 0\<close> have x: "x < 0" by simp
    have "roundEven (x / 2 powr (of_int \<lfloor>log 2 \<bar>x\<bar>\<rfloor> - 52)) \<le> 0"
      by (rule roundEven_le) (use x in \<open>simp add: divide_nonpos_pos\<close>)
    then have "f64 x \<le> 0" using False
      by (simp add: f64_def Let_def mult_nonneg_nonpos)
    then show ?thesis by linarith
  qed
next
  case True
  define e where "e = \<lfloor>log 2 \<bar>x\<bar>\<rfloor>"
  have "real n < 2 ^ 53" using assms(2) by simp
  with assms(1) have "x < 2 ^ 53" by simp
  then have "log 2 x < 53" using True by (simp add: log_less_iff powr_realpow)
  then have e: "e \<le> 52" using True by (simp add: e_def floor_le_iff)
  define K where "K = nat (52 - e)"
  have u: "(2::real) powr (of_int e - 52) = 1 / 2 ^ K"
  proof -
    have "of_int e - 52 = - real K" using e by (simp add: K_def)
    then show ?thesis by (simp add: powr_minus powr_realpow divide_simps)
  qed
  have "x / (1 / 2 ^ K) \<le> of_int (int n * 2 ^ K)" using assms(1) by simp
  then have "roundEven (x / (1 / 2 ^ K)) \<le> int n * 2 ^ K" by (rule roundEven_le)
  then have "real_of_int (roundEven (x / (1 / 2 ^ K))) \<le> real_of_int (int n * 2 ^ K)"
    by (simp only: of_int_le_iff)
  then have "real_of_int (roundEven (x / (1 / 2 ^ K))) \<le> real n * 2 ^ K"
    by simp
  then have "1 / 2 ^ K * real_of_int (roundEven (x / (1 / 2 ^ K))) \<le> real n"
    by (simp add: field_simps)
  moreover have "f64 x = 2 powr (of_int e - 52) * of_int (roundEven (x / 2 powr (of_int e - 52)))"
    using True unfolding f64_def Let_def e_def by simp
  ultimately show ?thesis unfolding u by simp
qed

lemma f64_exact:
  assumes m: "m \<noteq> 0" "\<bar>m\<bar> < 2 ^ 53" and x: "x = of_int m * 2 powr of_int j"
  shows "f64 x = x"
proof -
  define a where "a = real_of_int \<bar>m\<bar>"
  have a: "1 \<le> a" "a < 2 ^ 53" using m by (simp_all add: a_def)
  define em where "em = \<lfloor>log 2 a\<rfloor>"
  have "0 \<le> log 2 a" using a(1) by simp
  then have em0: "0 \<le> em" by (simp add: em_def)
  have "log 2 a < 53" using a by (simp add: log_less_iff powr_realpow)
  then have em52: "em \<le> 52" by (simp add: em_def floor_le_iff)
  define K where "K = nat (52 - em)"
  have x0: "x \<noteq> 0" using m(1) x by simp
  have ax: "\<bar>x\<bar> = a * 2 powr of_int j" by (simp add: x a_def abs_mult)
  have "log 2 \<bar>x\<bar> = log 2 a + of_int j"
    unfolding ax using a(1) by (simp add: log_mult)
  then have e: "\<lfloor>log 2 \<bar>x\<bar>\<rfloor> = em + j" by (simp add: em_def)
  have K: "(2::real) powr (52 - of_int em) = 2 ^ K"
  proof -
    have "52 - real_of_int em = real K" using em52 by (simp add: K_def)
    then show ?thesis by (simp add: powr_realpow)
  qed
  have u: "(2::real) powr (of_int (em + j) - 52) = 2 powr of_int j / 2 ^ K"
  proof -
    have "real_of_int (em + j) - 52 = real_of_int j - (52 - real_of_int em)" by simp
    then have "(2::real) powr (of_int (em + j) - 52)
        = 2 powr of_int j / 2 powr (52 - real_of_int em)"
      by (simp only: powr_diff[of 2 "real_of_int j" "52 - real_of_int em"])
    then show ?thesis by (simp only: K)
  qed
  have q: "x / (2 powr of_int j / 2 ^ K) = of_int (m * 2 ^ K)"
    by (simp add: x)
  have "f64 x = 2 powr of_int j / 2 ^ K * of_int (roundEven (x / (2 powr of_int j / 2 ^ K)))"
    using x0 unfolding f64_def Let_def e u by simp
  also have "\<dots> = 2 powr of_int j / 2 ^ K * of_int (m * 2 ^ K)"
    unfolding q roundEven_of_int ..
  also have "\<dots> = x" by (simp add: x)
  finally show ?thesis .
qed

lemma f64_nat: "n < 2 ^ 53 \<Longrightarrow> f64 (real n) = real n"
proof (cases "n = 0")
  case True
  then show ?thesis by simp
next
  case False
  assume "n < 2 ^ 53"
  then have "\<bar>int n\<bar> < 2 ^ 53" by simp
  from f64_exact[of "int n" "real n" 0, OF _ this] False show ?thesis by simp
qed

lemma f64_dyadic:
  assumes "m \<noteq> 0" "\<bar>m\<bar> < 2 ^ 53"
  shows "f64 (real_of_int m / 2 ^ k) = real_of_int m / 2 ^ k"
proof -
  have "real_of_int m / 2 ^ k = of_int m * 2 powr of_int (- int k)"
    by (simp add: powr_minus powr_realpow divide_inverse)
  from f64_exact[OF assms this] show ?thesis .
qed

lemma f64_examples:
  "f64 1 = 1" "f64 3 = 3" "f64 (1 / 2) = 1 / 2" "f64 (3 / 2) = 3 / 2"
  using f64_nat[of 1] f64_nat[of 3] f64_dyadic[of 1 1] f64_dyadic[of 3 1] by simp_all

text \<open>A value with a 53-bit integer part is rounded to that integer part.\<close>

lemma f64_normal:
  assumes "2 ^ 52 \<le> y" "y < 2 ^ 53"
  shows "f64 (y / 2 ^ k) = real_of_int (roundEven y) / 2 ^ k"
proof -
  have y0: "0 < y" using assms(1) by (rule less_le_trans[rotated]) simp
  have "52 \<le> log 2 y" using assms(1) y0 by (simp add: le_log_iff powr_realpow)
  moreover have "log 2 y < 53" using assms(2) y0 by (simp add: log_less_iff powr_realpow)
  ultimately have fl: "\<lfloor>log 2 y\<rfloor> = 52" by (simp add: floor_eq_iff)
  have x0: "y / 2 ^ k \<noteq> 0" using y0 by simp
  have "log 2 \<bar>y / 2 ^ k\<bar> = log 2 y - of_int (int k)"
    using y0 by (simp add: log_divide log_nat_power)
  then have "\<lfloor>log 2 \<bar>y / 2 ^ k\<bar>\<rfloor> = \<lfloor>log 2 y\<rfloor> - int k"
    by (simp only: floor_diff_of_int)
  then have e: "\<lfloor>log 2 \<bar>y / 2 ^ k\<bar>\<rfloor> = 52 - int k" by (simp only: fl)
  have u: "(2::real) powr (of_int (52 - int k) - 52) = 1 / 2 ^ k"
    by (simp add: powr_minus powr_realpow divide_simps)
  have "f64 (y / 2 ^ k) = 1 / 2 ^ k * of_int (roundEven (y / 2 ^ k / (1 / 2 ^ k)))"
    using x0 unfolding f64_def Let_def e u by simp
  then show ?thesis by simp
qed

lemma forEach_appendPermuted:
  "\<forall>j\<in>set xs. j < length p \<and> p ! j < length u \<Longrightarrow> length i = length u \<Longrightarrow>
   length r = length u \<Longrightarrow>
   forEach xs d (appendPermuted u i r p) =
     Inr (appendAll d (map (\<lambda>j. observation u i r (p ! j)) xs))"
proof (induction xs arbitrary: d)
  case Nil
  then show ?case by (simp add: appendAll_def)
next
  case (Cons x xs)
  then show ?case
    by (simp add: appendPermuted_def appendAll_def observation_def)
qed

lemma perm_range:
  assumes "mset p = mset [0..<n]"
  shows "length p = n" "\<forall>j\<in>set p. j < n" "\<forall>j\<in>set p. p ! j < n"
    "mset (map ((!) p) p) = mset [0..<n]"
proof -
  show l: "length p = n" using assms by (metis length_upt minus_nat.diff_0 size_mset)
  have s: "set p = {0..<n}" using assms by (metis set_mset_mset set_upt)
  then show b: "\<forall>j\<in>set p. j < n" by simp
  show "\<forall>j\<in>set p. p ! j < n"
  proof
    fix j assume "j \<in> set p"
    with b l have "j < length p" by simp
    then have "p ! j \<in> set p" by simp
    with b show "p ! j < n" by simp
  qed
  have "mset (map ((!) p) p) = image_mset ((!) p) (mset p)" by simp
  also have "\<dots> = image_mset ((!) p) (mset [0..<n])" by (simp add: assms)
  also have "\<dots> = mset (map ((!) p) [0..<length p])" by (simp add: l)
  also have "\<dots> = mset p" by (simp add: map_nth)
  finally show "mset (map ((!) p) p) = mset [0..<n]" by (simp add: assms)
qed

lemma math_Round_bounds:
  assumes "0 \<le> x" "x \<le> real n"
  shows "0 \<le> math_Round x" "math_Round x \<le> int n"
proof -
  show "0 \<le> math_Round x" using assms(1) by (simp add: math_Round_def)
  have "x + 1 / 2 < real n + 1" using assms(2) by simp
  then have "\<lfloor>x + 1 / 2\<rfloor> < int n + 1" by (subst floor_less_iff) simp
  with assms(1) show "math_Round x \<le> int n" by (simp add: math_Round_def)
qed

lemma trainNum_bounds:
  assumes "0 \<le> s" "s \<le> 1" "n < 2 ^ 53"
  shows "0 \<le> math_Round (f64 (f64 (real n) * f64 (1 - s)))"
    "math_Round (f64 (f64 (real n) * f64 (1 - s))) \<le> int n"
proof -
  have y0: "0 \<le> f64 (1 - s)" using assms(2) by (intro f64_nonneg) simp
  have "f64 (1 - s) \<le> real (1::nat)" using assms(1) by (intro f64_le_nat) simp_all
  then have y1: "f64 (1 - s) \<le> 1" by simp
  have p0: "0 \<le> real n * f64 (1 - s)" using y0 by simp
  have p1: "real n * f64 (1 - s) \<le> real n" using y0 y1 by (simp add: mult_left_le)
  have x0: "0 \<le> f64 (real n * f64 (1 - s))" by (rule f64_nonneg[OF p0])
  have x1: "f64 (real n * f64 (1 - s)) \<le> real n" by (rule f64_le_nat[OF p1 assms(3)])
  show "0 \<le> math_Round (f64 (f64 (real n) * f64 (1 - s)))"
    "math_Round (f64 (f64 (real n) * f64 (1 - s))) \<le> int n"
    unfolding f64_nat[OF assms(3)] by (rule math_Round_bounds[OF x0 x1])+
qed

lemma appendAll_lengths:
  "length (Users (appendAll NewDataset ts)) = length ts"
  "length (Items (appendAll NewDataset ts)) = length ts"
  "length (Ratings (appendAll NewDataset ts)) = length ts"
  unfolding appendAll_encode by (simp_all add: NewDataset_def encodeSeq_length)

lemma observations_upt:
  "length i = length u \<Longrightarrow> length r = length u \<Longrightarrow>
   map (observation u i r) [0..<length u] = zip u (zip i r)"
  by (rule nth_equalityI) (simp_all add: observation_def)

lemma observations_perm:
  assumes "mset q = mset [0..<length u]" "length i = length u" "length r = length u"
  shows "mset (map (observation u i r) q) = mset (zip u (zip i r))"
proof -
  have "mset (map (observation u i r) q) = image_mset (observation u i r) (mset q)" by simp
  also have "\<dots> = mset (map (observation u i r) [0..<length u])" by (simp add: assms(1))
  finally show ?thesis by (simp add: observations_upt[OF assms(2,3)])
qed

lemma DatasetsFromSlices_ok:
  assumes p: "mset p = mset [0..<length u]"
    and li: "length i = length u" and lr: "length r = length u"
    and s0: "0 \<le> split" and s1: "split \<le> 1" and n: "length u < 2 ^ 53"
  defines "k \<equiv> nat (math_Round (f64 (f64 (real (length u)) * f64 (1 - split))))"
  defines "q \<equiv> map (\<lambda>j. observation u i r (p ! j)) p"
  shows "DatasetsFromSlices u i r split p =
           Inr (appendAll NewDataset (take k q), appendAll NewDataset (drop k q))"
    and "mset q = mset (zip u (zip i r))"
    and "int k = math_Round (f64 (f64 (real (length u)) * f64 (1 - split)))"
    and "k \<le> length u" and "length q = length u"
proof -
  note pr = perm_range[OF p]
  note mb = trainNum_bounds[OF s0 s1 n]
  show ik: "int k = math_Round (f64 (f64 (real (length u)) * f64 (1 - split)))"
    using mb by (simp add: k_def)
  show "k \<le> length u" using mb ik by linarith
  show "length q = length u" by (simp add: q_def pr(1))
  have "q = map (observation u i r) (map ((!) p) p)" by (simp add: q_def)
  then show "mset q = mset (zip u (zip i r))"
    using observations_perm[OF pr(4) li lr] by simp
  have tk: "\<forall>j\<in>set (take k p). j < length p \<and> p ! j < length u"
    using pr by (auto dest: in_set_takeD)
  have dk: "\<forall>j\<in>set (drop k p). j < length p \<and> p ! j < length u"
    using pr by (auto dest: in_set_dropD)
  have "\<not> (math_Round (f64 (f64 (real (length u)) * f64 (1 - split))) < 0 \<or>
           int (length p) < math_Round (f64 (f64 (real (length u)) * f64 (1 - split))))"
    using mb pr(1) by simp
  then show "DatasetsFromSlices u i r split p =
           Inr (appendAll NewDataset (take k q), appendAll NewDataset (drop k q))"
    using li lr s0 s1
    by (simp add: DatasetsFromSlices_def Let_def forEach_appendPermuted[OF tk li lr]
        forEach_appendPermuted[OF dk li lr] k_def[symmetric] q_def take_map drop_map)
qed

text \<open>
  C5, amended. \<open>DatasetsFromSlices\<close> returns an error value when the slices disagree in
  length or the fraction is outside \<open>[0, 1]\<close>. Otherwise, for \<open>p\<close> a permutation of
  \<open>0 ..< n\<close> (and \<open>n\<close> below \<open>2^53\<close>), it returns the Datasets built by appending the
  observations \<open>tr\<close> and \<open>te\<close>, where \<open>tr @ te\<close> is the sequence of observations at the
  indices \<open>p[p[0]], p[p[1]], ...\<close>, a rearrangement of the \<open>n\<close> input observations;
  \<open>|train| + |test| = n\<close>; and \<open>|train|\<close> is \<open>n \<cdot> (1 - fraction)\<close> as \<open>float64\<close> arithmetic
  computes it (the difference and the product each rounded to the nearest \<open>float64\<close>),
  rounded to the nearest integer with halves away from zero. The test Dataset gets the
  remaining \<open>n - |train|\<close> observations, the last of the permuted sequence.
\<close>

theorem DatasetsFromSlices_split:
  "(length i \<noteq> length u \<or> length r \<noteq> length u \<or> split < 0 \<or> 1 < split \<longrightarrow>
      (\<exists>msg. DatasetsFromSlices u i r split p = Inl (ErrorValue msg))) \<and>
   (mset p = mset [0..<length u] \<and> length i = length u \<and> length r = length u \<and>
    0 \<le> split \<and> split \<le> 1 \<and> length u < 2 ^ 53 \<longrightarrow>
      (\<exists>tr te.
         DatasetsFromSlices u i r split p = Inr (appendAll NewDataset tr, appendAll NewDataset te) \<and>
         tr @ te = map (\<lambda>j. observation u i r (p ! j)) p \<and>
         mset (tr @ te) = mset (zip u (zip i r)) \<and>
         length (Ratings (appendAll NewDataset tr)) = length tr \<and>
         length (Ratings (appendAll NewDataset te)) = length te \<and>
         length tr + length te = length u \<and>
         int (length tr) = math_Round (f64 (f64 (real (length u)) * f64 (1 - split))) \<and>
         length te = length u - length tr))"
proof (intro conjI impI)
  assume "length i \<noteq> length u \<or> length r \<noteq> length u \<or> split < 0 \<or> 1 < split"
  then show "\<exists>msg. DatasetsFromSlices u i r split p = Inl (ErrorValue msg)"
    by (auto simp: DatasetsFromSlices_def Let_def)
next
  assume a: "mset p = mset [0..<length u] \<and> length i = length u \<and> length r = length u \<and>
    0 \<le> split \<and> split \<le> 1 \<and> length u < 2 ^ 53"
  define k where "k = nat (math_Round (f64 (f64 (real (length u)) * f64 (1 - split))))"
  define q where "q = map (\<lambda>j. observation u i r (p ! j)) p"
  from a have p: "mset p = mset [0..<length u]" and li: "length i = length u"
    and lr: "length r = length u" and s0: "0 \<le> split" and s1: "split \<le> 1"
    and n: "length u < 2 ^ 53" by simp_all
  note ok = DatasetsFromSlices_ok[OF p li lr s0 s1 n, folded k_def q_def]
  have lt: "length (take k q) = k" using ok(4,5) by simp
  have ld: "length (drop k q) = length u - k" using ok(5) by simp
  have "DatasetsFromSlices u i r split p =
          Inr (appendAll NewDataset (take k q), appendAll NewDataset (drop k q)) \<and>
        take k q @ drop k q = map (\<lambda>j. observation u i r (p ! j)) p \<and>
        mset (take k q @ drop k q) = mset (zip u (zip i r)) \<and>
        length (Ratings (appendAll NewDataset (take k q))) = length (take k q) \<and>
        length (Ratings (appendAll NewDataset (drop k q))) = length (drop k q) \<and>
        length (take k q) + length (drop k q) = length u \<and>
        int (length (take k q)) = math_Round (f64 (f64 (real (length u)) * f64 (1 - split))) \<and>
        length (drop k q) = length u - length (take k q)"
    unfolding lt ld appendAll_lengths append_take_drop_id
    using ok by (simp add: q_def)
  then show "\<exists>tr te.
         DatasetsFromSlices u i r split p = Inr (appendAll NewDataset tr, appendAll NewDataset te) \<and>
         tr @ te = map (\<lambda>j. observation u i r (p ! j)) p \<and>
         mset (tr @ te) = mset (zip u (zip i r)) \<and>
         length (Ratings (appendAll NewDataset tr)) = length tr \<and>
         length (Ratings (appendAll NewDataset te)) = length te \<and>
         length tr + length te = length u \<and>
         int (length tr) = math_Round (f64 (f64 (real (length u)) * f64 (1 - split))) \<and>
         length te = length u - length tr"
    by blast
qed

lemma split_example:
  "DatasetsFromSlices [''a'', ''b'', ''c''] [''x'', ''x'', ''x''] [1, 2, 3] (1 / 2) [0, 1, 2] =
     Inr (\<lparr>Users = [0, 1], Items = [0, 0], Ratings = [1, 2],
           UserMap = [(''a'', 0), (''b'', 1)], ItemMap = [(''x'', 0)]\<rparr>,
          \<lparr>Users = [0], Items = [0], Ratings = [3],
           UserMap = [(''c'', 0)], ItemMap = [(''x'', 0)]\<rparr>)"
  by (simp add: DatasetsFromSlices_def f64_examples math_Round_def appendPermuted_def Append_def
      getInternalIDs_def lookupOrAdd_def NewDataset_def)

text \<open>
  C5, as stated, fails: for three observations and fraction \<open>1/2\<close> (every value is a
  \<open>float64\<close> and no operation rounds) the train Dataset gets \<open>round (3 \<cdot> 1/2) = 2\<close>
  observations and the test Dataset the remaining one, while \<open>round (3 \<cdot> 1/2) = 2\<close> were
  to go to test.
\<close>

theorem DatasetsFromSlices_split_counterexample:
  "DatasetsFromSlices [''a'', ''b'', ''c''] [''x'', ''x'', ''x''] [1, 2, 3] (1 / 2) [0, 1, 2]
     = Inr (\<lparr>Users = [0, 1], Items = [0, 0], Ratings = [1, 2],
             UserMap = [(''a'', 0), (''b'', 1)], ItemMap = [(''x'', 0)]\<rparr>,
            \<lparr>Users = [0], Items = [0], Ratings = [3],
             UserMap = [(''c'', 0)], ItemMap = [(''x'', 0)]\<rparr>) \<and>
   length (Ratings \<lparr>Users = [0], Items = [0], Ratings = [3::real],
             UserMap = [(''c'', 0)], ItemMap = [(''x'', 0)]\<rparr>) = 1 \<and>
   math_Round (real (length [''a'', ''b'', ''c'']) * (1 / 2)) = 2"
  unfolding split_example by (simp add: math_Round_def)

theorem DatasetsFromSlices_split_witness:
  "length [''x'', ''y''] \<noteq> length [''a''] \<and>
   (\<exists>msg. DatasetsFromSlices [''a''] [''x'', ''y''] [3] (1 / 2) [0] = Inl (ErrorValue msg)) \<and>
   mset [0::nat] = mset [0..<length [''a'']] \<and> (0::real) \<le> 1 / 2 \<and> (1 / 2 :: real) \<le> 1 \<and>
   (\<exists>tr te. DatasetsFromSlices [''a''] [''x''] [3] (1 / 2) [0]
        = Inr (appendAll NewDataset tr, appendAll NewDataset te) \<and>
      int (length tr) = 1 \<and> length te = 0)"
proof -
  have r: "math_Round (f64 (f64 (real (length [''a''])) * f64 (1 - 1 / 2))) = 1"
    by (simp add: f64_examples math_Round_def)
  have m: "mset [0::nat] = mset [0..<length [''a'']]" by simp
  from DatasetsFromSlices_split [of "[''x'', ''y'']" "[''a'']" "[3]" "1 / 2" "[0]"]
  have e: "\<exists>msg. DatasetsFromSlices [''a''] [''x'', ''y''] [3] (1 / 2) [0] = Inl (ErrorValue msg)"
    by simp
  have h: "mset [0::nat] = mset [0..<length [''a'']] \<and> length [''x''] = length [''a''] \<and>
    length [3::real] = length [''a''] \<and> (0::real) \<le> 1 / 2 \<and> (1 / 2 :: real) \<le> 1 \<and>
    length [''a''] < 2 ^ 53" by simp
  from DatasetsFromSlices_split [of "[''x'']" "[''a'']" "[3]" "1 / 2" "[0]"] h
  obtain tr te where
    t: "DatasetsFromSlices [''a''] [''x''] [3] (1 / 2) [0]
        = Inr (appendAll NewDataset tr, appendAll NewDataset te)"
    "int (length tr) = math_Round (f64 (f64 (real (length [''a''])) * f64 (1 - 1 / 2)))"
    "length te = length [''a''] - length tr"
    by blast
  from t(2) have "int (length tr) = 1" unfolding r .
  moreover with t(3) have "length te = 0" by simp
  ultimately have "\<exists>tr te. DatasetsFromSlices [''a''] [''x''] [3] (1 / 2) [0]
        = Inr (appendAll NewDataset tr, appendAll NewDataset te) \<and>
      int (length tr) = 1 \<and> length te = 0"
    using t(1) by blast
  with e m show ?thesis by simp
qed

text \<open>Rounding in \<open>float64\<close> decides the sizes: for five observations and the \<open>float64\<close>
  nearest to 0.9, the difference \<open>1. - split\<close> is 900719925474099 / 2^53, a little below
  0.1, the product is a little below 0.5, and every observation goes to test.\<close>

lemma split_float_example:
  "DatasetsFromSlices [''a'', ''b'', ''c'', ''d'', ''e''] [''x'', ''x'', ''x'', ''x'', ''x'']
     [1, 2, 3, 4, 5] (8106479329266893 / 2 ^ 53) [0, 1, 2, 3, 4] =
     Inr (NewDataset,
          \<lparr>Users = [0, 1, 2, 3, 4], Items = [0, 0, 0, 0, 0], Ratings = [1, 2, 3, 4, 5],
           UserMap = [(''a'', 0), (''b'', 1), (''c'', 2), (''d'', 3), (''e'', 4)],
           ItemMap = [(''x'', 0)]\<rparr>)"
proof -
  have d: "1 - 8106479329266893 / 2 ^ 53 = (real_of_int 900719925474099 / 2 ^ 53 :: real)"
    by simp
  have a: "f64 (real_of_int 900719925474099 / 2 ^ 53) = real_of_int 900719925474099 / 2 ^ 53"
    by (rule f64_dyadic) simp_all
  have n5: "f64 (real (length [''a'', ''b'', ''c'', ''d'', ''e''])) = 5"
    using f64_nat[of 5] by simp
  have e: "(5::real) * (real_of_int 900719925474099 / 2 ^ 53)
      = real_of_int 4503599627370495 / 2 ^ 53"
    by simp
  have b: "f64 (real_of_int 4503599627370495 / 2 ^ 53) = real_of_int 4503599627370495 / 2 ^ 53"
    by (rule f64_dyadic) simp_all
  have c: "math_Round (real_of_int 4503599627370495 / 2 ^ 53) = 0"
    by (simp add: math_Round_def)
  have t: "math_Round (f64 (f64 (real (length [''a'', ''b'', ''c'', ''d'', ''e'']))
      * f64 (1 - 8106479329266893 / 2 ^ 53))) = 0"
    by (simp only: d a n5 e b c)
  show ?thesis
    unfolding DatasetsFromSlices_def Let_def t
    by (simp add: appendPermuted_def Append_def getInternalIDs_def lookupOrAdd_def NewDataset_def)
qed

text \<open>And for the \<open>float64\<close> nearest to 0.1 the difference is rounded up to the \<open>float64\<close>
  nearest to 0.9, the product \<open>5 \<cdot> 0.9\<close> is rounded to 4.5 exactly, and every observation
  goes to train.\<close>

lemma split_float_example_up:
  "DatasetsFromSlices [''a'', ''b'', ''c'', ''d'', ''e''] [''x'', ''x'', ''x'', ''x'', ''x'']
     [1, 2, 3, 4, 5] (3602879701896397 / 2 ^ 55) [0, 1, 2, 3, 4] =
     Inr (\<lparr>Users = [0, 1, 2, 3, 4], Items = [0, 0, 0, 0, 0], Ratings = [1, 2, 3, 4, 5],
           UserMap = [(''a'', 0), (''b'', 1), (''c'', 2), (''d'', 3), (''e'', 4)],
           ItemMap = [(''x'', 0)]\<rparr>,
          NewDataset)"
proof -
  have d: "1 - 3602879701896397 / 2 ^ 55 = (32425917317067571 / 4 / 2 ^ 53 :: real)"
    by simp
  have r1: "roundEven (32425917317067571 / 4) = 8106479329266893"
    by (simp add: roundEven_def Let_def)
  have a: "f64 (32425917317067571 / 4 / 2 ^ 53) = real_of_int 8106479329266893 / 2 ^ 53"
    unfolding r1[symmetric] by (rule f64_normal) simp_all
  have n5: "f64 (real (length [''a'', ''b'', ''c'', ''d'', ''e''])) = 5"
    using f64_nat[of 5] by simp
  have e: "(5::real) * (real_of_int 8106479329266893 / 2 ^ 53)
      = 40532396646334465 / 8 / 2 ^ 50"
    by simp
  have r2: "roundEven (40532396646334465 / 8) = 5066549580791808"
    by (simp add: roundEven_def Let_def)
  have b: "f64 (40532396646334465 / 8 / 2 ^ 50) = real_of_int 5066549580791808 / 2 ^ 50"
    unfolding r2[symmetric] by (rule f64_normal) simp_all
  have c: "math_Round (real_of_int 5066549580791808 / 2 ^ 50) = 5"
    by (simp add: math_Round_def)
  have t: "math_Round (f64 (f64 (real (length [''a'', ''b'', ''c'', ''d'', ''e'']))
      * f64 (1 - 3602879701896397 / 2 ^ 55))) = 5"
    by (simp only: d a n5 e b c)
  show ?thesis
    unfolding DatasetsFromSlices_def Let_def t
    by (simp add: appendPermuted_def Append_def getInternalIDs_def lookupOrAdd_def NewDataset_def)
qed

text \<open>With fraction 1 every observation goes to test and the train Dataset is the empty
  one.\<close>

lemma split_all_test:
  assumes "mset p = mset [0..<length u]" "length i = length u" "length r = length u"
  shows "DatasetsFromSlices u i r 1 p
    = Inr (NewDataset, appendAll NewDataset (map (\<lambda>j. observation u i r (p ! j)) p))"
proof -
  note pr = perm_range[OF assms(1)]
  have t: "math_Round (f64 (f64 (real (length u)) * f64 (1 - 1))) = 0"
    by (simp add: math_Round_def)
  have "\<forall>j\<in>set p. j < length p \<and> p ! j < length u" using pr by simp
  from forEach_appendPermuted[OF this assms(2,3), of NewDataset] show ?thesis
    unfolding DatasetsFromSlices_def Let_def t using assms(2,3) by simp
qed

section \<open>SVD: Fit performs the update equations\<close>

lemma cell_bound: "u < r \<Longrightarrow> f < c \<Longrightarrow> u * c + f < r * (c::nat)"
proof -
  assume u: "u < r" and f: "f < c"
  have "u * c + f < u * c + c" using f by simp
  also have "\<dots> = Suc u * c" by simp
  also have "\<dots> \<le> r * c" using u by (intro mult_le_mono1) simp
  finally show ?thesis .
qed

lemma forEach_append:
  "forEach (xs @ ys) s body = bind (forEach xs s body) (\<lambda>s'. forEach ys s' body)"
  by (induction xs arbitrary: s) (auto split: sum.splits)

lemma forEach_single: "forEach [x] s body = body x s"
  by (simp split: sum.splits)

lemma forEach_upt_Suc:
  "forEach [0..<Suc n] s body = bind (forEach [0..<n] s body) (\<lambda>s'. body n s')"
  by (simp add: forEach_append forEach_single del: forEach.simps)

lemma At_ok: "i < rows m \<Longrightarrow> j < cols m \<Longrightarrow> At m i j = Inr (entry m i j)"
  by (simp add: At_def entry_def)

lemma dotLoop_prefix:
  assumes "u < rows pu" "i < rows qi"
  shows "n \<le> cols pu \<Longrightarrow> n \<le> cols qi \<Longrightarrow>
    forEach [0..<n] 0 (\<lambda>f dot. bind (At pu u f) (\<lambda>a. bind (At qi i f) (\<lambda>b. Inr (dot + a * b))))
      = Inr (\<Sum>f<n. entry pu u f * entry qi i f)"
proof (induction n)
  case 0
  then show ?case by simp
next
  case (Suc n)
  then show ?case using assms
    by (simp add: forEach_upt_Suc At_ok del: upt_Suc)
qed

lemma updRowN_0: "updRowN M u 0 g = M"
proof -
  have "(\<lambda>k. if u * cols M \<le> k \<and> k < u * cols M + 0 then g (k - u * cols M) else mdata M ! k)
      = (\<lambda>k. mdata M ! k)" by (rule ext) simp
  then show ?thesis unfolding updRowN_def by (simp add: map_nth)
qed

lemma updRowN_full: "updRowN M u (cols M) g = updRow M u g"
  by (simp add: updRowN_def updRow_def)

lemma updRowN_dims [simp]:
  "rows (updRowN M u n g) = rows M" "cols (updRowN M u n g) = cols M"
  "length (mdata (updRowN M u n g)) = length (mdata M)"
  by (simp_all add: updRowN_def)

lemma updRow_dims [simp]:
  "rows (updRow M u g) = rows M" "cols (updRow M u g) = cols M"
  "length (mdata (updRow M u g)) = length (mdata M)"
  by (simp_all add: updRow_def)

lemma At_updRowN:
  assumes "u < rows M" "n < cols M" "length (mdata M) = rows M * cols M"
  shows "At (updRowN M u n g) u n = Inr (entry M u n)"
proof -
  have "u * cols M + n < length (mdata M)" using assms by (simp add: cell_bound)
  then show ?thesis using assms by (simp add: At_def entry_def updRowN_def)
qed

lemma Set_updRowN:
  assumes "u < rows M" "n < cols M" "length (mdata M) = rows M * cols M"
  shows "Set (updRowN M u n g) u n (g n) = Inr (updRowN M u (Suc n) g)"
proof -
  have b: "u * cols M + n < length (mdata M)" using assms by (simp add: cell_bound)
  have "(mdata (updRowN M u n g))[u * cols M + n := g n] = mdata (updRowN M u (Suc n) g)"
  proof (rule nth_equalityI)
    show "length ((mdata (updRowN M u n g))[u * cols M + n := g n])
        = length (mdata (updRowN M u (Suc n) g))" by simp
  next
    fix k assume "k < length ((mdata (updRowN M u n g))[u * cols M + n := g n])"
    then have k: "k < length (mdata M)" by simp
    show "(mdata (updRowN M u n g))[u * cols M + n := g n] ! k
        = mdata (updRowN M u (Suc n) g) ! k"
    proof (cases "k = u * cols M + n")
      case True
      with k show ?thesis by (simp add: updRowN_def)
    next
      case False
      with k show ?thesis by (auto simp: updRowN_def)
    qed
  qed
  then have "(updRowN M u n g)\<lparr>mdata := (mdata (updRowN M u n g))[u * cols M + n := g n]\<rparr>
      = updRowN M u (Suc n) g"
    by (simp add: updRowN_def)
  then show ?thesis using assms by (simp add: Set_def)
qed

lemma factorLoop_prefix:
  assumes "u < rows pu" "i < rows qi"
    "length (mdata pu) = rows pu * cols pu" "length (mdata qi) = rows qi * cols qi"
  shows "n \<le> cols pu \<Longrightarrow> n \<le> cols qi \<Longrightarrow>
    forEach [0..<n] (pu, qi) (\<lambda>f (pu, qi).
       bind (At pu u f) (\<lambda>puf.
       bind (At qi i f) (\<lambda>qif.
       bind (Set pu u f (puf + lr * (err * qif - reg * puf))) (\<lambda>pu'.
       bind (Set qi i f (qif + lr * (err * puf - reg * qif))) (\<lambda>qi'.
       Inr (pu', qi'))))))
     = Inr (updRowN pu u n
              (\<lambda>f. entry pu u f + lr * (err * entry qi i f - reg * entry pu u f)),
            updRowN qi i n
              (\<lambda>f. entry qi i f + lr * (err * entry pu u f - reg * entry qi i f)))"
proof (induction n)
  case 0
  then show ?case by (simp add: updRowN_0)
next
  case (Suc n)
  then have n: "n < cols pu" "n < cols qi" by simp_all
  have IH: "forEach [0..<n] (pu, qi) (\<lambda>f (pu, qi).
       bind (At pu u f) (\<lambda>puf.
       bind (At qi i f) (\<lambda>qif.
       bind (Set pu u f (puf + lr * (err * qif - reg * puf))) (\<lambda>pu'.
       bind (Set qi i f (qif + lr * (err * puf - reg * qif))) (\<lambda>qi'.
       Inr (pu', qi'))))))
     = Inr (updRowN pu u n
              (\<lambda>f. entry pu u f + lr * (err * entry qi i f - reg * entry pu u f)),
            updRowN qi i n
              (\<lambda>f. entry qi i f + lr * (err * entry pu u f - reg * entry qi i f)))"
    using Suc by simp
  let ?P = "\<lambda>f. entry pu u f + lr * (err * entry qi i f - reg * entry pu u f)"
  let ?Q = "\<lambda>f. entry qi i f + lr * (err * entry pu u f - reg * entry qi i f)"
  note sp = Set_updRowN[OF assms(1) n(1) assms(3), of ?P]
  note sq = Set_updRowN[OF assms(2) n(2) assms(4), of ?Q]
  show ?case
    unfolding forEach_upt_Suc IH
    using sp sq
    by (simp add: At_updRowN[OF assms(1) n(1) assms(3)] At_updRowN[OF assms(2) n(2) assms(4)])
qed

lemma dotLoop_ok:
  assumes "u < rows pu" "i < rows qi" "cols pu = nat nf" "cols qi = nat nf"
  shows "dotLoop pu qi u i nf = Inr (\<Sum>f<nat nf. entry pu u f * entry qi i f)"
  unfolding dotLoop_def using dotLoop_prefix[OF assms(1,2), of "nat nf"] assms(3,4) by simp

lemma factorLoop_ok:
  assumes "u < rows pu" "i < rows qi" "cols pu = nat nf" "cols qi = nat nf"
    "length (mdata pu) = rows pu * cols pu" "length (mdata qi) = rows qi * cols qi"
  shows "factorLoop lr reg err u i nf (pu, qi)
     = Inr (updRow pu u (\<lambda>f. entry pu u f + lr * (err * entry qi i f - reg * entry pu u f)),
            updRow qi i (\<lambda>f. entry qi i f + lr * (err * entry pu u f - reg * entry qi i f)))"
proof -
  have "factorLoop lr reg err u i nf (pu, qi)
     = Inr (updRowN pu u (nat nf)
              (\<lambda>f. entry pu u f + lr * (err * entry qi i f - reg * entry pu u f)),
            updRowN qi i (nat nf)
              (\<lambda>f. entry qi i f + lr * (err * entry pu u f - reg * entry qi i f)))"
    unfolding factorLoop_def
    using factorLoop_prefix[OF assms(1,2,5,6), of "nat nf"] assms(3,4) by simp
  then show ?thesis using updRowN_full[of pu] updRowN_full[of qi] assms(3,4) by simp
qed

lemma spec_step_frame [simp]:
  "Dataset (spec_step m obs) = Dataset m" "Config (spec_step m obs) = Config m"
  "GlobalMean (spec_step m obs) = GlobalMean m"
  by (simp_all add: spec_step_def Let_def split: prod.splits)

lemma spec_step_wf: "wfSVD m \<Longrightarrow> wfSVD (spec_step m obs)"
  by (cases obs) (simp add: wfSVD_def spec_step_def Let_def)

lemma wfSVD_obs:
  assumes "wfSVD m" "idx < length (Ratings (Dataset m))"
  shows "idx < length (Users (Dataset m))" "idx < length (Items (Dataset m))"
    "Users (Dataset m) ! idx < rows (PU m)" "Users (Dataset m) ! idx < length (BU m)"
    "Items (Dataset m) ! idx < rows (QI m)" "Items (Dataset m) ! idx < length (BI m)"
    "observations (Dataset m) ! idx
       = (Users (Dataset m) ! idx, Items (Dataset m) ! idx, Ratings (Dataset m) ! idx)"
  using assms by (simp_all add: wfSVD_def list_all_length observations_def)

lemma sgdUpdate_step:
  assumes wf: "wfSVD m" and idx: "idx < length (Ratings (Dataset m))"
  shows "sgdUpdate (Dataset m) (GlobalMean m) (LR (Config m)) (Reg (Config m))
           (NumFactors (Config m)) idx (stateOf m)
         = Inr (stateOf (spec_step m (observations (Dataset m) ! idx)))"
proof -
  note o = wfSVD_obs[OF wf idx]
  from wf have c: "cols (PU m) = nat (NumFactors (Config m))"
    "cols (QI m) = nat (NumFactors (Config m))"
    "length (mdata (PU m)) = rows (PU m) * cols (PU m)"
    "length (mdata (QI m)) = rows (QI m) * cols (QI m)"
    by (simp_all add: wfSVD_def)
  show ?thesis
    unfolding sgdUpdate_def stateOf_def o(7)
    by (simp add: o idx dotLoop_ok[OF o(3) o(5) c(1,2)]
        factorLoop_ok[OF o(3) o(5) c] spec_step_def spec_err_def Let_def)
qed

lemma epoch_loop:
  assumes "wfSVD m" "\<forall>idx\<in>set idxs. idx < length (Ratings (Dataset m))"
    "d = Dataset m" "gm = GlobalMean m" "lr = LR (Config m)" "reg = Reg (Config m)"
    "nf = NumFactors (Config m)"
  shows "forEach idxs (stateOf m) (\<lambda>idx st. sgdUpdate d gm lr reg nf idx st)
       = Inr (stateOf (foldl spec_step m (map (\<lambda>idx. observations d ! idx) idxs)))"
  using assms
proof (induction idxs arbitrary: m)
  case Nil
  then show ?case by simp
next
  case (Cons x xs)
  let ?m' = "spec_step m (observations (Dataset m) ! x)"
  have s: "sgdUpdate d gm lr reg nf x (stateOf m) = Inr (stateOf ?m')"
    using sgdUpdate_step[of m x] Cons.prems by simp
  have "forEach xs (stateOf ?m') (\<lambda>idx st. sgdUpdate d gm lr reg nf idx st)
       = Inr (stateOf (foldl spec_step ?m' (map (\<lambda>idx. observations d ! idx) xs)))"
    using Cons.prems by (intro Cons.IH) (simp_all add: spec_step_wf)
  with s Cons.prems(3) show ?case by simp
qed

lemma observations_length:
  "wfSVD m \<Longrightarrow> length (observations (Dataset m)) = length (Ratings (Dataset m))"
  by (simp add: wfSVD_def observations_def)

lemma epoch_ok:
  assumes "wfSVD m"
  shows "forEach [0..<length (Ratings (Dataset m))] (stateOf m)
           (\<lambda>idx st. sgdUpdate (Dataset m) (GlobalMean m) (LR (Config m)) (Reg (Config m))
              (NumFactors (Config m)) idx st)
       = Inr (stateOf (spec_epoch m))"
proof -
  have "map (\<lambda>idx. observations (Dataset m) ! idx) [0..<length (Ratings (Dataset m))]
      = observations (Dataset m)"
    using observations_length[OF assms] by (metis map_nth)
  then show ?thesis
    using epoch_loop[OF assms, of "[0..<length (Ratings (Dataset m))]"]
    by (simp add: spec_epoch_def)
qed

lemma foldl_spec_step_frame:
  "Dataset (foldl spec_step m os) = Dataset m \<and> Config (foldl spec_step m os) = Config m \<and>
   GlobalMean (foldl spec_step m os) = GlobalMean m \<and> (wfSVD m \<longrightarrow> wfSVD (foldl spec_step m os))"
  by (induction os arbitrary: m) (simp_all add: spec_step_wf)

lemma spec_epoch_frame [simp]:
  "Dataset (spec_epoch m) = Dataset m" "Config (spec_epoch m) = Config m"
  "GlobalMean (spec_epoch m) = GlobalMean m"
  by (simp_all add: spec_epoch_def foldl_spec_step_frame)

lemma spec_epoch_wf: "wfSVD m \<Longrightarrow> wfSVD (spec_epoch m)"
  by (simp add: spec_epoch_def foldl_spec_step_frame)

lemma spec_fit_frame:
  "Dataset (spec_fit m n) = Dataset m \<and> Config (spec_fit m n) = Config m \<and>
   GlobalMean (spec_fit m n) = GlobalMean m \<and> (wfSVD m \<longrightarrow> wfSVD (spec_fit m n))"
  by (induction n) (simp_all add: spec_fit_def spec_epoch_wf)

lemma epochs_ok:
  assumes "wfSVD m"
  shows "forEach [0..<k] (stateOf m) (\<lambda>epoch st.
           forEach [0..<length (Ratings (Dataset m))] st
             (\<lambda>idx st. sgdUpdate (Dataset m) (GlobalMean m) (LR (Config m)) (Reg (Config m))
                (NumFactors (Config m)) idx st))
       = Inr (stateOf (spec_fit m k))"
proof (induction k)
  case 0
  then show ?case by (simp add: spec_fit_def)
next
  case (Suc k)
  have w: "wfSVD (spec_fit m k)" using assms spec_fit_frame by blast
  have f: "Dataset (spec_fit m k) = Dataset m" "Config (spec_fit m k) = Config m"
    "GlobalMean (spec_fit m k) = GlobalMean m" using spec_fit_frame by blast+
  have "spec_fit m (Suc k) = spec_epoch (spec_fit m k)" by (simp add: spec_fit_def)
  then show ?case
    unfolding forEach_upt_Suc Suc.IH
    using epoch_ok[OF w] by (simp add: f)
qed

lemma SVD_Fit_refines:
  assumes "wfSVD m"
  shows "SVD_Fit m n = Inr (spec_fit m (nat n))"
proof -
  let ?m' = "spec_fit m (nat n)"
  have f: "Dataset ?m' = Dataset m" "Config ?m' = Config m"
    "GlobalMean ?m' = GlobalMean m" using spec_fit_frame by blast+
  have "m\<lparr>PU := PU ?m', QI := QI ?m', BU := BU ?m', BI := BI ?m'\<rparr> = ?m'"
    using f by (intro SVD.equality) simp_all
  then show ?thesis
    unfolding SVD_Fit_def Let_def
    using epochs_ok[OF assms, of "nat n", unfolded stateOf_def]
    by (simp add: stateOf_def)
qed

lemma exampleSVD_wf: "wfSVD (exampleSVD nf)"
  by (simp add: wfSVD_def exampleSVD_def)

lemma exampleSVD_entry:
  "f < nf \<Longrightarrow> entry (PU (exampleSVD nf)) 0 f = 0" "f < nf \<Longrightarrow> entry (QI (exampleSVD nf)) 0 f = 0"
  by (simp_all add: entry_def exampleSVD_def)

lemma exampleSVD_err: "spec_err (exampleSVD nf) 0 0 5 = 2"
proof -
  have "(\<Sum>f<nf. entry (PU (exampleSVD nf)) 0 f * entry (QI (exampleSVD nf)) 0 f) = 0"
    by (rule sum.neutral) (simp add: exampleSVD_entry)
  moreover have "nat (NumFactors (Config (exampleSVD nf))) = nf" by (simp add: exampleSVD_def)
  ultimately show ?thesis unfolding spec_err_def by (simp add: exampleSVD_def)
qed

lemma updRow_zero:
  assumes "rows M = 1" "cols M = nf" "mdata M = replicate nf 0" "\<And>f. f < nf \<Longrightarrow> g f = 0"
  shows "updRow M 0 g = M"
proof -
  have "map (\<lambda>k. if 0 * cols M \<le> k \<and> k < 0 * cols M + cols M then g (k - 0 * cols M)
                  else mdata M ! k) [0..<length (mdata M)] = mdata M"
    using assms by (intro nth_equalityI) simp_all
  then show ?thesis by (simp add: updRow_def)
qed

lemma exampleSVD_step:
  "spec_step (exampleSVD nf) (0, 0, 5) = (exampleSVD nf)\<lparr>BU := [1 / 100], BI := [1 / 100]\<rparr>"
proof -
  let ?m = "exampleSVD nf"
  have p: "updRow (PU ?m) 0 (\<lambda>f. entry (PU ?m) 0 f
        + LR (Config ?m) * (2 * entry (QI ?m) 0 f - Reg (Config ?m) * entry (PU ?m) 0 f)) = PU ?m"
    by (rule updRow_zero[where nf = nf]) (simp_all add: exampleSVD_entry, simp_all add: exampleSVD_def)
  have q: "updRow (QI ?m) 0 (\<lambda>f. entry (QI ?m) 0 f
        + LR (Config ?m) * (2 * entry (PU ?m) 0 f - Reg (Config ?m) * entry (QI ?m) 0 f)) = QI ?m"
    by (rule updRow_zero[where nf = nf]) (simp_all add: exampleSVD_entry, simp_all add: exampleSVD_def)
  show ?thesis
    unfolding spec_step_def prod.case Let_def exampleSVD_err p q
    by (simp add: exampleSVD_def)
qed

lemma exampleSVD_fit:
  "SVD_Fit (exampleSVD nf) 1 = Inr ((exampleSVD nf)\<lparr>BU := [1 / 100], BI := [1 / 100]\<rparr>)"
proof -
  have "observations (Dataset (exampleSVD nf)) = [(0, 0, 5)]"
    by (simp add: observations_def exampleSVD_def)
  then have "spec_fit (exampleSVD nf) (nat 1) = spec_step (exampleSVD nf) (0, 0, 5)"
    by (simp add: spec_fit_def spec_epoch_def)
  then show ?thesis
    using SVD_Fit_refines[OF exampleSVD_wf, of nf 1] by (simp add: exampleSVD_step)
qed

text \<open>
  C1. For a model whose buffers fit its Dataset, \<open>Fit\<close> with epoch count \<open>numEpochs\<close>
  returns, without failure, the model obtained by running \<open>numEpochs\<close> passes (none
  when the count is negative) over the observations in stored order, each observation
  \<open>(u, i, r)\<close> applying \<open>spec_step\<close>: the error is computed from the state before the
  update, both biases move by \<open>lr \<cdot> (err - reg \<cdot> bias)\<close>, and row \<open>u\<close> of \<open>PU\<close> and row
  \<open>i\<close> of \<open>QI\<close> are replaced together from the values before the update. In particular,
  for the single rating \<open>(0, 0, 5)\<close>, global mean 3, zero biases and latent entries,
  \<open>lr = 0.005\<close> and \<open>reg = 0.02\<close>, one epoch leaves \<open>BU = [0.01]\<close>, \<open>BI = [0.01]\<close> and
  every latent entry zero, for any number of factors.
\<close>

theorem SVD_Fit_updates:
  "(wfSVD m \<longrightarrow> SVD_Fit m numEpochs = Inr (spec_fit m (nat numEpochs))) \<and>
   SVD_Fit (exampleSVD nf) 1 = Inr ((exampleSVD nf)\<lparr>BU := [1 / 100], BI := [1 / 100]\<rparr>)"
  using SVD_Fit_refines exampleSVD_fit by blast

lemma SVD_example2:
  "wfSVD \<lparr>Dataset = \<lparr>Users = [0, 1], Items = [0, 0], Ratings = [5, 1],
                 UserMap = [(''a'', 0), (''b'', 1)], ItemMap = [(''x'', 0)]\<rparr>,
      PU = \<lparr>rows = 2, cols = 1, mdata = [1, 2]\<rparr>,
      QI = \<lparr>rows = 1, cols = 1, mdata = [1]\<rparr>,
      BU = [0, 0], BI = [0], GlobalMean = 3,
      Config = \<lparr>NumFactors = 1, InitMean = 0, InitStdDev = 1, LR = 1 / 2,
                Reg = 1, Verbose = False\<rparr>\<rparr>"
  by (simp add: wfSVD_def)

theorem SVD_Fit_updates_witness:
  "wfSVD \<lparr>Dataset = \<lparr>Users = [0, 1], Items = [0, 0], Ratings = [5, 1],
                 UserMap = [(''a'', 0), (''b'', 1)], ItemMap = [(''x'', 0)]\<rparr>,
      PU = \<lparr>rows = 2, cols = 1, mdata = [1, 2]\<rparr>,
      QI = \<lparr>rows = 1, cols = 1, mdata = [1]\<rparr>,
      BU = [0, 0], BI = [0], GlobalMean = 3,
      Config = \<lparr>NumFactors = 1, InitMean = 0, InitStdDev = 1, LR = 1 / 2,
                Reg = 1, Verbose = False\<rparr>\<rparr> \<and>
   SVD_Fit \<lparr>Dataset = \<lparr>Users = [0, 1], Items = [0, 0], Ratings = [5, 1],
                 UserMap = [(''a'', 0), (''b'', 1)], ItemMap = [(''x'', 0)]\<rparr>,
      PU = \<lparr>rows = 2, cols = 1, mdata = [1, 2]\<rparr>,
      QI = \<lparr>rows = 1, cols = 1, mdata = [1]\<rparr>,
      BU = [0, 0], BI = [0], GlobalMean = 3,
      Config = \<lparr>NumFactors = 1, InitMean = 0, InitStdDev = 1, LR = 1 / 2,
                Reg = 1, Verbose = False\<rparr>\<rparr> 1
   = Inr \<lparr>Dataset = \<lparr>Users = [0, 1], Items = [0, 0], Ratings = [5, 1],
                 UserMap = [(''a'', 0), (''b'', 1)], ItemMap = [(''x'', 0)]\<rparr>,
      PU = \<lparr>rows = 2, cols = 1, mdata = [1, - 5 / 4]\<rparr>,
      QI = \<lparr>rows = 1, cols = 1, mdata = [- 4]\<rparr>,
      BU = [1 / 2, - 9 / 4], BI = [- 2], GlobalMean = 3,
      Config = \<lparr>NumFactors = 1, InitMean = 0, InitStdDev = 1, LR = 1 / 2,
                Reg = 1, Verbose = False\<rparr>\<rparr>"
  using SVD_Fit_updates [of "\<lparr>Dataset = \<lparr>Users = [0, 1], Items = [0, 0], Ratings = [5, 1],
                 UserMap = [(''a'', 0), (''b'', 1)], ItemMap = [(''x'', 0)]\<rparr>,
      PU = \<lparr>rows = 2, cols = 1, mdata = [1, 2]\<rparr>,
      QI = \<lparr>rows = 1, cols = 1, mdata = [1]\<rparr>,
      BU = [0, 0], BI = [0], GlobalMean = 3,
      Config = \<lparr>NumFactors = 1, InitMean = 0, InitStdDev = 1, LR = 1 / 2,
                Reg = 1, Verbose = False\<rparr>\<rparr>" 1] SVD_example2
  by (simp add: spec_fit_def spec_epoch_def observations_def spec_step_def spec_err_def
      entry_def updRow_def Let_def)

section \<open>SVD++: the cached user history\<close>

lemma buildIU_prefix:
  assumes "length (Users d) = n" "length (Items d) = n"
  shows "k \<le> n \<Longrightarrow>
    \<exists>iu. forEach [0..<k] Map.empty (\<lambda>idx iu.
          bind (index (Users d) idx) (\<lambda>uid.
          bind (index (Items d) idx) (\<lambda>item.
          Inr (iu(uid \<mapsto> history iu uid @ [item]))))) = Inr iu \<and>
      (\<forall>u. history iu u = map snd (filter (\<lambda>p. fst p = u) (take k (zip (Users d) (Items d)))))"
proof (induction k)
  case 0
  then show ?case by (simp add: history_def)
next
  case (Suc k)
  then have "k \<le> n" by simp
  from Suc.IH[OF this] obtain iu where iu: "forEach [0..<k] Map.empty (\<lambda>idx iu.
          bind (index (Users d) idx) (\<lambda>uid.
          bind (index (Items d) idx) (\<lambda>item.
          Inr (iu(uid \<mapsto> history iu uid @ [item]))))) = Inr iu"
    and h: "\<And>u. history iu u = map snd (filter (\<lambda>p. fst p = u) (take k (zip (Users d) (Items d))))"
    by blast
  from Suc.prems assms have k: "k < length (Users d)" "k < length (Items d)"
    "k < length (zip (Users d) (Items d))" by simp_all
  have t: "take (Suc k) (zip (Users d) (Items d))
      = take k (zip (Users d) (Items d)) @ [(Users d ! k, Items d ! k)]"
    using k by (simp add: take_Suc_conv_app_nth)
  show ?case
    unfolding forEach_upt_Suc iu t
    using k h by (simp add: history_def)
qed

lemma buildIU_ok:
  assumes "length (Users d) = length (Ratings d)" "length (Items d) = length (Ratings d)"
    "Ratings d \<noteq> []"
  shows "\<exists>iu. buildIU d = Inr iu \<and> (\<forall>u. history iu u = userItems d u)"
  using buildIU_prefix[OF assms(1,2), of "length (Ratings d)"] assms
  by (simp add: buildIU_def userItems_def)

lemma NewSVDpp_IU:
  "NewSVDpp d cfg g pos = Inr (m, pos') \<Longrightarrow> buildIU d = Inr (IU m)"
  by (auto simp: NewSVDpp_def Let_def bind_def split: sum.splits prod.splits)

lemma repeated_example:
  "appendAll NewDataset [(''a'', ''x'', 1), (''a'', ''x'', 2)] =
     \<lparr>Users = [0, 0], Items = [0, 0], Ratings = [1, 2],
      UserMap = [(''a'', 0)], ItemMap = [(''x'', 0)]\<rparr>"
  by (simp add: appendAll_def Append_def getInternalIDs_def lookupOrAdd_def NewDataset_def)

lemma repeated_buildIU:
  "buildIU \<lparr>Users = [0, 0], Items = [0, 0], Ratings = [1, 2],
      UserMap = [(''a'', 0)], ItemMap = [(''x'', 0)]\<rparr> = Inr (Map.empty(0 \<mapsto> [0, 0]))"
  by (simp add: buildIU_def history_def index_def bind_def)

lemma repeated_NewSVDpp:
  "NewSVDpp \<lparr>Users = [0, 0], Items = [0, 0], Ratings = [1, 2],
      UserMap = [(''a'', 0)], ItemMap = [(''x'', 0)]\<rparr>
     (Some \<lparr>NumFactors = 1, InitMean = 0, InitStdDev = 0, LR = 0, Reg = 0, Verbose = False\<rparr>)
     (\<lambda>k. 0) 0
   = Inr (\<lparr>Dataset = \<lparr>Users = [0, 0], Items = [0, 0], Ratings = [1, 2],
                  UserMap = [(''a'', 0)], ItemMap = [(''x'', 0)]\<rparr>,
           PU = \<lparr>rows = 1, cols = 1, mdata = [0]\<rparr>,
           QI = \<lparr>rows = 1, cols = 1, mdata = [0]\<rparr>,
           BU = [0], BI = [0], GlobalMean = 3 / 2,
           Config = \<lparr>NumFactors = 1, InitMean = 0, InitStdDev = 1 / 10, LR = 5 / 1000,
                     Reg = 2 / 100, Verbose = False\<rparr>,
           YJ = \<lparr>rows = 1, cols = 1, mdata = [0]\<rparr>,
           IU = Map.empty(0 \<mapsto> [0, 0])\<rparr>, 3)"
  unfolding NewSVDpp_def repeated_buildIU
  by (simp add: withDefaults_def randMat_def NewDense_def mean32_def Let_def)

text \<open>
  C6, as stated, fails: for a Dataset with the observation \<open>(a, x)\<close> twice, the history of
  the user holds the item twice, and \<open>sqrt_count\<close> is \<open>sqrt 2\<close>, not \<open>sqrt 1\<close>.
\<close>

theorem NewSVDpp_history_counterexample:
  "\<exists>m pos'.
     NewSVDpp (appendAll NewDataset [(''a'', ''x'', 1), (''a'', ''x'', 2)])
       (Some \<lparr>NumFactors = 1, InitMean = 0, InitStdDev = 0, LR = 0, Reg = 0, Verbose = False\<rparr>)
       (\<lambda>k. 0) 0 = Inr (m, pos') \<and>
     history (IU m) 0 = [0, 0] \<and> \<not> distinct (history (IU m) 0) \<and>
     sqrt_count m 0 = sqrt 2"
  unfolding repeated_example repeated_NewSVDpp
  by (simp add: history_def sqrt_count_def)

text \<open>
  C6, amended. For a non-empty Dataset with parallel arrays of one length, the
  constructor builds, in one pass, \<open>user_history[u]\<close> as the items of all observations of
  \<open>u\<close> in stored order, one entry per observation (an item is repeated as often as the
  Dataset repeats the pair), so \<open>sqrt_count(u)\<close> is the square root of the number of
  observations of \<open>u\<close>.
\<close>

theorem NewSVDpp_history:
  "length (Users d) = length (Ratings d) \<and> length (Items d) = length (Ratings d) \<and>
   Ratings d \<noteq> [] \<longrightarrow>
   (\<exists>iu. buildIU d = Inr iu \<and> (\<forall>u. history iu u = userItems d u) \<and>
      (\<forall>cfg g pos m pos'. NewSVDpp d cfg g pos = Inr (m, pos') \<longrightarrow>
         IU m = iu \<and> (\<forall>u. sqrt_count m u = sqrt (real (length (userItems d u))))))"
proof
  assume a: "length (Users d) = length (Ratings d) \<and> length (Items d) = length (Ratings d) \<and>
   Ratings d \<noteq> []"
  then obtain iu where iu: "buildIU d = Inr iu" and h: "\<And>u. history iu u = userItems d u"
    using buildIU_ok[of d] by blast
  have "IU m = iu \<and> (\<forall>u. sqrt_count m u = sqrt (real (length (userItems d u))))"
    if "NewSVDpp d cfg g pos = Inr (m, pos')" for cfg g pos m pos'
    using NewSVDpp_IU[OF that] iu h by (simp add: sqrt_count_def)
  with iu h show "\<exists>iu. buildIU d = Inr iu \<and> (\<forall>u. history iu u = userItems d u) \<and>
      (\<forall>cfg g pos m pos'. NewSVDpp d cfg g pos = Inr (m, pos') \<longrightarrow>
         IU m = iu \<and> (\<forall>u. sqrt_count m u = sqrt (real (length (userItems d u)))))"
    by blast
qed

theorem NewSVDpp_history_witness:
  "length (Users \<lparr>Users = [0, 0], Items = [0, 0], Ratings = [1, 2],
      UserMap = [(''a'', 0)], ItemMap = [(''x'', 0)]\<rparr>) = 2 \<and>
   userItems \<lparr>Users = [0, 0], Items = [0, 0], Ratings = [1, 2],
      UserMap = [(''a'', 0)], ItemMap = [(''x'', 0)]\<rparr> 0 = [0, 0] \<and>
   (\<exists>iu. buildIU \<lparr>Users = [0, 0], Items = [0, 0], Ratings = [1, 2],
      UserMap = [(''a'', 0)], ItemMap = [(''x'', 0)]\<rparr> = Inr iu \<and> history iu 0 = [0, 0])"
  using NewSVDpp_history [of "\<lparr>Users = [0, 0], Items = [0, 0], Ratings = [1, 2],
      UserMap = [(''a'', 0)], ItemMap = [(''x'', 0)]\<rparr>"]
  by (auto simp: userItems_def)

section \<open>Predict: cold start\<close>

lemma RowView_ok:
  assumes "i < rows M" "length (mdata M) = rows M * cols M"
  shows "RowView M i = Inr (map (entry M i) [0..<cols M])"
proof -
  have le: "i * cols M + cols M \<le> length (mdata M)"
  proof -
    have "i * cols M + cols M = Suc i * cols M" by simp
    also have "\<dots> \<le> rows M * cols M" using assms(1) by (intro mult_le_mono1) simp
    finally show ?thesis by (simp add: assms(2))
  qed
  have "take (cols M) (drop (i * cols M) (mdata M)) = map (entry M i) [0..<cols M]"
  proof (rule nth_equalityI)
    show "length (take (cols M) (drop (i * cols M) (mdata M))) = length (map (entry M i) [0..<cols M])"
      using le by simp
  next
    fix k assume "k < length (take (cols M) (drop (i * cols M) (mdata M)))"
    then have "k < cols M" by simp
    with le show "take (cols M) (drop (i * cols M) (mdata M)) ! k = map (entry M i) [0..<cols M] ! k"
      by (simp add: entry_def)
  qed
  with assms(1) show ?thesis by (simp add: RowView_def)
qed

lemma map2_upt: "map2 h (map f [0..<n]) (map g [0..<n]) = map (\<lambda>k. h (f k) (g k)) [0..<n]"
  by (rule nth_equalityI) simp_all

lemma sum_list_upt: "sum_list (map f [0..<n]) = (\<Sum>k<n. f k)" for f :: "nat \<Rightarrow> real"
  by (induction n) simp_all

lemma Dot_maps:
  "Dot (map f [0..<n]) (map g [0..<n]) = Inr (\<Sum>k<n. f k * g k)"
  by (simp add: Dot_def map2_upt sum_list_upt del: upt_Suc)

lemma AddVec_maps:
  "AddVec (map f [0..<n]) (map g [0..<n]) = Inr (map (\<lambda>k. f k + g k) [0..<n])"
  by (simp add: AddVec_def map2_upt del: upt_Suc)

lemma SVD_Predict_none:
  "map_of (UserMap (Dataset m)) u = None \<Longrightarrow> map_of (ItemMap (Dataset m)) i = None \<Longrightarrow>
   SVD_Predict m u i = Inr (GlobalMean m)"
  by (simp add: SVD_Predict_def)

lemma SVD_Predict_user:
  "map_of (UserMap (Dataset m)) u = Some uid \<Longrightarrow> map_of (ItemMap (Dataset m)) i = None \<Longrightarrow>
   uid < length (BU m) \<Longrightarrow> SVD_Predict m u i = Inr (GlobalMean m + BU m ! uid)"
  by (simp add: SVD_Predict_def)

lemma SVD_Predict_item:
  "map_of (UserMap (Dataset m)) u = None \<Longrightarrow> map_of (ItemMap (Dataset m)) i = Some iid \<Longrightarrow>
   iid < length (BI m) \<Longrightarrow> SVD_Predict m u i = Inr (GlobalMean m + BI m ! iid)"
  by (simp add: SVD_Predict_def)

lemma SVD_Predict_both:
  assumes "map_of (UserMap (Dataset m)) u = Some uid" "map_of (ItemMap (Dataset m)) i = Some iid"
    "uid < length (BU m)" "iid < length (BI m)" "uid < rows (PU m)" "iid < rows (QI m)"
    "cols (PU m) = cols (QI m)"
    "length (mdata (PU m)) = rows (PU m) * cols (PU m)"
    "length (mdata (QI m)) = rows (QI m) * cols (QI m)"
  shows "SVD_Predict m u i =
     Inr (GlobalMean m + BU m ! uid + BI m ! iid
          + (\<Sum>f<cols (PU m). entry (PU m) uid f * entry (QI m) iid f))"
  using assms(1-4)
  by (simp add: SVD_Predict_def RowView_ok[OF assms(5,8)] RowView_ok[OF assms(6,9)]
      assms(7)[symmetric] Dot_maps)

lemma SVDpp_Predict_none:
  "map_of (UserMap (Dataset m)) u = None \<Longrightarrow> map_of (ItemMap (Dataset m)) i = None \<Longrightarrow>
   SVDpp_Predict m u i = Inr (GlobalMean m)"
  by (simp add: SVDpp_Predict_def)

lemma SVDpp_Predict_user:
  "map_of (UserMap (Dataset m)) u = Some uid \<Longrightarrow> map_of (ItemMap (Dataset m)) i = None \<Longrightarrow>
   uid < length (BU m) \<Longrightarrow> SVDpp_Predict m u i = Inr (GlobalMean m + BU m ! uid)"
  by (simp add: SVDpp_Predict_def)

lemma SVDpp_Predict_item:
  "map_of (UserMap (Dataset m)) u = None \<Longrightarrow> map_of (ItemMap (Dataset m)) i = Some iid \<Longrightarrow>
   iid < length (BI m) \<Longrightarrow> SVDpp_Predict m u i = Inr (GlobalMean m + BI m ! iid)"
  by (simp add: SVDpp_Predict_def)

lemma sumRows:
  assumes "length (mdata Y) = rows Y * cols Y"
  shows "\<forall>j\<in>set items. j < rows Y \<Longrightarrow>
    forEach items (map a [0..<cols Y]) (\<lambda>item uImp.
        bind (RowView Y item) (\<lambda>row. AddVec uImp row))
      = Inr (map (\<lambda>f. a f + (\<Sum>j\<leftarrow>items. entry Y j f)) [0..<cols Y])"
proof (induction items arbitrary: a)
  case Nil
  then show ?case by simp
next
  case (Cons x xs)
  then have x: "x < rows Y" and xs: "\<forall>j\<in>set xs. j < rows Y" by simp_all
  show ?case
    using Cons.IH[OF xs, of "\<lambda>k. a k + entry Y x k"]
    by (simp add: RowView_ok[OF x assms] AddVec_maps add.assoc del: upt_Suc)
qed

lemma SVDpp_Predict_both:
  assumes "map_of (UserMap (Dataset m)) u = Some uid" "map_of (ItemMap (Dataset m)) i = Some iid"
    "uid < length (BU m)" "iid < length (BI m)" "uid < rows (PU m)" "iid < rows (QI m)"
    "0 < NumFactors (Config m)"
    "cols (PU m) = nat (NumFactors (Config m))" "cols (QI m) = nat (NumFactors (Config m))"
    "cols (YJ m) = nat (NumFactors (Config m))"
    "length (mdata (PU m)) = rows (PU m) * cols (PU m)"
    "length (mdata (QI m)) = rows (QI m) * cols (QI m)"
    "length (mdata (YJ m)) = rows (YJ m) * cols (YJ m)"
    "\<forall>j\<in>set (history (IU m) uid). j < rows (YJ m)"
  shows "SVDpp_Predict m u i =
     Inr (GlobalMean m + BU m ! uid + BI m ! iid
          + (\<Sum>f<nat (NumFactors (Config m)).
               entry (PU m) uid f
               * (1 / sqrt (real (length (history (IU m) uid)))
                    * (\<Sum>j\<leftarrow>history (IU m) uid. entry (YJ m) j f)
                  + entry (QI m) iid f)))"
proof -
  let ?n = "nat (NumFactors (Config m))"
  let ?h = "history (IU m) uid"
  have v: "NewVecDense (NumFactors (Config m)) = Inr (map (\<lambda>k. 0) [0..<?n])"
    using assms(7) by (simp add: NewVecDense_def map_replicate_const)
  have s: "forEach ?h (map (\<lambda>k. 0) [0..<?n])
             (\<lambda>item uImp. bind (RowView (YJ m) item) (\<lambda>row. AddVec uImp row))
           = Inr (map (\<lambda>f. \<Sum>j\<leftarrow>?h. entry (YJ m) j f) [0..<?n])"
    using sumRows[OF assms(13,14), of "\<lambda>k. 0"] by (simp add: assms(10))
  have sc: "ScaleVec c (map h [0..<k]) = map (\<lambda>f. c * h f) [0..<k]" for c h k
    by (simp add: ScaleVec_def del: upt_Suc)
  have q: "RowView (QI m) iid = Inr (map (entry (QI m) iid) [0..<?n])"
    using RowView_ok[OF assms(6,12)] by (simp add: assms(9))
  have p: "RowView (PU m) uid = Inr (map (entry (PU m) uid) [0..<?n])"
    using RowView_ok[OF assms(5,11)] by (simp add: assms(8))
  show ?thesis
    unfolding SVDpp_Predict_def Let_def assms(1,2) option.case prod.case v s bind_Inr sc q p
      AddVec_maps Dot_maps
    using assms(3,4) by simp
qed

text \<open>
  C3. For both models, \<open>Predict\<close> starts from \<open>global_mean\<close>, adds the user bias only when
  the user string is in the Dataset's map, the item bias only when the item string is,
  and the latent term only when both are. When neither is known it returns exactly
  \<open>global_mean\<close>, whatever the model holds. An unknown identifier reads no buffer, so
  it cannot fail: with one identifier unknown, the call returns as soon as the known
  id's bias exists. For SVD the latent term is the dot product of the two rows; for
  SVD++ it is the dot product of the user's row with the item's row plus the scaled sum
  of the \<open>YJ\<close> rows of the user's history.
\<close>

theorem Predict_cold_start:
  "(map_of (UserMap (Dataset m)) u = None \<and> map_of (ItemMap (Dataset m)) i = None \<longrightarrow>
      SVD_Predict m u i = Inr (GlobalMean m)) \<and>
   (map_of (UserMap (Dataset m)) u = Some uid \<and> map_of (ItemMap (Dataset m)) i = None \<and>
    uid < length (BU m) \<longrightarrow>
      SVD_Predict m u i = Inr (GlobalMean m + BU m ! uid)) \<and>
   (map_of (UserMap (Dataset m)) u = None \<and> map_of (ItemMap (Dataset m)) i = Some iid \<and>
    iid < length (BI m) \<longrightarrow>
      SVD_Predict m u i = Inr (GlobalMean m + BI m ! iid)) \<and>
   (map_of (UserMap (Dataset m)) u = Some uid \<and> map_of (ItemMap (Dataset m)) i = Some iid \<and>
    uid < length (BU m) \<and> iid < length (BI m) \<and> uid < rows (PU m) \<and> iid < rows (QI m) \<and>
    cols (PU m) = cols (QI m) \<and>
    length (mdata (PU m)) = rows (PU m) * cols (PU m) \<and>
    length (mdata (QI m)) = rows (QI m) * cols (QI m) \<longrightarrow>
      SVD_Predict m u i =
        Inr (GlobalMean m + BU m ! uid + BI m ! iid
             + (\<Sum>f<cols (PU m). entry (PU m) uid f * entry (QI m) iid f))) \<and>
   (map_of (UserMap (Dataset mpp)) u = None \<and> map_of (ItemMap (Dataset mpp)) i = None \<longrightarrow>
      SVDpp_Predict mpp u i = Inr (GlobalMean mpp)) \<and>
   (map_of (UserMap (Dataset mpp)) u = Some uid \<and> map_of (ItemMap (Dataset mpp)) i = None \<and>
    uid < length (BU mpp) \<longrightarrow>
      SVDpp_Predict mpp u i = Inr (GlobalMean mpp + BU mpp ! uid)) \<and>
   (map_of (UserMap (Dataset mpp)) u = None \<and> map_of (ItemMap (Dataset mpp)) i = Some iid \<and>
    iid < length (BI mpp) \<longrightarrow>
      SVDpp_Predict mpp u i = Inr (GlobalMean mpp + BI mpp ! iid)) \<and>
   (map_of (UserMap (Dataset mpp)) u = Some uid \<and> map_of (ItemMap (Dataset mpp)) i = Some iid \<and>
    uid < length (BU mpp) \<and> iid < length (BI mpp) \<and>
    uid < rows (PU mpp) \<and> iid < rows (QI mpp) \<and>
    0 < NumFactors (Config mpp) \<and>
    cols (PU mpp) = nat (NumFactors (Config mpp)) \<and>
    cols (QI mpp) = nat (NumFactors (Config mpp)) \<and>
    cols (YJ mpp) = nat (NumFactors (Config mpp)) \<and>
    length (mdata (PU mpp)) = rows (PU mpp) * cols (PU mpp) \<and>
    length (mdata (QI mpp)) = rows (QI mpp) * cols (QI mpp) \<and>
    length (mdata (YJ mpp)) = rows (YJ mpp) * cols (YJ mpp) \<and>
    list_all (\<lambda>j. j < rows (YJ mpp)) (history (IU mpp) uid) \<longrightarrow>
      SVDpp_Predict mpp u i =
        Inr (GlobalMean mpp + BU mpp ! uid + BI mpp ! iid
             + (\<Sum>f<nat (NumFactors (Config mpp)).
                  entry (PU mpp) uid f
                  * (1 / sqrt (real (length (history (IU mpp) uid)))
                       * (\<Sum>j\<leftarrow>history (IU mpp) uid. entry (YJ mpp) j f)
                     + entry (QI mpp) iid f))))"
proof (intro conjI impI)
qed (simp_all add: SVD_Predict_none SVD_Predict_user SVD_Predict_item SVD_Predict_both
    SVDpp_Predict_none SVDpp_Predict_user SVDpp_Predict_item SVDpp_Predict_both list_all_iff)

theorem Predict_cold_start_witness:
  "map_of (UserMap (Dataset (exampleSVD 1))) ''nobody'' = None \<and>
   map_of (ItemMap (Dataset (exampleSVD 1))) ''nothing'' = None \<and>
   SVD_Predict (exampleSVD 1) ''nobody'' ''nothing'' = Inr 3 \<and>
   map_of (ItemMap (Dataset (exampleSVD 1))) ''i'' = Some 0 \<and>
   SVD_Predict (exampleSVD 1) ''nobody'' ''i'' = Inr 3 \<and>
   map_of (UserMap (Dataset exampleSVDpp)) ''a'' = Some 0 \<and>
   map_of (ItemMap (Dataset exampleSVDpp)) ''y'' = Some 1 \<and>
   SVDpp_Predict exampleSVDpp ''a'' ''y'' = Inr 2 \<and>
   SVDpp_Predict exampleSVDpp ''nobody'' ''y'' = Inr 3"
proof -
  have a: "map_of (UserMap (Dataset (exampleSVD 1))) ''nobody'' = None"
    "map_of (ItemMap (Dataset (exampleSVD 1))) ''nothing'' = None"
    "map_of (ItemMap (Dataset (exampleSVD 1))) ''i'' = Some 0"
    "0 < length (BI (exampleSVD 1))" "BI (exampleSVD 1) ! 0 = 0" "GlobalMean (exampleSVD 1) = 3"
    by (simp_all add: exampleSVD_def)
  have b: "map_of (UserMap (Dataset exampleSVDpp)) ''a'' = Some 0"
    "map_of (ItemMap (Dataset exampleSVDpp)) ''y'' = Some 1"
    "map_of (UserMap (Dataset exampleSVDpp)) ''nobody'' = None"
    "GlobalMean exampleSVDpp = 3" "BU exampleSVDpp = [0]" "BI exampleSVDpp = [0, 0]"
    "rows (PU exampleSVDpp) = 1" "rows (QI exampleSVDpp) = 2" "rows (YJ exampleSVDpp) = 2"
    "cols (PU exampleSVDpp) = 1" "cols (QI exampleSVDpp) = 1" "cols (YJ exampleSVDpp) = 1"
    "NumFactors (Config exampleSVDpp) = 1"
    "mdata (PU exampleSVDpp) = [- 1]" "mdata (QI exampleSVDpp) = [2, - 1]"
    "mdata (YJ exampleSVDpp) = [- 1, 3]"
    "history (IU exampleSVDpp) 0 = [0, 1, 0, 1]"
    by (simp_all add: exampleSVDpp_def history_def)
  have c1: "SVD_Predict (exampleSVD 1) ''nobody'' ''nothing'' = Inr 3"
    using Predict_cold_start [of "exampleSVD 1" "''nobody''" "''nothing''"] a by simp
  have c2: "SVD_Predict (exampleSVD 1) ''nobody'' ''i'' = Inr 3"
    using Predict_cold_start [of "exampleSVD 1" "''nobody''" "''i''" _ 0] a by simp
  have c3: "SVDpp_Predict exampleSVDpp ''a'' ''y'' = Inr 2"
    using Predict_cold_start [of _ "''a''" "''y''" 0 1 exampleSVDpp] b
    by (simp add: entry_def)
  have c4: "SVDpp_Predict exampleSVDpp ''nobody'' ''y'' = Inr 3"
    using Predict_cold_start [of _ "''nobody''" "''y''" _ 1 exampleSVDpp] b by simp
  from a b c1 c2 c3 c4 show ?thesis by simp
qed

section \<open>SVD++: Fit performs the update equations\<close>

lemma sum_list_divide: "(\<Sum>x\<leftarrow>xs. f x / c) = (\<Sum>x\<leftarrow>xs. f x) / (c::real)"
  by (induction xs) (simp_all add: add_divide_distrib)

lemma implicit_inner:
  assumes "item < rows yj" "N \<le> cols yj"
  shows "n \<le> N \<Longrightarrow>
    forEach [0..<n] (map a [0..<N]) (\<lambda>f uImpFdb.
        bind (At yj item f) (\<lambda>y.
        bind (index uImpFdb f) (\<lambda>x.
        Inr (uImpFdb[f := x + y / sq]))))
    = Inr (map (\<lambda>f. if f < n then a f + entry yj item f / sq else a f) [0..<N])"
proof (induction n)
  case 0
  then show ?case by simp
next
  case (Suc n)
  then have n: "n < N" "n < cols yj" using assms by simp_all
  have "(map (\<lambda>f. if f < n then a f + entry yj item f / sq else a f) [0..<N])
          [n := a n + entry yj item n / sq]
      = map (\<lambda>f. if f < Suc n then a f + entry yj item f / sq else a f) [0..<N]"
    by (rule nth_equalityI) (auto simp: nth_list_update less_Suc_eq)
  with Suc n assms show ?case
    by (simp add: forEach_upt_Suc At_ok del: upt_Suc)
qed

lemma implicit_outer:
  assumes "N \<le> cols yj"
  shows "\<forall>j\<in>set items. j < rows yj \<Longrightarrow>
    forEach items (map a [0..<N]) (\<lambda>item uImpFdb.
      forEach [0..<N] uImpFdb (\<lambda>f uImpFdb.
        bind (At yj item f) (\<lambda>y.
        bind (index uImpFdb f) (\<lambda>x.
        Inr (uImpFdb[f := x + y / sq])))))
    = Inr (map (\<lambda>f. a f + (\<Sum>j\<leftarrow>items. entry yj j f / sq)) [0..<N])"
proof (induction items arbitrary: a)
  case Nil
  then show ?case by simp
next
  case (Cons x xs)
  then have x: "x < rows yj" and xs: "\<forall>j\<in>set xs. j < rows yj" by simp_all
  have i: "forEach [0..<N] (map a [0..<N]) (\<lambda>f uImpFdb.
        bind (At yj x f) (\<lambda>y.
        bind (index uImpFdb f) (\<lambda>x.
        Inr (uImpFdb[f := x + y / sq]))))
      = Inr (map (\<lambda>f. a f + entry yj x f / sq) [0..<N])"
    using implicit_inner[OF x assms, of N a sq] by (simp del: upt_Suc cong: map_cong)
  show ?case
    using Cons.IH[OF xs, of "\<lambda>f. a f + entry yj x f / sq"]
    by (simp add: i add.assoc del: upt_Suc)
qed

lemma implicitLoop_ok:
  assumes "0 \<le> nf" "cols yj = nat nf" "\<forall>j\<in>set items. j < rows yj"
  shows "implicitLoop yj items nf sq
     = Inr (map (\<lambda>f. (\<Sum>j\<leftarrow>items. entry yj j f) / sq) [0..<nat nf])"
proof -
  have "replicate (nat nf) 0 = map (\<lambda>f. 0::real) [0..<nat nf]"
    by (simp add: map_replicate_const)
  then show ?thesis
    unfolding implicitLoop_def
    using implicit_outer[OF _ assms(3), of "nat nf" "\<lambda>f. 0" sq] assms(1,2)
    by (simp add: sum_list_divide del: upt_Suc)
qed

lemma dotLoopPP_prefix:
  assumes "u < rows pu" "i < rows qi"
  shows "n \<le> cols pu \<Longrightarrow> n \<le> cols qi \<Longrightarrow> n \<le> N \<Longrightarrow>
    forEach [0..<n] 0 (\<lambda>f dot.
       bind (At pu u f) (\<lambda>a.
       bind (index (map w [0..<N]) f) (\<lambda>x.
       bind (At qi i f) (\<lambda>b.
       Inr (dot + (a + x) * b)))))
      = Inr (\<Sum>f<n. (entry pu u f + w f) * entry qi i f)"
proof (induction n)
  case 0
  then show ?case by simp
next
  case (Suc n)
  then show ?case using assms
    by (simp add: forEach_upt_Suc At_ok del: upt_Suc)
qed

lemma dotLoopPP_ok:
  assumes "u < rows pu" "i < rows qi" "cols pu = nat nf" "cols qi = nat nf"
  shows "dotLoopPP pu qi (map w [0..<nat nf]) u i nf
     = Inr (\<Sum>f<nat nf. (entry pu u f + w f) * entry qi i f)"
  unfolding dotLoopPP_def
  using dotLoopPP_prefix[OF assms(1,2), of "nat nf" "nat nf" w] assms(3,4) by simp

lemma setEntry_dims [simp]:
  "rows (setEntry M j f v) = rows M" "cols (setEntry M j f v) = cols M"
  "length (mdata (setEntry M j f v)) = length (mdata M)"
  by (simp_all add: setEntry_def)

lemma Set_ok: "j < rows M \<Longrightarrow> f < cols M \<Longrightarrow> Set M j f v = Inr (setEntry M j f v)"
  by (simp add: Set_def setEntry_def)

lemma yjLoop_ok:
  "f < cols yj \<Longrightarrow> \<forall>j\<in>set items. j < rows yj \<Longrightarrow>
   yjLoop lr reg e items f yj
     = Inr (foldl (\<lambda>Y j. setEntry Y j f (entry Y j f + lr * (e - reg * entry Y j f))) yj items)"
  unfolding yjLoop_def
proof (induction items arbitrary: yj)
  case Nil
  then show ?case by simp
next
  case (Cons x xs)
  let ?Y = "setEntry yj x f (entry yj x f + lr * (e - reg * entry yj x f))"
  have x: "x < rows yj" using Cons.prems by simp
  have "f < cols ?Y" "\<forall>j\<in>set xs. j < rows ?Y" using Cons.prems by simp_all
  from Cons.IH[OF this] show ?case
    by (simp add: At_ok[OF x Cons.prems(1)] Set_ok[OF x Cons.prems(1)])
qed

lemma foldl_setEntry_dims:
  "rows (foldl (\<lambda>Y j. setEntry Y j f (h Y j)) yj items) = rows yj \<and>
   cols (foldl (\<lambda>Y j. setEntry Y j f (h Y j)) yj items) = cols yj \<and>
   length (mdata (foldl (\<lambda>Y j. setEntry Y j f (h Y j)) yj items)) = length (mdata yj)"
  by (induction items arbitrary: yj) simp_all

lemma foldl2_setEntry_dims:
  "rows (foldl (\<lambda>Y f. foldl (\<lambda>Y j. setEntry Y j f (h f Y j)) Y items) yj fs) = rows yj \<and>
   cols (foldl (\<lambda>Y f. foldl (\<lambda>Y j. setEntry Y j f (h f Y j)) Y items) yj fs) = cols yj \<and>
   length (mdata (foldl (\<lambda>Y f. foldl (\<lambda>Y j. setEntry Y j f (h f Y j)) Y items) yj fs))
     = length (mdata yj)"
  by (induction fs arbitrary: yj) (simp_all add: foldl_setEntry_dims)

lemma factorLoopPP_prefix:
  assumes "u < rows pu" "i < rows qi"
    "length (mdata pu) = rows pu * cols pu" "length (mdata qi) = rows qi * cols qi"
    "\<forall>j\<in>set items. j < rows yj"
  shows "n \<le> cols pu \<Longrightarrow> n \<le> cols qi \<Longrightarrow> n \<le> cols yj \<Longrightarrow> n \<le> N \<Longrightarrow>
    forEach [0..<n] (pu, qi, yj) (\<lambda>f (pu, qi, yj).
       bind (At pu u f) (\<lambda>puf.
       bind (At qi i f) (\<lambda>qif.
       bind (Set pu u f (puf + lr * (err * qif - reg * puf))) (\<lambda>pu'.
       bind (index (map w [0..<N]) f) (\<lambda>x.
       bind (Set qi i f (qif + lr * (err * (puf + x) - reg * qif))) (\<lambda>qi'.
       let errQIF = err * qif / sq in
       bind (yjLoop lr reg errQIF items f yj) (\<lambda>yj'.
       Inr (pu', qi', yj'))))))))
     = Inr (updRowN pu u n
              (\<lambda>f. entry pu u f + lr * (err * entry qi i f - reg * entry pu u f)),
            updRowN qi i n
              (\<lambda>f. entry qi i f + lr * (err * (entry pu u f + w f) - reg * entry qi i f)),
            foldl (\<lambda>Y f. foldl (\<lambda>Y j. setEntry Y j f
                      (entry Y j f + lr * (err * entry qi i f / sq - reg * entry Y j f))) Y items)
              yj [0..<n])"
  (is "_ \<Longrightarrow> _ \<Longrightarrow> _ \<Longrightarrow> _ \<Longrightarrow> forEach _ _ ?body = Inr (updRowN pu u n ?P, updRowN qi i n ?Q, ?Y n)")
proof (induction n)
  case 0
  then show ?case by (simp add: updRowN_0)
next
  case (Suc n)
  then have n: "n < cols pu" "n < cols qi" "n < cols yj" "n < N" by simp_all
  have IH: "forEach [0..<n] (pu, qi, yj) ?body
      = Inr (updRowN pu u n ?P, updRowN qi i n ?Q, ?Y n)"
    using Suc by simp
  note sp = Set_updRowN[OF assms(1) n(1) assms(3), of ?P]
  note sq = Set_updRowN[OF assms(2) n(2) assms(4), of ?Q]
  have d: "rows (?Y n) = rows yj" "cols (?Y n) = cols yj"
    using foldl2_setEntry_dims[of "\<lambda>f Y j. entry Y j f + lr * (err * entry qi i f / sq - reg * entry Y j f)"
        items yj "[0..<n]"] by simp_all
  have y: "yjLoop lr reg (err * entry qi i n / sq) items n (?Y n) = Inr (?Y (Suc n))"
    using yjLoop_ok[of n "?Y n" items lr reg "err * entry qi i n / sq"] n(3) assms(5) d
    by simp
  show ?case
    unfolding forEach_upt_Suc IH
    using sp sq n(4)
    by (simp add: At_updRowN[OF assms(1) n(1) assms(3)] At_updRowN[OF assms(2) n(2) assms(4)] y
        del: upt_Suc)
qed

lemma factorLoopPP_ok:
  assumes "u < rows pu" "i < rows qi"
    "cols pu = nat nf" "cols qi = nat nf" "cols yj = nat nf"
    "length (mdata pu) = rows pu * cols pu" "length (mdata qi) = rows qi * cols qi"
    "\<forall>j\<in>set items. j < rows yj"
  shows "factorLoopPP lr reg err (map w [0..<nat nf]) sq items u i nf (pu, qi, yj)
     = Inr (updRow pu u
              (\<lambda>f. entry pu u f + lr * (err * entry qi i f - reg * entry pu u f)),
            updRow qi i
              (\<lambda>f. entry qi i f + lr * (err * (entry pu u f + w f) - reg * entry qi i f)),
            foldl (\<lambda>Y f. foldl (\<lambda>Y j. setEntry Y j f
                      (entry Y j f + lr * (err * entry qi i f / sq - reg * entry Y j f))) Y items)
              yj [0..<nat nf])"
  unfolding factorLoopPP_def
  using factorLoopPP_prefix[OF assms(1,2,6,7,8), of "nat nf" "nat nf" lr err reg w sq]
    updRowN_full[of pu] updRowN_full[of qi] assms(3,4,5)
  by simp

lemma specpp_yj_dims [simp]:
  "rows (specpp_yj m u i err) = rows (YJ m)" "cols (specpp_yj m u i err) = cols (YJ m)"
  "length (mdata (specpp_yj m u i err)) = length (mdata (YJ m))"
  unfolding specpp_yj_def
  using foldl2_setEntry_dims[of "\<lambda>f Y j. entry Y j f + LR (Config m)
        * (err * entry (QI m) i f / sqrt_count m u - Reg (Config m) * entry Y j f)"
      "history (IU m) u" "YJ m" "[0..<nat (NumFactors (Config m))]"]
  by simp_all

lemma specpp_step_frame [simp]:
  "Dataset (specpp_step m obs) = Dataset m" "Config (specpp_step m obs) = Config m"
  "GlobalMean (specpp_step m obs) = GlobalMean m" "IU (specpp_step m obs) = IU m"
  by (simp_all add: specpp_step_def Let_def split: prod.splits)

lemma specpp_step_wf: "wfSVDpp m \<Longrightarrow> wfSVDpp (specpp_step m obs)"
  by (cases obs) (simp add: wfSVDpp_def specpp_step_def Let_def)

lemma wfSVDpp_obs:
  assumes "wfSVDpp m" "idx < length (Ratings (Dataset m))"
  shows "idx < length (Users (Dataset m))" "idx < length (Items (Dataset m))"
    "Users (Dataset m) ! idx < rows (PU m)" "Users (Dataset m) ! idx < length (BU m)"
    "Items (Dataset m) ! idx < rows (QI m)" "Items (Dataset m) ! idx < length (BI m)"
    "observations (Dataset m) ! idx
       = (Users (Dataset m) ! idx, Items (Dataset m) ! idx, Ratings (Dataset m) ! idx)"
    "\<forall>j\<in>set (history (IU m) (Users (Dataset m) ! idx)). j < rows (YJ m)"
proof -
  from assms have l: "length (Users (Dataset m)) = length (Ratings (Dataset m))"
    "length (Items (Dataset m)) = length (Ratings (Dataset m))"
    and U: "list_all (\<lambda>u. u < rows (PU m) \<and> u < length (BU m) \<and> history (IU m) u \<noteq> [] \<and>
                    list_all (\<lambda>j. j < rows (YJ m)) (history (IU m) u)) (Users (Dataset m))"
    and I: "list_all (\<lambda>i. i < rows (QI m) \<and> i < length (BI m)) (Items (Dataset m))"
    by (simp_all add: wfSVDpp_def)
  show "idx < length (Users (Dataset m))" "idx < length (Items (Dataset m))"
    using l assms(2) by simp_all
  then have "Users (Dataset m) ! idx \<in> set (Users (Dataset m))"
    "Items (Dataset m) ! idx \<in> set (Items (Dataset m))" by simp_all
  with U I show "Users (Dataset m) ! idx < rows (PU m)" "Users (Dataset m) ! idx < length (BU m)"
    "Items (Dataset m) ! idx < rows (QI m)" "Items (Dataset m) ! idx < length (BI m)"
    "\<forall>j\<in>set (history (IU m) (Users (Dataset m) ! idx)). j < rows (YJ m)"
    by (simp_all add: list_all_iff)
  show "observations (Dataset m) ! idx
       = (Users (Dataset m) ! idx, Items (Dataset m) ! idx, Ratings (Dataset m) ! idx)"
    using l assms(2) by (simp add: observations_def)
qed

lemma sgdUpdatePP_step:
  assumes wf: "wfSVDpp m" and idx: "idx < length (Ratings (Dataset m))"
  shows "sgdUpdatePP (Dataset m) (IU m) (GlobalMean m) (LR (Config m)) (Reg (Config m))
           (NumFactors (Config m)) idx (stateOfPP m)
         = Inr (stateOfPP (specpp_step m (observations (Dataset m) ! idx)))"
proof -
  note o = wfSVDpp_obs[OF wf idx]
  from wf have c: "0 \<le> NumFactors (Config m)"
    "cols (PU m) = nat (NumFactors (Config m))"
    "cols (QI m) = nat (NumFactors (Config m))"
    "cols (YJ m) = nat (NumFactors (Config m))"
    "length (mdata (PU m)) = rows (PU m) * cols (PU m)"
    "length (mdata (QI m)) = rows (QI m) * cols (QI m)"
    by (simp_all add: wfSVDpp_def)
  let ?u = "Users (Dataset m) ! idx" and ?i = "Items (Dataset m) ! idx"
  let ?sq = "sqrt (real (length (history (IU m) ?u)))"
  have imp: "implicitLoop (YJ m) (history (IU m) ?u) (NumFactors (Config m)) ?sq
      = Inr (map (user_implicit m ?u) [0..<nat (NumFactors (Config m))])"
    using implicitLoop_ok[OF c(1,4) o(8), of ?sq]
    by (simp add: user_implicit_def sqrt_count_def del: upt_Suc)
  show ?thesis
    unfolding sgdUpdatePP_def stateOfPP_def o(7)
    by (simp add: o idx imp dotLoopPP_ok[OF o(3) o(5) c(2,3)]
        factorLoopPP_ok[OF o(3) o(5) c(2,3,4,5,6) o(8)]
        specpp_step_def specpp_err_def specpp_yj_def sqrt_count_def Let_def del: upt_Suc)
qed

lemma epochPP_loop:
  assumes "wfSVDpp m" "\<forall>idx\<in>set idxs. idx < length (Ratings (Dataset m))"
    "d = Dataset m" "iu = IU m" "gm = GlobalMean m" "lr = LR (Config m)" "reg = Reg (Config m)"
    "nf = NumFactors (Config m)"
  shows "forEach idxs (stateOfPP m) (\<lambda>idx st. sgdUpdatePP d iu gm lr reg nf idx st)
       = Inr (stateOfPP (foldl specpp_step m (map (\<lambda>idx. observations d ! idx) idxs)))"
  using assms
proof (induction idxs arbitrary: m)
  case Nil
  then show ?case by simp
next
  case (Cons x xs)
  let ?m' = "specpp_step m (observations (Dataset m) ! x)"
  have s: "sgdUpdatePP d iu gm lr reg nf x (stateOfPP m) = Inr (stateOfPP ?m')"
    using sgdUpdatePP_step[of m x] Cons.prems by simp
  have "forEach xs (stateOfPP ?m') (\<lambda>idx st. sgdUpdatePP d iu gm lr reg nf idx st)
       = Inr (stateOfPP (foldl specpp_step ?m' (map (\<lambda>idx. observations d ! idx) xs)))"
    using Cons.prems by (intro Cons.IH) (simp_all add: specpp_step_wf)
  with s Cons.prems(3) show ?case by simp
qed

lemma observationsPP_length:
  "wfSVDpp m \<Longrightarrow> length (observations (Dataset m)) = length (Ratings (Dataset m))"
  by (simp add: wfSVDpp_def observations_def)

lemma epochPP_ok:
  assumes "wfSVDpp m"
  shows "forEach [0..<length (Ratings (Dataset m))] (stateOfPP m)
           (\<lambda>idx st. sgdUpdatePP (Dataset m) (IU m) (GlobalMean m) (LR (Config m))
              (Reg (Config m)) (NumFactors (Config m)) idx st)
       = Inr (stateOfPP (specpp_epoch m))"
proof -
  have "map (\<lambda>idx. observations (Dataset m) ! idx) [0..<length (Ratings (Dataset m))]
      = observations (Dataset m)"
    using observationsPP_length[OF assms] by (metis map_nth)
  then show ?thesis
    using epochPP_loop[OF assms, of "[0..<length (Ratings (Dataset m))]"]
    by (simp add: specpp_epoch_def)
qed

lemma foldl_specpp_step_frame:
  "Dataset (foldl specpp_step m os) = Dataset m \<and> Config (foldl specpp_step m os) = Config m \<and>
   GlobalMean (foldl specpp_step m os) = GlobalMean m \<and> IU (foldl specpp_step m os) = IU m \<and>
   (wfSVDpp m \<longrightarrow> wfSVDpp (foldl specpp_step m os))"
  by (induction os arbitrary: m) (simp_all add: specpp_step_wf)

lemma specpp_epoch_frame [simp]:
  "Dataset (specpp_epoch m) = Dataset m" "Config (specpp_epoch m) = Config m"
  "GlobalMean (specpp_epoch m) = GlobalMean m" "IU (specpp_epoch m) = IU m"
  by (simp_all add: specpp_epoch_def foldl_specpp_step_frame)

lemma specpp_epoch_wf: "wfSVDpp m \<Longrightarrow> wfSVDpp (specpp_epoch m)"
  by (simp add: specpp_epoch_def foldl_specpp_step_frame)

lemma specpp_fit_frame:
  "Dataset (specpp_fit m n) = Dataset m \<and> Config (specpp_fit m n) = Config m \<and>
   GlobalMean (specpp_fit m n) = GlobalMean m \<and> IU (specpp_fit m n) = IU m \<and>
   (wfSVDpp m \<longrightarrow> wfSVDpp (specpp_fit m n))"
  by (induction n) (simp_all add: specpp_fit_def specpp_epoch_wf)

lemma epochsPP_ok:
  assumes "wfSVDpp m"
  shows "forEach [0..<k] (stateOfPP m) (\<lambda>epoch st.
           forEach [0..<length (Ratings (Dataset m))] st
             (\<lambda>idx st. sgdUpdatePP (Dataset m) (IU m) (GlobalMean m) (LR (Config m))
                (Reg (Config m)) (NumFactors (Config m)) idx st))
       = Inr (stateOfPP (specpp_fit m k))"
proof (induction k)
  case 0
  then show ?case by (simp add: specpp_fit_def)
next
  case (Suc k)
  have w: "wfSVDpp (specpp_fit m k)" using assms specpp_fit_frame by blast
  have f: "Dataset (specpp_fit m k) = Dataset m" "Config (specpp_fit m k) = Config m"
    "GlobalMean (specpp_fit m k) = GlobalMean m" "IU (specpp_fit m k) = IU m"
    using specpp_fit_frame by blast+
  have "specpp_fit m (Suc k) = specpp_epoch (specpp_fit m k)" by (simp add: specpp_fit_def)
  then show ?case
    unfolding forEach_upt_Suc Suc.IH
    using epochPP_ok[OF w] by (simp add: f)
qed

lemma SVDpp_Fit_refines:
  assumes "wfSVDpp m"
  shows "SVDpp_Fit m n = Inr (specpp_fit m (nat n))"
proof -
  let ?m' = "specpp_fit m (nat n)"
  have f: "Dataset ?m' = Dataset m" "Config ?m' = Config m"
    "GlobalMean ?m' = GlobalMean m" "IU ?m' = IU m" using specpp_fit_frame by blast+
  have "m\<lparr>PU := PU ?m', QI := QI ?m', BU := BU ?m', BI := BI ?m', YJ := YJ ?m'\<rparr> = ?m'"
    using f by (intro SVDpp.equality) simp_all
  then show ?thesis
    unfolding SVDpp_Fit_def Let_def
    using epochsPP_ok[OF assms, of "nat n", unfolded stateOfPP_def]
    by (simp add: stateOfPP_def)
qed

lemma exampleSVDpp_wf: "wfSVDpp exampleSVDpp"
  by (simp add: wfSVDpp_def exampleSVDpp_def history_def)

lemma exampleSVDpp_fit:
  "specpp_fit exampleSVDpp 1 =
     exampleSVDpp\<lparr>PU := \<lparr>rows = 1, cols = 1, mdata = [3 / 16]\<rparr>,
                   QI := \<lparr>rows = 2, cols = 1, mdata = [1, 1]\<rparr>,
                   BU := [- 1 / 16], BI := [1 / 4, - 1 / 2],
                   YJ := \<lparr>rows = 2, cols = 1, mdata = [5 / 64, 3 / 32]\<rparr>\<rparr>"
  by (simp add: specpp_fit_def specpp_epoch_def observations_def specpp_step_def specpp_err_def
      specpp_yj_def user_implicit_def sqrt_count_def history_def setEntry_def entry_def
      updRow_def Let_def exampleSVDpp_def)

text \<open>
  C2. For an SVD++ model whose buffers fit its Dataset, \<open>Fit\<close> returns, without failure,
  the model obtained by applying \<open>specpp_step\<close> to every observation \<open>(u, i, r)\<close> of every
  epoch, in stored order: \<open>user_implicit[f]\<close> is the sum of \<open>YJ[j, f]\<close> over the history
  of \<open>u\<close> divided by \<open>sqrt_count(u)\<close>; the error uses the dot product of
  \<open>PU[u, f] + user_implicit[f]\<close> with \<open>QI[i, f]\<close>; \<open>QI[i, f]\<close> moves by
  \<open>lr \<cdot> (err \<cdot> (PU[u, f] + user_implicit[f]) - reg \<cdot> QI[i, f])\<close>; and \<open>YJ[j, f]\<close> moves by
  \<open>lr \<cdot> (err \<cdot> QI[i, f] / sqrt_count(u) - reg \<cdot> YJ[j, f])\<close> for every item \<open>j\<close> of the whole
  history of \<open>u\<close>, once per entry of the history.
\<close>

theorem SVDpp_Fit_updates:
  "wfSVDpp m \<longrightarrow> SVDpp_Fit m numEpochs = Inr (specpp_fit m (nat numEpochs))"
  using SVDpp_Fit_refines by blast

theorem SVDpp_Fit_updates_witness:
  "wfSVDpp exampleSVDpp \<and>
   SVDpp_Fit exampleSVDpp 1 =
     Inr (exampleSVDpp\<lparr>PU := \<lparr>rows = 1, cols = 1, mdata = [3 / 16]\<rparr>,
                       QI := \<lparr>rows = 2, cols = 1, mdata = [1, 1]\<rparr>,
                       BU := [- 1 / 16], BI := [1 / 4, - 1 / 2],
                       YJ := \<lparr>rows = 2, cols = 1, mdata = [5 / 64, 3 / 32]\<rparr>\<rparr>)"
proof -
  have n: "nat 1 = (1::nat)" by simp
  from SVDpp_Fit_updates [of exampleSVDpp 1] exampleSVDpp_wf
  have "SVDpp_Fit exampleSVDpp 1 = Inr (specpp_fit exampleSVDpp (nat 1))" by blast
  then show ?thesis unfolding n exampleSVDpp_fit using exampleSVDpp_wf by blast
qed

section \<open>Construction, defaults and grid search\<close>

lemma withDefaults_fields:
  "NumFactors (withDefaults cfg) =
     (case cfg of None \<Rightarrow> 50 | Some c \<Rightarrow> if NumFactors c = 0 then 50 else NumFactors c)"
  "InitStdDev (withDefaults cfg) =
     (case cfg of None \<Rightarrow> 1 / 10 | Some c \<Rightarrow> if InitStdDev c = 0 then 1 / 10 else InitStdDev c)"
  "LR (withDefaults cfg) =
     (case cfg of None \<Rightarrow> 5 / 1000 | Some c \<Rightarrow> if LR c = 0 then 5 / 1000 else LR c)"
  "Reg (withDefaults cfg) =
     (case cfg of None \<Rightarrow> 2 / 100 | Some c \<Rightarrow> if Reg c = 0 then 2 / 100 else Reg c)"
  "InitMean (withDefaults cfg) = (case cfg of None \<Rightarrow> 0 | Some c \<Rightarrow> InitMean c)"
  "Verbose (withDefaults cfg) = (case cfg of None \<Rightarrow> False | Some c \<Rightarrow> Verbose c)"
  by (simp_all add: withDefaults_def Let_def split: option.splits)

lemma withDefaults_idem: "withDefaults (Some (withDefaults cfg)) = withDefaults cfg"
  by (rule SVDConfig.equality) (simp_all add: withDefaults_fields split: option.splits)

lemma randMat_ok:
  "0 < r \<Longrightarrow> 0 < c \<Longrightarrow>
   randMat g mean sd r c pos =
     Inr (\<lparr>rows = nat r, cols = nat c,
           mdata = map (\<lambda>k. g (pos + k) * sd + mean) [0..<nat (r * c)]\<rparr>, pos + nat (r * c))"
  by (simp add: randMat_def NewDense_def Let_def mult_less_0_iff not_less)

lemma NewSVD_config:
  "NewSVD d cfg g pos = Inr (m, pos') \<Longrightarrow> Config m = withDefaults cfg \<and> Dataset m = d"
  by (auto simp: NewSVD_def Let_def bind_def split: sum.splits prod.splits)

lemma withDefaults_Some: "withDefaults (Some c) = spec_config c"
  by (rule SVDConfig.equality) (simp_all add: withDefaults_fields spec_config_def)

lemma foldl_plus: "foldl (\<lambda>sum x. sum + x) a s = a + sum_list s" for a :: real
  by (induction s arbitrary: a) simp_all

lemma mean32_sum: "mean32 s = sum_list s / real (length s)"
  by (simp add: mean32_def foldl_plus)

lemma NewSVD_fresh:
  assumes "UserMap d \<noteq> []" "ItemMap d \<noteq> []" "0 < NumFactors (withDefaults cfg)"
  shows "NewSVD d cfg g pos =
     Inr (spec_fresh d (withDefaults cfg) g pos, pos + draws d (withDefaults cfg))"
proof -
  have u: "0 < int (length (UserMap d))" and i: "0 < int (length (ItemMap d))"
    using assms(1,2) by simp_all
  show ?thesis
    unfolding NewSVD_def Let_def spec_fresh_def draws_def
    by (simp add: randMat_ok[OF u assms(3)] randMat_ok[OF i assms(3)] nat_mult_distrib
        mean32_sum add_mult_distrib)
qed

lemma wfDataset_appendAll: "wfDataset (appendAll NewDataset ts)"
proof -
  have e: "goodMap []" by (rule goodMap_empty)
  show ?thesis
    unfolding wfDataset_def appendAll_encode
    using encodeSeq_good[OF e] encodeSeq_bound[OF e]
    by (simp add: NewDataset_def encodeSeq_length list_all_iff)
qed

lemma goodMap_values: "goodMap m \<Longrightarrow> (k, v) \<in> set m \<Longrightarrow> v < length m"
proof -
  assume g: "goodMap m" and "(k, v) \<in> set m"
  then have "v \<in> set (map snd m)" by force
  with g show ?thesis by (simp add: goodMap_def)
qed

lemma wfDataset_maps:
  assumes "wfDataset d" "Ratings d \<noteq> []"
  shows "UserMap d \<noteq> []" "ItemMap d \<noteq> []"
proof -
  from assms(1) have l: "length (Users d) = length (Ratings d)"
    "length (Items d) = length (Ratings d)"
    and U: "list_all (\<lambda>u. u < length (UserMap d)) (Users d)"
    and I: "list_all (\<lambda>i. i < length (ItemMap d)) (Items d)"
    by (simp_all add: wfDataset_def)
  from l assms(2) obtain u us i "is" where "Users d = u # us" "Items d = i # is"
    by (metis length_0_conv neq_Nil_conv)
  with U I show "UserMap d \<noteq> []" "ItemMap d \<noteq> []" by auto
qed

lemma spec_fresh_wf:
  assumes "wfDataset d"
  shows "wfSVD (spec_fresh d c g pos)" "wfPredict (spec_fresh d c g pos)"
proof -
  from assms have l: "length (Users d) = length (Ratings d)"
    "length (Items d) = length (Ratings d)"
    and U: "list_all (\<lambda>u. u < length (UserMap d)) (Users d)"
    and I: "list_all (\<lambda>i. i < length (ItemMap d)) (Items d)"
    and g: "goodMap (UserMap d)" "goodMap (ItemMap d)"
    by (simp_all add: wfDataset_def)
  show "wfSVD (spec_fresh d c g pos)"
    unfolding wfSVD_def spec_fresh_def Let_def using l U I by simp
  show "wfPredict (spec_fresh d c g pos)"
    unfolding wfPredict_def spec_fresh_def Let_def using g
    by (auto simp: list_all_iff dest: goodMap_values)
qed

lemma wfPredict_step: "wfPredict m \<Longrightarrow> wfPredict (spec_step m obs)"
  by (cases obs) (simp add: wfPredict_def spec_step_def Let_def)

lemma wfPredict_fit: "wfPredict m \<Longrightarrow> wfPredict (spec_fit m n)"
proof -
  assume w: "wfPredict m"
  have f: "wfPredict (foldl spec_step m' os)" if "wfPredict m'" for m' os
    using that by (induction os arbitrary: m') (simp_all add: wfPredict_step)
  show ?thesis
    by (induction n) (simp_all add: spec_fit_def w spec_epoch_def f)
qed

lemma SVD_Predict_spec:
  assumes "wfPredict m"
  shows "SVD_Predict m u i = Inr (spec_predict m u i)"
proof -
  have U: "uid < length (BU m) \<and> uid < rows (PU m)"
    if "map_of (UserMap (Dataset m)) u = Some uid" for uid
    using assms map_of_SomeD[OF that] by (auto simp: wfPredict_def list_all_iff)
  have I: "iid < length (BI m) \<and> iid < rows (QI m)"
    if "map_of (ItemMap (Dataset m)) i = Some iid" for iid
    using assms map_of_SomeD[OF that] by (auto simp: wfPredict_def list_all_iff)
  from assms have c: "cols (PU m) = cols (QI m)"
    "length (mdata (PU m)) = rows (PU m) * cols (PU m)"
    "length (mdata (QI m)) = rows (QI m) * cols (QI m)" by (simp_all add: wfPredict_def)
  show ?thesis
  proof (cases "map_of (UserMap (Dataset m)) u")
    case None
    note nu = this
    show ?thesis
    proof (cases "map_of (ItemMap (Dataset m)) i")
      case None
      with nu show ?thesis by (simp add: SVD_Predict_none spec_predict_def)
    next
      case (Some iid)
      with nu I[OF Some] show ?thesis by (simp add: SVD_Predict_item spec_predict_def)
    qed
  next
    case (Some uid)
    note su = this
    show ?thesis
    proof (cases "map_of (ItemMap (Dataset m)) i")
      case None
      with su U[OF su] show ?thesis by (simp add: SVD_Predict_user spec_predict_def)
    next
      case (Some iid)
      with su U[OF su] I[OF Some] c show ?thesis
        by (simp add: SVD_Predict_both spec_predict_def)
    qed
  qed
qed

lemma map_of_swap_find:
  "map_of (map (\<lambda>(k, v). (v, k)) m) v = map_option fst (find (\<lambda>kv. snd kv = v) m)"
  by (induction m) (auto split: prod.splits)

lemma reverseMap_nameOf:
  assumes "goodMap m" "v < length m"
  shows "map_of (reverseMap m) v = Some (nameOf m v)"
proof -
  from assms have "v \<in> set (map snd m)" by (simp add: goodMap_def)
  then have "\<exists>kv\<in>set m. snd kv = v" by auto
  then obtain kv where "find (\<lambda>kv. snd kv = v) m = Some kv"
    by (cases "find (\<lambda>kv. snd kv = v) m") (auto simp: find_None_iff)
  then show ?thesis by (simp add: reverseMap_def map_of_swap_find nameOf_def)
qed

text \<open>The strings that \<open>nameOf\<close> gives are the original ones: the map sends them back to
  the id.\<close>

lemma find_SomeD: "find P xs = Some x \<Longrightarrow> x \<in> set xs \<and> P x"
  by (induction xs) (simp_all split: if_splits)

lemma nameOf_lookup:
  assumes "goodMap m" "v < length m"
  shows "map_of m (nameOf m v) = Some v"
proof -
  from assms have "v \<in> set (map snd m)" by (simp add: goodMap_def)
  then have "\<exists>kv\<in>set m. snd kv = v" by auto
  then obtain kv where f: "find (\<lambda>kv. snd kv = v) m = Some kv"
    by (cases "find (\<lambda>kv. snd kv = v) m") (auto simp: find_None_iff)
  from find_SomeD[OF f] have k: "kv \<in> set m" "snd kv = v" by simp_all
  have n: "nameOf m v = fst kv" using f by (simp add: nameOf_def)
  have "(fst kv, snd kv) \<in> set m" using k(1) by simp
  then have "(nameOf m v, v) \<in> set m" unfolding n k(2) .
  moreover from assms(1) have "distinct (map fst m)" by (simp add: goodMap_def)
  ultimately show ?thesis by simp
qed

lemma wfDataset_obs:
  assumes "wfDataset d" "j < length (Ratings d)"
  shows "j < length (Users d)" "j < length (Items d)"
    "Users d ! j < length (UserMap d)" "Items d ! j < length (ItemMap d)"
proof -
  from assms show j: "j < length (Users d)" "j < length (Items d)"
    by (simp_all add: wfDataset_def)
  then have "Users d ! j \<in> set (Users d)" "Items d ! j \<in> set (Items d)" by simp_all
  with assms(1) show "Users d ! j < length (UserMap d)" "Items d ! j < length (ItemMap d)"
    by (simp_all add: wfDataset_def list_all_iff)
qed

lemma score_loop:
  assumes t: "wfDataset testset" and m: "wfPredict m"
  shows "n \<le> length (Ratings testset) \<Longrightarrow>
      forEach [0..<n] ([], []) (\<lambda>idx (actual, pred).
             let r = Ratings testset ! idx in
             bind (index (Users testset) idx) (\<lambda>uid.
             case map_of (reverseMap (UserMap testset)) uid of
               None \<Rightarrow> Inl (Fatal ''user id not found in reverse map'')
             | Some u \<Rightarrow>
                 bind (index (Items testset) idx) (\<lambda>iid.
                 case map_of (reverseMap (ItemMap testset)) iid of
                   None \<Rightarrow> Inl (Fatal ''item id not found in reverse map'')
                 | Some i \<Rightarrow>
                     bind (SVD_Predict m u i) (\<lambda>p.
                     Inr (actual @ [r], pred @ [p])))))
        = Inr (take n (Ratings testset),
               map (\<lambda>k. spec_predict m (nameOf (UserMap testset) (Users testset ! k))
                          (nameOf (ItemMap testset) (Items testset ! k))) [0..<n])"
  (is "_ \<Longrightarrow> forEach _ _ ?body = _")
proof (induction n)
  case 0
  then show ?case by simp
next
  case (Suc n)
  then have n: "n < length (Ratings testset)" by simp
  from Suc have
    IH: "forEach [0..<n] ([], []) ?body
      = Inr (take n (Ratings testset),
             map (\<lambda>k. spec_predict m (nameOf (UserMap testset) (Users testset ! k))
                          (nameOf (ItemMap testset) (Items testset ! k))) [0..<n])"
    by simp
  note o = wfDataset_obs[OF t n]
  from t have g: "goodMap (UserMap testset)" "goodMap (ItemMap testset)"
    by (simp_all add: wfDataset_def)
  note u = reverseMap_nameOf[OF g(1) o(3)]
  note i = reverseMap_nameOf[OF g(2) o(4)]
  show ?case
    unfolding forEach_upt_Suc IH
    using o(1,2) n by (simp add: u i SVD_Predict_spec[OF m] take_Suc_conv_app_nth)
qed


lemma testModel_spec:
  assumes tr: "wfDataset trainset" "Ratings trainset \<noteq> []"
    and te: "wfDataset testset"
    and nf: "0 < NumFactors (spec_config config)"
  shows "testModel trainset testset numEpochs config
      (reverseMap (UserMap testset)) (reverseMap (ItemMap testset)) g pos
    = Inr (spec_loss (spec_fit (spec_fresh trainset (spec_config config) g pos) (nat numEpochs))
             testset,
           pos + draws trainset (spec_config config))"
proof -
  let ?fresh = "spec_fresh trainset (spec_config config) g pos"
  let ?m = "spec_fit ?fresh (nat numEpochs)"
  let ?preds = "map (\<lambda>k. spec_predict ?m (nameOf (UserMap testset) (Users testset ! k))
                          (nameOf (ItemMap testset) (Items testset ! k)))
                  [0..<length (Ratings testset)]"
  have new: "NewSVD trainset (Some config) g pos
      = Inr (?fresh, pos + draws trainset (spec_config config))"
    using NewSVD_fresh[OF wfDataset_maps[OF tr], of "Some config" g pos] nf
    by (simp add: withDefaults_Some)
  have fit: "SVD_Fit ?fresh numEpochs = Inr ?m"
    by (rule SVD_Fit_refines[OF spec_fresh_wf(1)[OF tr(1)]])
  have wp: "wfPredict ?m" by (rule wfPredict_fit[OF spec_fresh_wf(2)[OF tr(1)]])
  have loop: "forEach [0..<length (Ratings testset)] ([], []) (\<lambda>idx (actual, pred).
             let r = Ratings testset ! idx in
             bind (index (Users testset) idx) (\<lambda>uid.
             case map_of (reverseMap (UserMap testset)) uid of
               None \<Rightarrow> Inl (Fatal ''user id not found in reverse map'')
             | Some u \<Rightarrow>
                 bind (index (Items testset) idx) (\<lambda>iid.
                 case map_of (reverseMap (ItemMap testset)) iid of
                   None \<Rightarrow> Inl (Fatal ''item id not found in reverse map'')
                 | Some i \<Rightarrow>
                     bind (SVD_Predict ?m u i) (\<lambda>p.
                     Inr (actual @ [r], pred @ [p])))))
        = Inr (Ratings testset, ?preds)"
    using score_loop[OF te wp, of "length (Ratings testset)"] by simp
  have lp: "length ?preds = length (Ratings testset)" by simp
  have loss: "RMSE ?preds (Ratings testset) = Inr (spec_loss ?m testset)"
    unfolding RMSE_equal[OF lp] spec_loss_def by simp
  show ?thesis
    unfolding testModel_def new bind_Inr prod.case fit loop loss by simp
qed

lemma forEach_map: "forEach (map h xs) st body = forEach xs st (\<lambda>x. body (h x))"
  by (induction xs arbitrary: st) (simp_all split: sum.splits)

lemma forEach_concat:
  "forEach (concat xss) st body = forEach xss st (\<lambda>xs st. forEach xs st body)"
  by (induction xss arbitrary: st) (simp_all add: forEach_append bind_def split: sum.splits)

lemma grid_nest_flat:
  "forEach (p_NumEpochs p) st (\<lambda>numEpochs st.
     forEach (p_NumFactors p) st (\<lambda>numFactors st.
       forEach (p_Reg p) st (\<lambda>reg st.
         forEach (p_LR p) st (\<lambda>lr st.
           forEach (p_InitStdDev p) st (\<lambda>initStdDev st.
             F numEpochs numFactors reg lr initStdDev st)))))
   = forEach (combinations p) st (\<lambda>c st. case c of (ne, nf, rg, lr, sd) \<Rightarrow> F ne nf rg lr sd st)"
  by (simp add: combinations_def forEach_concat forEach_map)



lemma combinations_member:
  "(ne, nf, rg, lr, sd) \<in> set (combinations p) \<longleftrightarrow>
     ne \<in> set (p_NumEpochs p) \<and> nf \<in> set (p_NumFactors p) \<and> rg \<in> set (p_Reg p) \<and>
     lr \<in> set (p_LR p) \<and> sd \<in> set (p_InitStdDev p)"
  unfolding combinations_def by (simp add: image_iff)

lemma gridStep_spec:
  assumes tr: "wfDataset trainset" "Ratings trainset \<noteq> []"
    and te: "wfDataset testset"
    and nf: "0 \<le> nf"
  shows "gridStep trainset testset (reverseMap (UserMap testset)) (reverseMap (ItemMap testset)) g
      ne nf rg lr sd (tests, pos)
    = Inr (tests @ [spec_result (ne, nf, rg, lr, sd)
                      (spec_loss (spec_model trainset g pos (ne, nf, rg, lr, sd)) testset)],
           pos + draws trainset (spec_config (gridConfig (ne, nf, rg, lr, sd))))"
proof -
  let ?c = "gridConfig (ne, nf, rg, lr, sd)"
  have p: "0 < NumFactors (spec_config ?c)"
    using nf by (simp add: spec_config_def gridConfig_def)
  have c: "\<lparr>NumFactors = nf, InitMean = 0, InitStdDev = sd, LR = lr, Reg = rg,
      Verbose = False\<rparr> = ?c" by (simp add: gridConfig_def)
  show ?thesis
    unfolding gridStep_def prod.case Let_def c testModel_spec[OF tr te p]
    by (simp add: spec_result_def spec_model_def)
qed

lemma grid_loop:
  assumes tr: "wfDataset trainset" "Ratings trainset \<noteq> []"
    and te: "wfDataset testset"
  shows "list_all (\<lambda>c. 0 \<le> fst (snd c)) cs \<Longrightarrow>
    forEach cs (tests, pos) (\<lambda>c st. case c of (ne, nf, rg, lr, sd) \<Rightarrow>
      gridStep trainset testset (reverseMap (UserMap testset)) (reverseMap (ItemMap testset)) g
        ne nf rg lr sd st)
    = Inr (tests @ spec_grid trainset testset g pos cs,
           pos + sum_list (map (\<lambda>c. draws trainset (spec_config (gridConfig c))) cs))"
proof (induction cs arbitrary: tests pos)
  case Nil
  then show ?case by simp
next
  case (Cons c cs)
  obtain ne nf rg lr sd where c: "c = (ne, nf, rg, lr, sd)" by (cases c)
  from Cons.prems have nf: "0 \<le> nf" and rest: "list_all (\<lambda>c. 0 \<le> fst (snd c)) cs"
    by (simp_all add: c)
  show ?case
    unfolding c forEach.simps prod.case gridStep_spec[OF tr te nf] bind_Inr sum.case
      Cons.IH[OF rest]
    by (simp add: add.assoc)
qed

lemma GridSearch_spec:
  assumes tr: "wfDataset trainset" "Ratings trainset \<noteq> []"
    and te: "wfDataset testset"
    and ne: "p_NumEpochs p \<noteq> []" "p_NumFactors p \<noteq> []" "p_Reg p \<noteq> []" "p_LR p \<noteq> []"
      "p_InitStdDev p \<noteq> []"
    and nf: "list_all (\<lambda>nf. 0 \<le> nf) (p_NumFactors p)"
  shows "GridSearch trainset testset p g pos
    = Inr (spec_grid trainset testset g pos (combinations p),
           positionOf trainset pos (combinations p) (length (combinations p)))"
proof -
  have "\<not> length (p_NumEpochs p) * length (p_NumFactors p) * length (p_Reg p)
                     * length (p_LR p) * length (p_InitStdDev p) < 1"
    using ne by simp
  then have G: "GridSearch trainset testset p g pos
    = forEach (combinations p) ([], pos) (\<lambda>c st. case c of (ne, nf, rg, lr, sd) \<Rightarrow>
      gridStep trainset testset (reverseMap (UserMap testset)) (reverseMap (ItemMap testset)) g
        ne nf rg lr sd st)"
    unfolding GridSearch_def Let_def grid_nest_flat by simp
  have "list_all (\<lambda>c. 0 \<le> fst (snd c)) (combinations p)"
    using nf by (auto simp: list_all_iff combinations_member)
  from grid_loop[OF tr te this, of "[]" pos g] show ?thesis
    unfolding G by (simp add: positionOf_def)
qed

lemma spec_grid_length: "length (spec_grid trainset testset g pos cs) = length cs"
  by (induction cs arbitrary: pos) simp_all

lemma spec_grid_nth:
  "k < length cs \<Longrightarrow>
   spec_grid trainset testset g pos cs ! k
     = spec_result (cs ! k)
         (spec_loss (spec_model trainset g (positionOf trainset pos cs k) (cs ! k)) testset)"
proof (induction cs arbitrary: pos k)
  case Nil
  then show ?case by simp
next
  case (Cons c cs)
  show ?case
  proof (cases k)
    case 0
    then show ?thesis by (simp add: positionOf_def)
  next
    case (Suc j)
    with Cons.prems have "j < length cs" by simp
    from Cons.IH[OF this] show ?thesis
      by (simp add: Suc positionOf_def add.assoc)
  qed
qed

lemma spec_result_echoes: "echoes c (spec_result c loss)" "t_Loss (spec_result c loss) = loss"
  by (cases c; simp add: echoes_def spec_result_def)+

lemma exampleTrain_appended:
  "appendAll NewDataset [(''a'', ''x'', 5), (''b'', ''x'', 1)] = exampleTrain"
  by (simp add: appendAll_def Append_def getInternalIDs_def lookupOrAdd_def NewDataset_def
      exampleTrain_def)

lemma exampleTest_appended:
  "appendAll NewDataset [(''b'', ''x'', 3)] = exampleTest"
  by (simp add: appendAll_def Append_def getInternalIDs_def lookupOrAdd_def NewDataset_def
      exampleTest_def)

lemma example_wf: "wfDataset exampleTrain" "wfDataset exampleTest"
  "Ratings exampleTrain \<noteq> []" "Ratings exampleTest \<noteq> []"
  using wfDataset_appendAll[of "[(''a'', ''x'', 5), (''b'', ''x'', 1)]"]
    wfDataset_appendAll[of "[(''b'', ''x'', 3)]"]
  unfolding exampleTrain_appended exampleTest_appended
  by (simp_all add: exampleTrain_def exampleTest_def)

lemma small_fresh:
  "spec_fresh exampleTrain (spec_config (gridConfig (1, 1, 0, 1 / 2, 1))) (\<lambda>k. 1) 0 =
     \<lparr>Dataset = exampleTrain,
      PU = \<lparr>rows = 2, cols = 1, mdata = [1, 1]\<rparr>,
      QI = \<lparr>rows = 1, cols = 1, mdata = [1]\<rparr>,
      BU = [0, 0], BI = [0], GlobalMean = 3,
      Config = \<lparr>NumFactors = 1, InitMean = 0, InitStdDev = 1, LR = 1 / 2,
                Reg = 2 / 100, Verbose = False\<rparr>\<rparr>"
  by (simp add: spec_fresh_def spec_config_def gridConfig_def exampleTrain_def Let_def
      upt_rec numeral_2_eq_2)

lemma small_model:
  "spec_model exampleTrain (\<lambda>k. 1) 0 (1, 1, 0, 1 / 2, 1) =
     \<lparr>Dataset = exampleTrain,
      PU = \<lparr>rows = 2, cols = 1, mdata = [149 / 100, - 39651 / 20000]\<rparr>,
      QI = \<lparr>rows = 1, cols = 1, mdata = [- 5199 / 10000]\<rparr>,
      BU = [1 / 2, - 399 / 200], BI = [- 3 / 2], GlobalMean = 3,
      Config = \<lparr>NumFactors = 1, InitMean = 0, InitStdDev = 1, LR = 1 / 2,
                Reg = 2 / 100, Verbose = False\<rparr>\<rparr>"
  unfolding spec_model_def small_fresh
  by (simp add: spec_fit_def spec_epoch_def observations_def spec_step_def spec_err_def
      entry_def updRow_def Let_def exampleTrain_def)

lemma small_loss:
  "spec_loss (spec_model exampleTrain (\<lambda>k. 1) 0 (1, 1, 0, 1 / 2, 1)) exampleTest
     = 492854451 / 200000000"
proof -
  have p: "spec_predict (spec_model exampleTrain (\<lambda>k. 1) 0 (1, 1, 0, 1 / 2, 1)) ''b'' ''x''
      = 107145549 / 200000000"
    unfolding small_model by (simp add: spec_predict_def exampleTrain_def entry_def)
  have n: "nameOf [(''b'', 0)] 0 = ''b''" "nameOf [(''x'', 0)] 0 = ''x''"
    by (simp_all add: nameOf_def)
  have "spec_loss (spec_model exampleTrain (\<lambda>k. 1) 0 (1, 1, 0, 1 / 2, 1)) exampleTest
      = sqrt ((492854451 / 200000000)\<^sup>2)"
    unfolding spec_loss_def by (simp add: exampleTest_def n p)
  then show ?thesis by simp
qed

lemma small_combinations: "combinations smallParams = [(1, 1, 0, 1 / 2, 1)]"
  by (simp add: combinations_def smallParams_def)






section \<open>SVD++: the constructor builds a model that fits its Dataset\<close>

lemma userItems_nonempty:
  assumes "length (Users d) = length (Items d)" "u \<in> set (Users d)"
  shows "userItems d u \<noteq> []"
proof -
  from assms(2) obtain j where j: "j < length (Users d)" "Users d ! j = u"
    by (auto simp: in_set_conv_nth)
  with assms(1) have "(u, Items d ! j) \<in> set (zip (Users d) (Items d))"
    by (auto simp: set_zip)
  then have "(u, Items d ! j) \<in> set (filter (\<lambda>p. fst p = u) (zip (Users d) (Items d)))"
    by simp
  then show ?thesis unfolding userItems_def by (metis empty_iff empty_set map_is_Nil_conv)
qed

lemma userItems_subset: "set (userItems d u) \<subseteq> set (Items d)"
  by (auto simp: userItems_def dest: set_zip_rightD)

lemma NewSVDpp_wf:
  assumes "wfDataset d" "Ratings d \<noteq> []" "0 < NumFactors (withDefaults cfg)"
  shows "\<exists>m pos'. NewSVDpp d cfg g pos = Inr (m, pos') \<and> Dataset m = d \<and>
     Config m = withDefaults cfg \<and> wfSVDpp m"
proof -
  from assms(1) have l: "length (Users d) = length (Ratings d)"
    "length (Items d) = length (Ratings d)"
    and U: "list_all (\<lambda>u. u < length (UserMap d)) (Users d)"
    and I: "list_all (\<lambda>i. i < length (ItemMap d)) (Items d)"
    by (simp_all add: wfDataset_def)
  from l assms(2) obtain u us i "is" where "Users d = u # us" "Items d = i # is"
    by (metis length_0_conv neq_Nil_conv)
  with U I have ne: "0 < int (length (UserMap d))" "0 < int (length (ItemMap d))" by auto
  from buildIU_ok[OF l assms(2)] obtain iu where
    iu: "buildIU d = Inr iu" "\<And>u. history iu u = userItems d u" by blast
  let ?c = "withDefaults cfg"
  let ?n = "nat (NumFactors ?c)"
  let ?mat = "\<lambda>r pos. \<lparr>rows = r, cols = ?n,
      mdata = map (\<lambda>k. g (pos + k) * InitStdDev ?c + InitMean ?c) [0..<r * ?n]\<rparr>"
  let ?nu = "length (UserMap d)" and ?ni = "length (ItemMap d)"
  let ?m = "\<lparr>Dataset = d, PU = ?mat ?nu pos, QI = ?mat ?ni (pos + ?nu * ?n),
      BU = replicate ?nu 0, BI = replicate ?ni 0, GlobalMean = mean32 (Ratings d), Config = ?c,
      YJ = ?mat ?ni (pos + ?nu * ?n + ?ni * ?n), IU = iu\<rparr>"
  have N: "NewSVDpp d cfg g pos = Inr (?m, pos + ?nu * ?n + ?ni * ?n + ?ni * ?n)"
    unfolding NewSVDpp_def Let_def iu(1)
    by (simp add: randMat_ok[OF ne(1) assms(3)] randMat_ok[OF ne(2) assms(3)] nat_mult_distrib)
  have h: "history iu u \<noteq> [] \<and> list_all (\<lambda>j. j < ?ni) (history iu u)" if "u \<in> set (Users d)" for u
    using userItems_nonempty[of d u] userItems_subset[of d u] that l I
    by (auto simp: iu(2) list_all_iff)
  have "wfSVDpp ?m"
    unfolding wfSVDpp_def using l U I h assms(3) by (simp add: list_all_iff)
  with N show ?thesis by (intro exI[of _ ?m] exI) simp
qed

section \<open>Defaults\<close>

lemma NewSVDpp_config:
  "NewSVDpp d cfg g pos = Inr (m, pos') \<Longrightarrow> Config m = withDefaults cfg \<and> Dataset m = d"
  by (auto simp: NewSVDpp_def Let_def bind_def split: sum.splits prod.splits)

lemma defaults_positive:
  "(case cfg of None \<Rightarrow> True | Some c \<Rightarrow> 0 \<le> NumFactors c) \<Longrightarrow> 0 < NumFactors (withDefaults cfg)"
  by (simp add: withDefaults_fields split: option.splits)

lemma spec_model_config:
  "Config (spec_model trainset g pos c) = spec_config (gridConfig c)"
  unfolding spec_model_def using spec_fit_frame by (simp add: spec_fresh_def Let_def)

lemma grid_defaults:
  assumes "echoes c t"
  shows "t_NumFactors t = 0 \<longrightarrow> NumFactors (spec_config (gridConfig c)) = 50"
    "t_InitStdDev t = 0 \<longrightarrow> InitStdDev (spec_config (gridConfig c)) = 1 / 10"
    "t_LR t = 0 \<longrightarrow> LR (spec_config (gridConfig c)) = 5 / 1000"
    "t_Reg t = 0 \<longrightarrow> Reg (spec_config (gridConfig c)) = 2 / 100"
  using assms by (cases c; simp add: echoes_def gridConfig_def spec_config_def)+

text \<open>
  C9. A nil config is completed to factor count 50, init stddev 0.1, learning rate 0.005
  and regularisation 0.02; in a given config every zero field among these four takes its
  default and the other fields are kept. A model that \<open>NewSVD\<close> or \<open>NewSVDpp\<close> returns has
  the completed config. For a non-empty Dataset as \<open>Append\<close> builds it, and a nil config
  or a config whose factor count is not negative, both constructors return, so a zero
  field is no error, and \<open>NewSVD\<close> returns the specification's fresh model for the
  completed config. \<open>testModel\<close> with a config is \<open>testModel\<close> with the completed config.
  In a grid search (under the conditions of C7) the \<open>k\<close>-th result echoes the \<open>k\<close>-th
  combination, zero candidates included, while its loss is that of the model which the
  specification's \<open>fit\<close> trains from the fresh model with the completed config: the
  config of that model has the default wherever the result shows a zero.
\<close>

theorem defaults_substituted:
  "withDefaults None =
     \<lparr>NumFactors = 50, InitMean = 0, InitStdDev = 1 / 10, LR = 5 / 1000, Reg = 2 / 100,
      Verbose = False\<rparr> \<and>
   withDefaults (Some c) =
     \<lparr>NumFactors = (if NumFactors c = 0 then 50 else NumFactors c),
      InitMean = InitMean c,
      InitStdDev = (if InitStdDev c = 0 then 1 / 10 else InitStdDev c),
      LR = (if LR c = 0 then 5 / 1000 else LR c),
      Reg = (if Reg c = 0 then 2 / 100 else Reg c),
      Verbose = Verbose c\<rparr> \<and>
   (\<forall>m pos'. NewSVD d cfg g pos = Inr (m, pos') \<longrightarrow> Config m = withDefaults cfg) \<and>
   (\<forall>m pos'. NewSVDpp d cfg g pos = Inr (m, pos') \<longrightarrow> Config m = withDefaults cfg) \<and>
   (wfDataset d \<and> Ratings d \<noteq> [] \<and> (case cfg of None \<Rightarrow> True | Some c \<Rightarrow> 0 \<le> NumFactors c) \<longrightarrow>
      NewSVD d cfg g pos
        = Inr (spec_fresh d (withDefaults cfg) g pos, pos + draws d (withDefaults cfg)) \<and>
      (\<exists>m pos'. NewSVDpp d cfg g pos = Inr (m, pos') \<and> Config m = withDefaults cfg)) \<and>
   testModel trainset testset ne c um im g pos
     = testModel trainset testset ne (withDefaults (Some c)) um im g pos \<and>
   (wfDataset trainset \<and> Ratings trainset \<noteq> [] \<and> wfDataset testset \<and> Ratings testset \<noteq> [] \<and>
    p_NumEpochs p \<noteq> [] \<and> p_NumFactors p \<noteq> [] \<and> p_Reg p \<noteq> [] \<and> p_LR p \<noteq> [] \<and>
    p_InitStdDev p \<noteq> [] \<and> list_all (\<lambda>nf. 0 \<le> nf) (p_NumFactors p) \<longrightarrow>
    (\<exists>rs pos'.
       GridSearch trainset testset p g pos = Inr (rs, pos') \<and>
       length rs = length (combinations p) \<and>
       (\<forall>k<length rs.
          echoes (combinations p ! k) (rs ! k) \<and>
          t_Loss (rs ! k)
            = spec_loss
                (spec_fit
                   (spec_fresh trainset (spec_config (gridConfig (combinations p ! k))) g
                      (positionOf trainset pos (combinations p) k))
                   (nat (t_NumEpochs (rs ! k))))
                testset \<and>
          Config (spec_fresh trainset (spec_config (gridConfig (combinations p ! k))) g
                    (positionOf trainset pos (combinations p) k))
            = withDefaults (Some (gridConfig (combinations p ! k))) \<and>
          (t_NumFactors (rs ! k) = 0 \<longrightarrow>
             NumFactors (withDefaults (Some (gridConfig (combinations p ! k)))) = 50) \<and>
          (t_Reg (rs ! k) = 0 \<longrightarrow>
             Reg (withDefaults (Some (gridConfig (combinations p ! k)))) = 2 / 100) \<and>
          (t_LR (rs ! k) = 0 \<longrightarrow>
             LR (withDefaults (Some (gridConfig (combinations p ! k)))) = 5 / 1000) \<and>
          (t_InitStdDev (rs ! k) = 0 \<longrightarrow>
             InitStdDev (withDefaults (Some (gridConfig (combinations p ! k)))) = 1 / 10))))"
proof (intro conjI)
  show "withDefaults None =
     \<lparr>NumFactors = 50, InitMean = 0, InitStdDev = 1 / 10, LR = 5 / 1000, Reg = 2 / 100,
      Verbose = False\<rparr>"
    by (simp add: withDefaults_def)
  show "withDefaults (Some c) =
     \<lparr>NumFactors = (if NumFactors c = 0 then 50 else NumFactors c),
      InitMean = InitMean c,
      InitStdDev = (if InitStdDev c = 0 then 1 / 10 else InitStdDev c),
      LR = (if LR c = 0 then 5 / 1000 else LR c),
      Reg = (if Reg c = 0 then 2 / 100 else Reg c),
      Verbose = Verbose c\<rparr>"
    by (rule SVDConfig.equality) (simp_all add: withDefaults_fields)
  show "\<forall>m pos'. NewSVD d cfg g pos = Inr (m, pos') \<longrightarrow> Config m = withDefaults cfg"
    using NewSVD_config by blast
  show "\<forall>m pos'. NewSVDpp d cfg g pos = Inr (m, pos') \<longrightarrow> Config m = withDefaults cfg"
    using NewSVDpp_config by blast
  show "wfDataset d \<and> Ratings d \<noteq> [] \<and> (case cfg of None \<Rightarrow> True | Some c \<Rightarrow> 0 \<le> NumFactors c) \<longrightarrow>
      NewSVD d cfg g pos
        = Inr (spec_fresh d (withDefaults cfg) g pos, pos + draws d (withDefaults cfg)) \<and>
      (\<exists>m pos'. NewSVDpp d cfg g pos = Inr (m, pos') \<and> Config m = withDefaults cfg)"
  proof (intro impI conjI)
    assume a: "wfDataset d \<and> Ratings d \<noteq> [] \<and>
      (case cfg of None \<Rightarrow> True | Some c \<Rightarrow> 0 \<le> NumFactors c)"
    then have w: "wfDataset d" "Ratings d \<noteq> []" by simp_all
    from a have nf: "0 < NumFactors (withDefaults cfg)" by (intro defaults_positive) simp
    show "NewSVD d cfg g pos
        = Inr (spec_fresh d (withDefaults cfg) g pos, pos + draws d (withDefaults cfg))"
      by (rule NewSVD_fresh[OF wfDataset_maps[OF w] nf])
    from NewSVDpp_wf[OF w nf, of g pos]
    show "\<exists>m pos'. NewSVDpp d cfg g pos = Inr (m, pos') \<and> Config m = withDefaults cfg"
      by blast
  qed
  show "testModel trainset testset ne c um im g pos
     = testModel trainset testset ne (withDefaults (Some c)) um im g pos"
    by (simp add: testModel_def NewSVD_def withDefaults_idem)
  show "wfDataset trainset \<and> Ratings trainset \<noteq> [] \<and> wfDataset testset \<and> Ratings testset \<noteq> [] \<and>
    p_NumEpochs p \<noteq> [] \<and> p_NumFactors p \<noteq> [] \<and> p_Reg p \<noteq> [] \<and> p_LR p \<noteq> [] \<and>
    p_InitStdDev p \<noteq> [] \<and> list_all (\<lambda>nf. 0 \<le> nf) (p_NumFactors p) \<longrightarrow>
    (\<exists>rs pos'.
       GridSearch trainset testset p g pos = Inr (rs, pos') \<and>
       length rs = length (combinations p) \<and>
       (\<forall>k<length rs.
          echoes (combinations p ! k) (rs ! k) \<and>
          t_Loss (rs ! k)
            = spec_loss
                (spec_fit
                   (spec_fresh trainset (spec_config (gridConfig (combinations p ! k))) g
                      (positionOf trainset pos (combinations p) k))
                   (nat (t_NumEpochs (rs ! k))))
                testset \<and>
          Config (spec_fresh trainset (spec_config (gridConfig (combinations p ! k))) g
                    (positionOf trainset pos (combinations p) k))
            = withDefaults (Some (gridConfig (combinations p ! k))) \<and>
          (t_NumFactors (rs ! k) = 0 \<longrightarrow>
             NumFactors (withDefaults (Some (gridConfig (combinations p ! k)))) = 50) \<and>
          (t_Reg (rs ! k) = 0 \<longrightarrow>
             Reg (withDefaults (Some (gridConfig (combinations p ! k)))) = 2 / 100) \<and>
          (t_LR (rs ! k) = 0 \<longrightarrow>
             LR (withDefaults (Some (gridConfig (combinations p ! k)))) = 5 / 1000) \<and>
          (t_InitStdDev (rs ! k) = 0 \<longrightarrow>
             InitStdDev (withDefaults (Some (gridConfig (combinations p ! k)))) = 1 / 10)))"
  proof
    assume a: "wfDataset trainset \<and> Ratings trainset \<noteq> [] \<and> wfDataset testset \<and>
      Ratings testset \<noteq> [] \<and>
      p_NumEpochs p \<noteq> [] \<and> p_NumFactors p \<noteq> [] \<and> p_Reg p \<noteq> [] \<and> p_LR p \<noteq> [] \<and>
      p_InitStdDev p \<noteq> [] \<and> list_all (\<lambda>nf. 0 \<le> nf) (p_NumFactors p)"
    let ?cs = "combinations p"
    let ?rs = "spec_grid trainset testset g pos ?cs"
    from a have G: "GridSearch trainset testset p g pos
        = Inr (?rs, positionOf trainset pos ?cs (length ?cs))"
      by (intro GridSearch_spec) simp_all
    have l: "length ?rs = length ?cs" by (rule spec_grid_length)
    have n: "echoes (?cs ! k) (?rs ! k) \<and>
          t_Loss (?rs ! k)
            = spec_loss
                (spec_fit
                   (spec_fresh trainset (spec_config (gridConfig (?cs ! k))) g
                      (positionOf trainset pos ?cs k))
                   (nat (t_NumEpochs (?rs ! k))))
                testset \<and>
          Config (spec_fresh trainset (spec_config (gridConfig (?cs ! k))) g
                    (positionOf trainset pos ?cs k))
            = withDefaults (Some (gridConfig (?cs ! k))) \<and>
          (t_NumFactors (?rs ! k) = 0 \<longrightarrow>
             NumFactors (withDefaults (Some (gridConfig (?cs ! k)))) = 50) \<and>
          (t_Reg (?rs ! k) = 0 \<longrightarrow>
             Reg (withDefaults (Some (gridConfig (?cs ! k)))) = 2 / 100) \<and>
          (t_LR (?rs ! k) = 0 \<longrightarrow>
             LR (withDefaults (Some (gridConfig (?cs ! k)))) = 5 / 1000) \<and>
          (t_InitStdDev (?rs ! k) = 0 \<longrightarrow>
             InitStdDev (withDefaults (Some (gridConfig (?cs ! k)))) = 1 / 10)"
      if "k < length ?rs" for k
    proof -
      from that have k: "k < length ?cs" by (simp add: l)
      note r = spec_grid_nth[OF k, of trainset testset g pos]
      have e: "echoes (?cs ! k) (?rs ! k)" unfolding r by (rule spec_result_echoes)
      have ne: "t_NumEpochs (?rs ! k) = fst (?cs ! k)"
        using e by (cases "?cs ! k") (simp add: echoes_def)
      have lo: "t_Loss (?rs ! k)
            = spec_loss
                (spec_fit
                   (spec_fresh trainset (spec_config (gridConfig (?cs ! k))) g
                      (positionOf trainset pos ?cs k))
                   (nat (t_NumEpochs (?rs ! k))))
                testset"
        unfolding ne unfolding r by (simp add: spec_result_echoes spec_model_def)
      have cf: "Config (spec_fresh trainset (spec_config (gridConfig (?cs ! k))) g
                    (positionOf trainset pos ?cs k))
            = withDefaults (Some (gridConfig (?cs ! k)))"
        by (simp add: spec_fresh_def Let_def withDefaults_Some)
      from e lo cf grid_defaults[OF e] show ?thesis
        unfolding withDefaults_Some by blast
    qed
    show "\<exists>rs pos'.
       GridSearch trainset testset p g pos = Inr (rs, pos') \<and>
       length rs = length (combinations p) \<and>
       (\<forall>k<length rs.
          echoes (combinations p ! k) (rs ! k) \<and>
          t_Loss (rs ! k)
            = spec_loss
                (spec_fit
                   (spec_fresh trainset (spec_config (gridConfig (combinations p ! k))) g
                      (positionOf trainset pos (combinations p) k))
                   (nat (t_NumEpochs (rs ! k))))
                testset \<and>
          Config (spec_fresh trainset (spec_config (gridConfig (combinations p ! k))) g
                    (positionOf trainset pos (combinations p) k))
            = withDefaults (Some (gridConfig (combinations p ! k))) \<and>
          (t_NumFactors (rs ! k) = 0 \<longrightarrow>
             NumFactors (withDefaults (Some (gridConfig (combinations p ! k)))) = 50) \<and>
          (t_Reg (rs ! k) = 0 \<longrightarrow>
             Reg (withDefaults (Some (gridConfig (combinations p ! k)))) = 2 / 100) \<and>
          (t_LR (rs ! k) = 0 \<longrightarrow>
             LR (withDefaults (Some (gridConfig (combinations p ! k)))) = 5 / 1000) \<and>
          (t_InitStdDev (rs ! k) = 0 \<longrightarrow>
             InitStdDev (withDefaults (Some (gridConfig (combinations p ! k)))) = 1 / 10))"
      by (intro exI[of _ ?rs] exI[of _ "positionOf trainset pos ?cs (length ?cs)"] conjI allI impI)
        (rule G l n[THEN conjunct1] n[THEN conjunct2, THEN conjunct1]
          n[THEN conjunct2, THEN conjunct2, THEN conjunct1]
          n[THEN conjunct2, THEN conjunct2, THEN conjunct2, THEN conjunct1, THEN mp]
          n[THEN conjunct2, THEN conjunct2, THEN conjunct2, THEN conjunct2, THEN conjunct1, THEN mp]
          n[THEN conjunct2, THEN conjunct2, THEN conjunct2, THEN conjunct2, THEN conjunct2,
            THEN conjunct1, THEN mp]
          n[THEN conjunct2, THEN conjunct2, THEN conjunct2, THEN conjunct2, THEN conjunct2,
            THEN conjunct2, THEN mp]; assumption)+
  qed
qed

theorem defaults_substituted_witness:
  "wfDataset exampleTrain \<and> wfDataset exampleTest \<and>
   (\<exists>m pos'. NewSVD exampleTrain None (\<lambda>k. 0) 0 = Inr (m, pos') \<and>
      NumFactors (Config m) = 50 \<and> InitStdDev (Config m) = 1 / 10 \<and>
      LR (Config m) = 5 / 1000 \<and> Reg (Config m) = 2 / 100 \<and> cols (PU m) = 50) \<and>
   (\<exists>m pos'. NewSVDpp exampleTrain None (\<lambda>k. 0) 0 = Inr (m, pos') \<and>
      NumFactors (Config m) = 50 \<and> InitStdDev (Config m) = 1 / 10 \<and>
      LR (Config m) = 5 / 1000 \<and> Reg (Config m) = 2 / 100) \<and>
   (\<exists>rs pos'. GridSearch exampleTrain exampleTest smallParams (\<lambda>k. 1) 0 = Inr (rs, pos') \<and>
      t_Reg (rs ! 0) = 0 \<and> t_Loss (rs ! 0) = 492854451 / 200000000)"
proof -
  note T = defaults_substituted [where d = exampleTrain and cfg = None and g = "\<lambda>k. 0"
      and pos = 0]
  note S = defaults_substituted [where g = "\<lambda>k. 1" and pos = 0 and trainset = exampleTrain
      and testset = exampleTest and p = smallParams]
  note T1 = T[THEN conjunct1]
  note T5 = T[THEN conjunct2, THEN conjunct2, THEN conjunct2, THEN conjunct2, THEN conjunct1]
  note S7 = S[THEN conjunct2, THEN conjunct2, THEN conjunct2, THEN conjunct2, THEN conjunct2,
      THEN conjunct2]
  have "wfDataset exampleTrain \<and> Ratings exampleTrain \<noteq> [] \<and>
    (case None :: SVDConfig option of None \<Rightarrow> True | Some c \<Rightarrow> 0 \<le> NumFactors c)"
    using example_wf by simp
  note C = T5[THEN mp, OF this]
  from C obtain m pos1 where
    m: "NewSVDpp exampleTrain None (\<lambda>k. 0) 0 = Inr (m, pos1)" "Config m = withDefaults None"
    by blast
  have A: "\<exists>m pos'. NewSVD exampleTrain None (\<lambda>k. 0) 0 = Inr (m, pos') \<and>
      NumFactors (Config m) = 50 \<and> InitStdDev (Config m) = 1 / 10 \<and>
      LR (Config m) = 5 / 1000 \<and> Reg (Config m) = 2 / 100 \<and> cols (PU m) = 50"
    by (intro exI conjI, rule C[THEN conjunct1]) (simp_all add: spec_fresh_def Let_def T1)
  have B: "\<exists>m pos'. NewSVDpp exampleTrain None (\<lambda>k. 0) 0 = Inr (m, pos') \<and>
      NumFactors (Config m) = 50 \<and> InitStdDev (Config m) = 1 / 10 \<and>
      LR (Config m) = 5 / 1000 \<and> Reg (Config m) = 2 / 100"
    by (intro exI[of _ m] exI[of _ pos1]) (simp add: m T1)
  have "wfDataset exampleTrain \<and> Ratings exampleTrain \<noteq> [] \<and> wfDataset exampleTest \<and>
    Ratings exampleTest \<noteq> [] \<and>
    p_NumEpochs smallParams \<noteq> [] \<and> p_NumFactors smallParams \<noteq> [] \<and>
    p_Reg smallParams \<noteq> [] \<and> p_LR smallParams \<noteq> [] \<and> p_InitStdDev smallParams \<noteq> [] \<and>
    list_all (\<lambda>nf. 0 \<le> nf) (p_NumFactors smallParams)"
    using example_wf by (simp add: smallParams_def)
  from S7[THEN mp, OF this] obtain rs pos' where
    r: "GridSearch exampleTrain exampleTest smallParams (\<lambda>k. 1) 0 = Inr (rs, pos')"
      "length rs = length (combinations smallParams)"
      "\<forall>k<length rs.
          echoes (combinations smallParams ! k) (rs ! k) \<and>
          t_Loss (rs ! k)
            = spec_loss
                (spec_fit
                   (spec_fresh exampleTrain (spec_config (gridConfig (combinations smallParams ! k)))
                      (\<lambda>k. 1) (positionOf exampleTrain 0 (combinations smallParams) k))
                   (nat (t_NumEpochs (rs ! k))))
                exampleTest"
    by blast
  from r(2) have "0 < length rs" by (simp add: small_combinations)
  from r(3)[rule_format, OF this]
  have e: "echoes (1, 1, 0, 1 / 2, 1) (rs ! 0)"
    and lo: "t_Loss (rs ! 0)
            = spec_loss
                (spec_fit
                   (spec_fresh exampleTrain (spec_config (gridConfig (1, 1, 0, 1 / 2, 1)))
                      (\<lambda>k. 1) (positionOf exampleTrain 0 [(1, 1, 0, 1 / 2, 1)] 0))
                   (nat (t_NumEpochs (rs ! 0))))
                exampleTest"
    unfolding small_combinations by simp_all
  from e have ne: "t_NumEpochs (rs ! 0) = 1" and rg: "t_Reg (rs ! 0) = 0"
    by (simp_all add: echoes_def)
  have po: "positionOf exampleTrain 0 [(1, 1, 0, 1 / 2, 1)] 0 = 0" by (simp add: positionOf_def)
  have sm: "spec_fit (spec_fresh exampleTrain (spec_config (gridConfig (1, 1, 0, 1 / 2, 1)))
                      (\<lambda>k. 1) 0) (nat 1)
      = spec_model exampleTrain (\<lambda>k. 1) 0 (1, 1, 0, 1 / 2, 1)"
    by (simp add: spec_model_def)
  have "t_Loss (rs ! 0) = 492854451 / 200000000"
    unfolding lo ne po sm small_loss ..
  with r(1) rg have D: "\<exists>rs pos'.
      GridSearch exampleTrain exampleTest smallParams (\<lambda>k. 1) 0 = Inr (rs, pos') \<and>
      t_Reg (rs ! 0) = 0 \<and> t_Loss (rs ! 0) = 492854451 / 200000000"
    by (intro exI[of _ rs] exI[of _ pos']) simp
  show ?thesis
    by (intro conjI) (rule example_wf A B D)+
qed

text \<open>With regularisation 0 in place of the default 0.02 the same model would end with
  another loss, 5/2: the result above is that of the default.\<close>

lemma small_loss_without_default:
  "spec_loss (spec_fit (spec_fresh exampleTrain (gridConfig (1, 1, 0, 1 / 2, 1)) (\<lambda>k. 1) 0) 1)
     exampleTest = 5 / 2"
proof -
  define M where
    "M = spec_fit (spec_fresh exampleTrain (gridConfig (1, 1, 0, 1 / 2, 1)) (\<lambda>k. 1) 0) 1"
  have f: "M =
     \<lparr>Dataset = exampleTrain,
      PU = \<lparr>rows = 2, cols = 1, mdata = [3 / 2, - 2]\<rparr>,
      QI = \<lparr>rows = 1, cols = 1, mdata = [- 1 / 2]\<rparr>,
      BU = [1 / 2, - 2], BI = [- 3 / 2], GlobalMean = 3,
      Config = \<lparr>NumFactors = 1, InitMean = 0, InitStdDev = 1, LR = 1 / 2,
                Reg = 0, Verbose = False\<rparr>\<rparr>"
    unfolding M_def
    by (simp add: spec_fresh_def gridConfig_def Let_def upt_rec numeral_2_eq_2
        spec_fit_def spec_epoch_def observations_def spec_step_def spec_err_def
        entry_def updRow_def exampleTrain_def)
  have n: "nameOf [(''b'', 0)] 0 = ''b''" "nameOf [(''x'', 0)] 0 = ''x''"
    by (simp_all add: nameOf_def)
  have p: "spec_predict M ''b'' ''x'' = 1 / 2"
    unfolding f by (simp add: spec_predict_def exampleTrain_def entry_def)
  have "spec_loss M exampleTest = sqrt ((5 / 2)\<^sup>2)"
    unfolding spec_loss_def by (simp add: exampleTest_def n p)
  then show ?thesis unfolding M_def by simp
qed

section \<open>The empty Dataset\<close>

lemma NewSVD_empty:
  "NewSVD NewDataset cfg g pos = Inl (Panic ''mat: zero or negative dimension'')"
  by (simp add: NewSVD_def randMat_def NewDense_def NewDataset_def Let_def)

lemma NewSVDpp_empty:
  "NewSVDpp NewDataset cfg g pos = Inl (Panic ''integer divide by zero'')"
  by (simp add: NewSVDpp_def buildIU_def NewDataset_def Let_def)

lemma split_one_example:
  "DatasetsFromSlices [''a''] [''x''] [3] 1 [0]
     = Inr (NewDataset,
            \<lparr>Users = [0], Items = [0], Ratings = [3],
             UserMap = [(''a'', 0)], ItemMap = [(''x'', 0)]\<rparr>)"
proof -
  have "mset [0::nat] = mset [0..<length [''a'']]" by simp
  from split_all_test[OF this, of "[''x'']" "[3]"] show ?thesis
    by (simp add: observation_def appendAll_def Append_def getInternalIDs_def lookupOrAdd_def
        NewDataset_def)
qed

text \<open>
  C10, as stated, fails: \<open>NewSVD\<close> does not succeed on the empty Dataset. Fraction 1 does
  give the empty train Dataset, but \<open>NewSVD\<close> then asks for a matrix with zero rows and
  the matrix constructor panics, before \<open>mean32\<close> is evaluated.
\<close>

theorem NewSVD_empty_dataset_counterexample:
  "DatasetsFromSlices [''a''] [''x''] [3] 1 [0]
     = Inr (NewDataset,
            \<lparr>Users = [0], Items = [0], Ratings = [3],
             UserMap = [(''a'', 0)], ItemMap = [(''x'', 0)]\<rparr>) \<and>
   NewSVD NewDataset None zeros 0 = Inl (Panic ''mat: zero or negative dimension'')"
  unfolding split_one_example NewSVD_empty by simp

text \<open>
  C10, amended. For the empty Dataset (zero appended observations) neither constructor
  returns a model, whatever the config and the generator: \<open>NewSVD\<close> panics in the matrix
  constructor, which is asked for zero rows before \<open>mean32\<close> is evaluated, and \<open>NewSVDpp\<close>
  panics before that on the integer division by the number of observations. So no model
  with an undefined global mean is built and no \<open>Predict\<close> follows. The empty Dataset is
  reachable through the public interface: for equal-length slices \<open>DatasetsFromSlices\<close>
  accepts fraction 1 and returns the empty train Dataset, all observations going to
  test.
\<close>

theorem NewSVD_empty_dataset:
  "NewSVD NewDataset cfg g pos = Inl (Panic ''mat: zero or negative dimension'') \<and>
   NewSVDpp NewDataset cfg g pos = Inl (Panic ''integer divide by zero'') \<and>
   (mset p = mset [0..<length u] \<and> length i = length u \<and> length r = length u \<longrightarrow>
      (\<exists>testset. DatasetsFromSlices u i r 1 p = Inr (NewDataset, testset) \<and>
         length (Ratings testset) = length u))"
proof (intro conjI impI)
  show "NewSVD NewDataset cfg g pos = Inl (Panic ''mat: zero or negative dimension'')"
    by (rule NewSVD_empty)
  show "NewSVDpp NewDataset cfg g pos = Inl (Panic ''integer divide by zero'')"
    by (rule NewSVDpp_empty)
  assume a: "mset p = mset [0..<length u] \<and> length i = length u \<and> length r = length u"
  then have p: "mset p = mset [0..<length u]" and li: "length i = length u"
    and lr: "length r = length u" by simp_all
  have "length p = length u" by (rule perm_range(1)[OF p])
  then have "length (Ratings (appendAll NewDataset (map (\<lambda>j. observation u i r (p ! j)) p)))
      = length u"
    by (simp add: appendAll_lengths)
  with split_all_test[OF p li lr]
  show "\<exists>testset. DatasetsFromSlices u i r 1 p = Inr (NewDataset, testset) \<and>
         length (Ratings testset) = length u"
    by blast
qed

theorem NewSVD_empty_dataset_witness:
  "NewSVD NewDataset None zeros 0 = Inl (Panic ''mat: zero or negative dimension'') \<and>
   NewSVDpp NewDataset None zeros 0 = Inl (Panic ''integer divide by zero'') \<and>
   mset [0::nat] = mset [0..<length [''a'']] \<and>
   (\<exists>testset. DatasetsFromSlices [''a''] [''x''] [3] 1 [0] = Inr (NewDataset, testset) \<and>
      length (Ratings testset) = 1)"
  using NewSVD_empty_dataset [of None zeros 0 "[0]" "[''a'']" "[''x'']" "[3]"]
  by simp

end
